(* ===== verification/Prelude.thy ===== *)
theory Prelude
  imports Complex_Main "HOL-Library.Word" "HOL-Library.AList"
begin

text \<open>
  Shared vocabulary of the development: byte strings, the exceptions the package raises,
  results of fallible operations, the fragment of \<^verbatim>\<open>struct\<close> (big-endian
  integers and fixed-width byte strings) that the wire formats use, Python dictionaries as
  insertion-ordered association lists, and the interface that every wire format of the
  package implements (\<open>wire_codec\<close>, \<open>framed_codec\<close>).
\<close>

unbundle bit_operations_syntax

named_theorems wire_simps "lengths and slices of packed byte strings"

section \<open>Types\<close>

type_synonym byte = "8 word"
type_synonym bytes = "byte list"

text \<open>
  The exceptions of \<^verbatim>\<open>ztlnp/exceptions.py\<close>, the transport exceptions of
  \<^verbatim>\<open>ztlnp/transport.py\<close>, and the exceptions of Python and of the
  \<^verbatim>\<open>cryptography\<close> package that the code can let escape. Messages are dropped,
  except for the sequence numbers that a \<open>RetransmitError\<close> reports.
\<close>

datatype error =
    InvalidMagicError
  | InvalidVersionError
  | SignatureVerificationError
  | ReplayAttackError
  | SessionNotFoundError
  | HandshakeError
  | TrustError
  | RoutingError
  | RetransmitError "int list"
  | KeyRotationError
  | TrustPoisoningError
  | TransportTimeout
  | TransportClosed
  | ValueError
  | StructError
  | KeyError
  | AttributeError
  | TypeError
  | RuntimeError
  | ZeroDivisionError
  | OverflowError
  | OSError
  | SocketTimeout
  | AssertionError
  | SystemExit
  | InvalidTag
  | InvalidSignature

text \<open>The class hierarchy of the module: every exception it declares is a \<open>ZTLNPError\<close>.\<close>

fun is_ZTLNPError :: "error \<Rightarrow> bool" where
  "is_ZTLNPError InvalidMagicError = True"
| "is_ZTLNPError InvalidVersionError = True"
| "is_ZTLNPError SignatureVerificationError = True"
| "is_ZTLNPError ReplayAttackError = True"
| "is_ZTLNPError SessionNotFoundError = True"
| "is_ZTLNPError HandshakeError = True"
| "is_ZTLNPError TrustError = True"
| "is_ZTLNPError RoutingError = True"
| "is_ZTLNPError (RetransmitError _) = True"
| "is_ZTLNPError KeyRotationError = True"
| "is_ZTLNPError TrustPoisoningError = True"
| "is_ZTLNPError _ = False"

text \<open>
  A pure operation that may raise returns an \<open>'a result\<close>. A method that also changes an
  object returns the result together with the object's state, whether it raised or not: the
  attributes written before an exception keep their new values.
\<close>

type_synonym 'a result = "error + 'a"

definition bindE :: "'a result \<Rightarrow> ('a \<Rightarrow> 'b result) \<Rightarrow> 'b result" where
  "bindE r k = (case r of Inl e \<Rightarrow> Inl e | Inr x \<Rightarrow> k x)"

text \<open>Sequencing of methods: an exception ends the method, with the state it has reached.\<close>

type_synonym ('s, 'a) pymethod = "'s \<Rightarrow> 'a result \<times> 's"

definition bindS :: "('s, 'a) pymethod \<Rightarrow> ('a \<Rightarrow> ('s, 'b) pymethod) \<Rightarrow> ('s, 'b) pymethod" where
  "bindS m k s = (case m s of (Inl e, s') \<Rightarrow> (Inl e, s') | (Inr x, s') \<Rightarrow> k x s')"

text \<open>
  A Python dictionary keeps its keys in insertion order; assignment to a key that is present
  keeps the key's place. This is the behaviour of the association-list operations of
  \<^verbatim>\<open>HOL-Library.AList\<close>.
\<close>

type_synonym ('k, 'v) dict = "('k \<times> 'v) list"

abbreviation dict_get :: "('k, 'v) dict \<Rightarrow> 'k \<Rightarrow> 'v option" where
  "dict_get d k \<equiv> map_of d k"

abbreviation dict_set :: "'k \<Rightarrow> 'v \<Rightarrow> ('k, 'v) dict \<Rightarrow> ('k, 'v) dict" where
  "dict_set k v d \<equiv> AList.update k v d"

abbreviation dict_del :: "'k \<Rightarrow> ('k, 'v) dict \<Rightarrow> ('k, 'v) dict" where
  "dict_del k d \<equiv> AList.delete k d"

abbreviation dict_keys :: "('k, 'v) dict \<Rightarrow> 'k list" where
  "dict_keys d \<equiv> map fst d"

abbreviation dict_ok :: "('k, 'v) dict \<Rightarrow> bool" where
  "dict_ok d \<equiv> distinct (map fst d)"

text \<open>\<^verbatim>\<open>d.get(k, default)\<close>\<close>

definition dict_get_or :: "'v \<Rightarrow> ('k, 'v) dict \<Rightarrow> 'k \<Rightarrow> 'v" where
  "dict_get_or dflt d k = (case dict_get d k of None \<Rightarrow> dflt | Some v \<Rightarrow> v)"

section \<open>Packing: the fragment of struct the package uses\<close>

text \<open>\<open>py_slice i j bs\<close> is \<^verbatim>\<open>bs[i:j]\<close> for non-negative bounds.\<close>

definition py_slice :: "nat \<Rightarrow> nat \<Rightarrow> 'a list \<Rightarrow> 'a list" where
  "py_slice i j xs = take (j - i) (drop i xs)"

text \<open>Big-endian bytes of an integer, and back (\<^verbatim>\<open>int.from_bytes(_, "big")\<close>).\<close>

fun be_bytes :: "nat \<Rightarrow> int \<Rightarrow> bytes" where
  "be_bytes 0 v = []"
| "be_bytes (Suc n) v = word_of_int (v div 256 ^ n) # be_bytes n v"

fun be_int :: "bytes \<Rightarrow> int" where
  "be_int [] = 0"
| "be_int (b # bs) = uint b * 256 ^ length bs + be_int bs"

text \<open>
  The unsigned format characters \<open>B\<close>, \<open>H\<close>, \<open>I\<close>, \<open>Q\<close> (1, 2, 4 and 8 bytes): a value out of
  range raises \<^verbatim>\<open>struct.error\<close>. The format \<^verbatim>\<open><n>s\<close> pads a short
  byte string with zero bytes and cuts a long one.
\<close>

definition pack_uint :: "nat \<Rightarrow> int \<Rightarrow> bytes result" where
  "pack_uint n v = (if 0 \<le> v \<and> v < 256 ^ n then Inr (be_bytes n v) else Inl StructError)"

definition pack_s :: "nat \<Rightarrow> bytes \<Rightarrow> bytes" where
  "pack_s n bs = take n (bs @ replicate n 0)"

section \<open>Lemmas on results, slices and dictionaries\<close>

lemma bindE_simps [simp]:
  "bindE (Inl e) k = Inl e"
  "bindE (Inr x) k = k x"
  by (simp_all add: bindE_def)

lemma bindE_eq_Inr: "bindE r k = Inr y \<longleftrightarrow> (\<exists>x. r = Inr x \<and> k x = Inr y)"
  by (cases r) simp_all

lemma bindE_eq_Inl: "bindE r k = Inl e \<longleftrightarrow> r = Inl e \<or> (\<exists>x. r = Inr x \<and> k x = Inl e)"
  by (cases r) simp_all

lemma bindS_simps [simp]:
  "m s = (Inl e, s') \<Longrightarrow> bindS m k s = (Inl e, s')"
  "m s = (Inr x, s') \<Longrightarrow> bindS m k s = k x s'"
  by (simp_all add: bindS_def)

lemma bindS_eq_Inr:
  "bindS m k s = (Inr y, s'') \<longleftrightarrow> (\<exists>x s'. m s = (Inr x, s') \<and> k x s' = (Inr y, s''))"
  by (auto simp: bindS_def split: prod.splits sum.splits)

lemma length_slice [wire_simps]: "j \<le> length xs \<Longrightarrow> length (py_slice i j xs) = j - i"
  by (simp add: py_slice_def)

lemma slice_append1 [wire_simps]: "j \<le> length xs \<Longrightarrow> py_slice i j (xs @ ys) = py_slice i j xs"
  by (cases "i \<le> j") (simp_all add: py_slice_def)

lemma slice_append2 [wire_simps]:
  "length xs \<le> i \<Longrightarrow> py_slice i j (xs @ ys) = py_slice (i - length xs) (j - length xs) ys"
  by (simp add: py_slice_def)

lemma slice_all [wire_simps]: "length xs \<le> j \<Longrightarrow> py_slice 0 j xs = xs"
  by (simp add: py_slice_def)

lemma slice_take [wire_simps]: "py_slice 0 j xs = take j xs"
  by (simp add: py_slice_def)

lemma slice_join: "i \<le> j \<Longrightarrow> j \<le> k \<Longrightarrow> py_slice i j xs @ py_slice j k xs = py_slice i k xs"
proof -
  assume ij: "i \<le> j" and jk: "j \<le> k"
  have "drop (j - i) (drop i xs) = drop j xs"
    using ij by simp
  moreover have "k - i = (j - i) + (k - j)"
    using ij jk by simp
  ultimately show ?thesis
    by (simp add: py_slice_def take_add)
qed

lemma dict_get_set: "dict_get (dict_set k v d) k' = (if k' = k then Some v else dict_get d k')"
  by (simp add: update_conv')

lemma dict_get_del: "dict_get (dict_del k d) k' = (if k' = k then None else dict_get d k')"
  by (simp add: delete_conv')

lemma dict_get_None: "dict_get d k = None \<longleftrightarrow> k \<notin> set (dict_keys d)"
  by (simp add: map_of_eq_None_iff)

lemma dict_keys_set:
  "dict_keys (dict_set k v d) = (if k \<in> set (dict_keys d) then dict_keys d else dict_keys d @ [k])"
  by (induction d) auto

lemma dict_ok_set [simp, intro]: "dict_ok d \<Longrightarrow> dict_ok (dict_set k v d)"
  by (rule distinct_update)

lemma dict_ok_del [simp, intro]: "dict_ok d \<Longrightarrow> dict_ok (dict_del k d)"
  by (rule distinct_delete)

lemma dict_set_absent: "dict_get d k = None \<Longrightarrow> dict_set k v d = d @ [(k, v)]"
  by (induction d) (auto split: if_splits)

lemma dict_set_length:
  "length (dict_set k v d) = (if dict_get d k = None then Suc (length d) else length d)"
  by (induction d) auto

lemma dict_get_or_set:
  "dict_get_or u (dict_set k v d) k' = (if k' = k then v else dict_get_or u d k')"
  by (simp add: dict_get_or_def dict_get_set)

lemma dict_get_or_simps [simp]: "dict_get_or u [] k = u"
  by (simp add: dict_get_or_def)

lemmas dict_simps = dict_get_set dict_get_del dict_get_or_set

section \<open>Lemmas on packed integers\<close>

lemma length_be_bytes [simp, wire_simps]: "length (be_bytes n v) = n"
  by (induction n) simp_all

lemma be_int_nonneg [simp]: "0 \<le> be_int bs"
  by (induction bs) simp_all

lemma be_int_bound: "be_int bs < 256 ^ length bs"
proof (induction bs)
  case Nil
  then show ?case by simp
next
  case (Cons b bs)
  have "uint b \<le> 255"
    using uint_lt2p [of b] by simp
  then have "uint b * 256 ^ length bs \<le> 255 * 256 ^ length bs"
    by (rule mult_right_mono) simp
  with Cons show ?case
    unfolding be_int.simps length_Cons power_Suc by linarith
qed

lemma be_int_be_bytes: "0 \<le> v \<Longrightarrow> v < 256 ^ n \<Longrightarrow> be_int (be_bytes n v) = v"
proof -
  have "be_int (be_bytes n v) = v mod 256 ^ n" for v
  proof (induction n)
    case 0
    then show ?case by simp
  next
    case (Suc n)
    have u: "uint (word_of_int (v div 256 ^ n) :: byte) = (v div 256 ^ n) mod 256"
      by (simp add: uint_word_of_int)
    have "v mod (256 ^ n * 256) = 256 ^ n * ((v div 256 ^ n) mod 256) + v mod 256 ^ n"
      by (rule zmod_zmult2_eq) simp
    then show ?case
      unfolding be_bytes.simps be_int.simps u Suc length_be_bytes power_Suc2
      by (simp only: mult.commute)
  qed
  then show "0 \<le> v \<Longrightarrow> v < 256 ^ n \<Longrightarrow> be_int (be_bytes n v) = v"
    by simp
qed

lemma be_bytes_mod: "be_bytes n (c * 256 ^ n + v) = be_bytes n v"
proof (induction n arbitrary: c)
  case 0
  then show ?case by simp
next
  case (Suc n)
  have "(c * 256 ^ Suc n + v) div 256 ^ n = c * 256 + v div 256 ^ n"
    by (simp add: mult.assoc [symmetric])
  moreover have "(word_of_int (c * 256 + w) :: byte) = word_of_int w" for w
    unfolding word_of_int_eq_iff take_bit_eq_mod by simp
  ultimately have "(word_of_int ((c * 256 ^ Suc n + v) div 256 ^ n) :: byte)
      = word_of_int (v div 256 ^ n)"
    by (simp only:)
  moreover have "be_bytes n (c * 256 ^ Suc n + v) = be_bytes n v"
    using Suc.IH [of "c * 256"] by (simp add: mult.assoc)
  ultimately show ?case by simp
qed

lemma be_bytes_be_int: "be_bytes (length bs) (be_int bs) = bs"
proof (induction bs)
  case Nil
  then show ?case by simp
next
  case (Cons b bs)
  have "(uint b * 256 ^ length bs + be_int bs) div 256 ^ length bs = uint b"
    using be_int_bound [of bs] by simp
  with Cons show ?case
    by (simp add: be_bytes_mod)
qed

lemma be_bytes_be_int_len: "length bs = n \<Longrightarrow> be_bytes n (be_int bs) = bs"
  using be_bytes_be_int by blast

lemma be_int_range: "length bs = n \<Longrightarrow> 0 \<le> be_int bs \<and> be_int bs < 256 ^ n"
  using be_int_bound [of bs] by simp

lemma pack_uint_Inr: "pack_uint n v = Inr bs \<longleftrightarrow> 0 \<le> v \<and> v < 256 ^ n \<and> bs = be_bytes n v"
  by (auto simp: pack_uint_def)

lemma pack_uint_ok: "0 \<le> v \<Longrightarrow> v < 256 ^ n \<Longrightarrow> pack_uint n v = Inr (be_bytes n v)"
  by (simp add: pack_uint_def)

lemma pack_s_exact [simp]: "length bs = n \<Longrightarrow> pack_s n bs = bs"
  by (simp add: pack_s_def)

lemma length_pack_s [simp, wire_simps]: "length (pack_s n bs) = n"
  by (simp add: pack_s_def)

section \<open>The interface of a wire format\<close>

text \<open>
  What a reader of a wire format relies on: a well-formed value can be encoded, and decoding
  the encoding returns the value. The lemmas proved here hold for every format of the package
  that is shown to be a codec.
\<close>

locale wire_codec =
  fixes wf :: "'a \<Rightarrow> bool"
    and enc :: "'a \<Rightarrow> bytes result"
    and dec :: "bytes \<Rightarrow> 'a result"
  assumes enc_total: "wf x \<Longrightarrow> \<exists>bs. enc x = Inr bs"
    and dec_enc: "wf x \<Longrightarrow> enc x = Inr bs \<Longrightarrow> dec bs = Inr x"
begin

lemma enc_injective: "wf x \<Longrightarrow> wf y \<Longrightarrow> enc x = enc y \<Longrightarrow> x = y"
  by (metis dec_enc enc_total sum.inject(2))

lemma roundtrip: "wf x \<Longrightarrow> bindE (enc x) dec = Inr x"
  using enc_total [of x] dec_enc [of x] by auto

end

text \<open>
  A format that carries its own length ignores what follows the encoded value, so that two
  different well-formed values never have encodings of which one is a prefix of the other.
\<close>

locale framed_codec =
  fixes wf :: "'a \<Rightarrow> bool"
    and enc :: "'a \<Rightarrow> bytes result"
    and dec :: "bytes \<Rightarrow> 'a result"
  assumes framed_enc_total: "wf x \<Longrightarrow> \<exists>bs. enc x = Inr bs"
    and dec_enc_rest: "wf x \<Longrightarrow> enc x = Inr bs \<Longrightarrow> dec (bs @ rest) = Inr x"
begin

lemma prefix_free:
  assumes "wf x" and "wf y" and "enc x = Inr bs" and "enc y = Inr cs" and "bs @ r = cs @ s"
  shows "x = y \<and> r = s"
proof -
  have "dec (bs @ r) = Inr x" and "dec (cs @ s) = Inr y"
    using assms dec_enc_rest by blast+
  with assms(5) have "x = y" by simp
  with assms show ?thesis by simp
qed

end

sublocale framed_codec \<subseteq> wire_codec
proof unfold_locales
  show "wf x \<Longrightarrow> \<exists>bs. enc x = Inr bs" for x
    by (rule framed_enc_total)
  show "wf x \<Longrightarrow> enc x = Inr bs \<Longrightarrow> dec bs = Inr x" for x bs
    using dec_enc_rest [of x bs "[]"] by simp
qed

end
