(* ===== verification/Sha256.thy ===== *)
theory Sha256
  imports Prelude
begin

text \<open>
  \<^verbatim>\<open>hashlib.sha256\<close> of Python's standard library, as FIPS 180-4 defines it, on
  byte strings. Device identities, fingerprints and key transitions all go through this
  function, so it is defined here and not assumed: \<open>length_sha256\<close> is a fact, and no
  property of the development assumes that it has no collisions.
\<close>

unbundle bit_operations_syntax

type_synonym sha_word = "32 word"
type_synonym sha_state =
  "sha_word \<times> sha_word \<times> sha_word \<times> sha_word \<times> sha_word \<times> sha_word \<times> sha_word \<times> sha_word"

text \<open>The round constants, in decimal: the first 32 bits of the fractional parts of the cube roots
  of the first 64 primes.\<close>

definition sha_K :: "sha_word list" where
  "sha_K = [
   1116352408, 1899447441, 3049323471, 3921009573, 961987163, 1508970993,
   2453635748, 2870763221, 3624381080, 310598401, 607225278, 1426881987,
   1925078388, 2162078206, 2614888103, 3248222580, 3835390401, 4022224774,
   264347078, 604807628, 770255983, 1249150122, 1555081692, 1996064986,
   2554220882, 2821834349, 2952996808, 3210313671, 3336571891, 3584528711,
   113926993, 338241895, 666307205, 773529912, 1294757372, 1396182291,
   1695183700, 1986661051, 2177026350, 2456956037, 2730485921, 2820302411,
   3259730800, 3345764771, 3516065817, 3600352804, 4094571909, 275423344,
   430227734, 506948616, 659060556, 883997877, 958139571, 1322822218,
   1537002063, 1747873779, 1955562222, 2024104815, 2227730452, 2361852424,
   2428436474, 2756734187, 3204031479, 3329325298]"

definition sha_H0 :: sha_state where
  "sha_H0 = (0x6a09e667, 0xbb67ae85, 0x3c6ef372, 0xa54ff53a,
             0x510e527f, 0x9b05688c, 0x1f83d9ab, 0x5be0cd19)"

definition sha_rotr :: "nat \<Rightarrow> sha_word \<Rightarrow> sha_word" where
  "sha_rotr n x = drop_bit n x OR push_bit (32 - n) x"

definition sha_Sigma0 :: "sha_word \<Rightarrow> sha_word" where
  "sha_Sigma0 x = sha_rotr 2 x XOR sha_rotr 13 x XOR sha_rotr 22 x"

definition sha_Sigma1 :: "sha_word \<Rightarrow> sha_word" where
  "sha_Sigma1 x = sha_rotr 6 x XOR sha_rotr 11 x XOR sha_rotr 25 x"

definition sha_sigma0 :: "sha_word \<Rightarrow> sha_word" where
  "sha_sigma0 x = sha_rotr 7 x XOR sha_rotr 18 x XOR drop_bit 3 x"

definition sha_sigma1 :: "sha_word \<Rightarrow> sha_word" where
  "sha_sigma1 x = sha_rotr 17 x XOR sha_rotr 19 x XOR drop_bit 10 x"

definition sha_Ch :: "sha_word \<Rightarrow> sha_word \<Rightarrow> sha_word \<Rightarrow> sha_word" where
  "sha_Ch x y z = (x AND y) XOR (NOT x AND z)"

definition sha_Maj :: "sha_word \<Rightarrow> sha_word \<Rightarrow> sha_word \<Rightarrow> sha_word" where
  "sha_Maj x y z = (x AND y) XOR (x AND z) XOR (y AND z)"

text \<open>The message schedule: the last sixteen words, oldest first, give the next one.\<close>

fun sha_schedule :: "nat \<Rightarrow> sha_word list \<Rightarrow> sha_word list" where
  "sha_schedule 0 w = []"
| "sha_schedule (Suc n) w =
     (let t = sha_sigma1 (w ! 14) + w ! 9 + sha_sigma0 (w ! 1) + w ! 0
      in t # sha_schedule n (tl w @ [t]))"

fun sha_round :: "sha_state \<Rightarrow> sha_word \<times> sha_word \<Rightarrow> sha_state" where
  "sha_round (a, b, c, d, e, f, g, h) (k, w) =
     (let t1 = h + sha_Sigma1 e + sha_Ch e f g + k + w; t2 = sha_Sigma0 a + sha_Maj a b c
      in (t1 + t2, a, b, c, d + t1, e, f, g))"

fun sha_add :: "sha_state \<Rightarrow> sha_state \<Rightarrow> sha_state" where
  "sha_add (a, b, c, d, e, f, g, h) (a', b', c', d', e', f', g', h') =
     (a + a', b + b', c + c', d + d', e + e', f + f', g + g', h + h')"

definition sha_compress :: "sha_state \<Rightarrow> sha_word list \<Rightarrow> sha_state" where
  "sha_compress H block =
     sha_add H (foldl sha_round H (zip sha_K (block @ sha_schedule 48 block)))"

function sha_blocks :: "sha_state \<Rightarrow> sha_word list \<Rightarrow> sha_state" where
  "sha_blocks H ws =
     (if length ws < 16 then H else sha_blocks (sha_compress H (take 16 ws)) (drop 16 ws))"
  by pat_completeness auto
termination
  by (relation "measure (\<lambda>(H, ws). length ws)") auto

fun sha_words :: "bytes \<Rightarrow> sha_word list" where
  "sha_words (a # b # c # d # bs) = word_of_int (be_int [a, b, c, d]) # sha_words bs"
| "sha_words _ = []"

text \<open>Padding: a one bit, zero bits, and the length in bits as a 64-bit integer.\<close>

definition sha_pad :: "bytes \<Rightarrow> bytes" where
  "sha_pad m = m @ [0x80] @ replicate ((119 - length m mod 64) mod 64) 0
                 @ be_bytes 8 (8 * int (length m))"

fun sha_digest :: "sha_state \<Rightarrow> bytes" where
  "sha_digest (a, b, c, d, e, f, g, h) =
     concat (map (\<lambda>w. be_bytes 4 (uint w)) [a, b, c, d, e, f, g, h])"

definition sha256 :: "bytes \<Rightarrow> bytes" where
  "sha256 m = sha_digest (sha_blocks sha_H0 (sha_words (sha_pad m)))"

declare sha_blocks.simps [simp del]

lemma length_sha_digest: "length (sha_digest H) = 32"
  by (induction H rule: sha_digest.induct) simp

lemma length_sha256 [simp, wire_simps]: "length (sha256 m) = 32"
  by (simp add: sha256_def length_sha_digest)

text \<open>The padded message is a whole number of 64-byte blocks, so no input byte is dropped.\<close>

lemma sha_pad_blocks: "length (sha_pad m) mod 64 = 0"
proof -
  define r where "r = length m mod 64"
  have "r + (1 + ((119 - r) mod 64 + 8)) = (if r \<le> 55 then 64 else 128)"
  proof (cases "r \<le> 55")
    case True
    then have "(119 - r) mod 64 = (55 - r + 64) mod 64" by simp
    also have "\<dots> = 55 - r" by (simp only: mod_add_self2) simp
    finally show ?thesis using True by simp
  next
    case False
    moreover have "r < 64" by (simp add: r_def)
    ultimately have "(119 - r) mod 64 = 119 - r" by simp
    with False \<open>r < 64\<close> show ?thesis by simp
  qed
  then have "(r + (1 + ((119 - r) mod 64 + 8))) mod 64 = 0" by simp
  then show ?thesis by (simp add: sha_pad_def r_def mod_add_left_eq)
qed

text \<open>
  Evaluation of the digest of a one-block message in steps small enough for the kernel: the
  schedule sixteen words at a time, the rounds as a fold over consecutive segments.
\<close>

lemma sha_schedule_add:
  "w \<noteq> [] \<Longrightarrow> sha_schedule (m + n) w
     = sha_schedule m w @ sha_schedule n (drop m (w @ sha_schedule m w))"
proof (induction m arbitrary: w)
  case 0
  then show ?case by simp
next
  case (Suc m)
  then obtain x xs where w: "w = x # xs" by (cases w) auto
  show ?case
    using Suc.IH [of "tl w @ [sha_sigma1 (w ! 14) + w ! 9 + sha_sigma0 (w ! 1) + w ! 0]"]
    by (simp add: w Let_def)
qed

lemma length_sha_schedule [simp]: "length (sha_schedule n w) = n"
  by (induction n arbitrary: w) (simp_all add: Let_def)

lemma sha_schedule_48:
  assumes "length w0 = 16"
    and "sha_schedule 16 w0 = w1" and "sha_schedule 16 w1 = w2" and "sha_schedule 16 w2 = w3"
  shows "sha_schedule 48 w0 = w1 @ w2 @ w3"
proof -
  have len: "length w1 = 16" "length w2 = 16"
    using assms(2,3) by auto
  have ne: "w0 \<noteq> []" "w1 \<noteq> []"
    using assms(1) len by auto
  have "sha_schedule (16 + 32) w0 = w1 @ sha_schedule 32 w1"
    using sha_schedule_add [OF ne(1), of 16 32] assms(1,2) by simp
  moreover have "sha_schedule (16 + 16) w1 = w2 @ w3"
    using sha_schedule_add [OF ne(2), of 16 16] len assms(3,4) by simp
  ultimately show ?thesis by simp
qed

lemma sha256_one_block:
  assumes "sha_words (sha_pad m) = w0" and "length w0 = 16"
    and "sha_schedule 16 w0 = w1" and "sha_schedule 16 w1 = w2" and "sha_schedule 16 w2 = w3"
    and "zip sha_K (w0 @ w1 @ w2 @ w3) = kws"
    and "foldl sha_round sha_H0 kws = s"
  shows "sha256 m = sha_digest (sha_add sha_H0 s)"
  using assms sha_schedule_48 [OF assms(2-5)]
  by (simp add: sha256_def sha_compress_def sha_blocks.simps)

end
