(* ===== verification/Packet.thy ===== *)
theory Packet
  imports Sha256
begin

text \<open>
  \<^verbatim>\<open>ztlnp/packet.py\<close>: the packet record, its validation on construction, its
  serialisation and its parser. The properties say that parsing inverts serialisation (also
  when other bytes follow), that serialising a parsed packet gives back exactly the bytes that
  were parsed, with the parser's clock in place of a zero timestamp, and which input raises which error.
\<close>

section \<open>Definitions\<close>

definition MAGIC :: bytes where
  "MAGIC = [0x5A, 0x54, 0x4C, 0x50]" \<comment> \<open>\<^verbatim>\<open>b"ZTLP"\<close>\<close>

definition VERSION :: int where "VERSION = 0x01"

definition HEADER_SIZE :: nat where "HEADER_SIZE = 100"

definition SIG_SIZE :: nat where "SIG_SIZE = 64"

definition BROADCAST_ID :: bytes where "BROADCAST_ID = replicate 32 0"

definition SEQUENCE_OFFSET :: nat where "SEQUENCE_OFFSET = 80"

datatype PacketType =
  HELLO | KEY_EXCHANGE | DATA | ACK | ERROR | BYE | ROUTE_ANNOUNCE | TRUST_ENDORSE | KEY_ROTATE

fun PacketType_value :: "PacketType \<Rightarrow> int" where
  "PacketType_value HELLO = 0x01"
| "PacketType_value KEY_EXCHANGE = 0x02"
| "PacketType_value DATA = 0x03"
| "PacketType_value ACK = 0x04"
| "PacketType_value ERROR = 0x05"
| "PacketType_value BYE = 0x06"
| "PacketType_value ROUTE_ANNOUNCE = 0x07"
| "PacketType_value TRUST_ENDORSE = 0x08"
| "PacketType_value KEY_ROTATE = 0x09"

text \<open>\<^verbatim>\<open>PacketType(raw)\<close>: the enum member with this value, or \<open>ValueError\<close>.\<close>

definition PacketType_of :: "int \<Rightarrow> PacketType result" where
  "PacketType_of v =
     (case find (\<lambda>t. PacketType_value t = v)
        [HELLO, KEY_EXCHANGE, DATA, ACK, ERROR, BYE, ROUTE_ANNOUNCE, TRUST_ENDORSE, KEY_ROTATE]
      of None \<Rightarrow> Inl ValueError | Some t \<Rightarrow> Inr t)"

definition FLAG_NONE :: int where "FLAG_NONE = 0x0000"
definition FLAG_ENCRYPTED :: int where "FLAG_ENCRYPTED = 0x0001"
definition FLAG_BROADCAST :: int where "FLAG_BROADCAST = 0x0002"
definition FLAG_MAC_AUTH :: int where "FLAG_MAC_AUTH = 0x0004"
definition FLAG_PADDING :: int where "FLAG_PADDING = 0x0008"

record packet =
  pkt_ptype :: PacketType
  pkt_sender_id :: bytes
  pkt_payload :: bytes
  pkt_recipient_id :: bytes
  pkt_flags :: int
  pkt_sequence :: int
  pkt_nonce :: bytes
  pkt_timestamp_ms :: int
  pkt_signature :: bytes

text \<open>
  \<^verbatim>\<open>Packet.__post_init__\<close>: the length checks, and the clock reading
  \<open>now_ms\<close> (\<^verbatim>\<open>_now_ms()\<close>) in place of a zero timestamp.
\<close>

definition Packet_post_init :: "int \<Rightarrow> packet \<Rightarrow> packet result" where
  "Packet_post_init now_ms p =
     (if length (pkt_sender_id p) \<noteq> 32 then Inl ValueError
      else if length (pkt_recipient_id p) \<noteq> 32 then Inl ValueError
      else if length (pkt_nonce p) \<noteq> 12 then Inl ValueError
      else if pkt_timestamp_ms p = 0 then Inr (p\<lparr>pkt_timestamp_ms := now_ms\<rparr>)
      else Inr p)"

definition Packet_header_bytes :: "packet \<Rightarrow> bytes result" where
  "Packet_header_bytes p =
     bindE (pack_uint 2 (pkt_flags p)) (\<lambda>flags.
     bindE (pack_uint 8 (pkt_timestamp_ms p)) (\<lambda>timestamp.
     bindE (pack_uint 4 (pkt_sequence p)) (\<lambda>sequence.
     bindE (pack_uint 4 (int (length (pkt_payload p)))) (\<lambda>payload_len.
       Inr (pack_s 4 MAGIC @ be_bytes 1 VERSION @ be_bytes 1 (PacketType_value (pkt_ptype p))
            @ flags @ pack_s 32 (pkt_sender_id p) @ pack_s 32 (pkt_recipient_id p)
            @ timestamp @ sequence @ pack_s 12 (pkt_nonce p) @ payload_len)))))"

definition Packet_signed_bytes :: "packet \<Rightarrow> bytes result" where
  "Packet_signed_bytes p = bindE (Packet_header_bytes p) (\<lambda>h. Inr (h @ pkt_payload p))"

definition Packet_to_bytes :: "packet \<Rightarrow> bytes result" where
  "Packet_to_bytes p = bindE (Packet_signed_bytes p) (\<lambda>b. Inr (b @ pkt_signature p))"

text \<open>\<^verbatim>\<open>Packet.from_bytes\<close>, with the clock reading its constructor may take.\<close>

definition Packet_from_bytes :: "int \<Rightarrow> bytes \<Rightarrow> packet result" where
  "Packet_from_bytes now_ms data =
     (if length data < HEADER_SIZE + SIG_SIZE then Inl ValueError
      else
        let magic = py_slice 0 4 data;
            version = be_int (py_slice 4 5 data);
            ptype_raw = be_int (py_slice 5 6 data);
            flags = be_int (py_slice 6 8 data);
            sender_id = py_slice 8 40 data;
            recipient_id = py_slice 40 72 data;
            timestamp_ms = be_int (py_slice 72 80 data);
            sequence = be_int (py_slice 80 84 data);
            nonce = py_slice 84 96 data;
            payload_len = nat (be_int (py_slice 96 100 data))
        in if magic \<noteq> MAGIC then Inl InvalidMagicError
           else if version \<noteq> VERSION then Inl InvalidVersionError
           else if length data < HEADER_SIZE + payload_len + SIG_SIZE then Inl ValueError
           else bindE (PacketType_of ptype_raw) (\<lambda>ptype.
             Packet_post_init now_ms
               \<lparr>pkt_ptype = ptype, pkt_sender_id = sender_id,
                pkt_payload = py_slice HEADER_SIZE (HEADER_SIZE + payload_len) data,
                pkt_recipient_id = recipient_id, pkt_flags = flags, pkt_sequence = sequence,
                pkt_nonce = nonce, pkt_timestamp_ms = timestamp_ms,
                pkt_signature = py_slice (HEADER_SIZE + payload_len)
                                         (HEADER_SIZE + payload_len + SIG_SIZE) data\<rparr>))"

text \<open>The packets that fit the wire format: every fixed field has its width.\<close>

definition packet_wf :: "packet \<Rightarrow> bool" where
  "packet_wf p \<longleftrightarrow>
     length (pkt_sender_id p) = 32 \<and> length (pkt_recipient_id p) = 32 \<and>
     length (pkt_nonce p) = 12 \<and> length (pkt_signature p) = 64 \<and>
     0 \<le> pkt_flags p \<and> pkt_flags p < 256 ^ 2 \<and>
     0 < pkt_timestamp_ms p \<and> pkt_timestamp_ms p < 256 ^ 8 \<and>
     0 \<le> pkt_sequence p \<and> pkt_sequence p < 256 ^ 4 \<and>
     int (length (pkt_payload p)) < 256 ^ 4"

text \<open>The 100 header bytes of a packet whose integers are in range.\<close>

definition packet_layout :: "packet \<Rightarrow> bytes" where
  "packet_layout p =
     MAGIC @ be_bytes 1 VERSION @ be_bytes 1 (PacketType_value (pkt_ptype p))
     @ be_bytes 2 (pkt_flags p) @ pkt_sender_id p @ pkt_recipient_id p
     @ be_bytes 8 (pkt_timestamp_ms p) @ be_bytes 4 (pkt_sequence p) @ pkt_nonce p
     @ be_bytes 4 (int (length (pkt_payload p)))"

lemmas packet_consts = HEADER_SIZE_def SIG_SIZE_def SEQUENCE_OFFSET_def

section \<open>Serialisation\<close>

lemma length_MAGIC [simp, wire_simps]: "length MAGIC = 4"
  by (simp add: MAGIC_def)

lemma length_BROADCAST_ID [simp]: "length BROADCAST_ID = 32"
  by (simp add: BROADCAST_ID_def)

lemma PacketType_value_range: "0 \<le> PacketType_value t \<and> PacketType_value t < 256"
  by (cases t) simp_all

lemma PacketType_of_value [simp]: "PacketType_of (PacketType_value t) = Inr t"
  by (cases t) (simp_all add: PacketType_of_def)

lemma PacketType_of_Inr: "PacketType_of v = Inr t \<Longrightarrow> v = PacketType_value t"
  unfolding PacketType_of_def
  by (auto split: option.splits if_splits)

lemma PacketType_of_range: "(\<exists>t. PacketType_of v = Inr t) \<longleftrightarrow> 1 \<le> v \<and> v \<le> 9"
proof
  assume "\<exists>t. PacketType_of v = Inr t"
  then obtain t where "v = PacketType_value t" by (auto dest: PacketType_of_Inr)
  then show "1 \<le> v \<and> v \<le> 9" by (cases t) simp_all
next
  assume "1 \<le> v \<and> v \<le> 9"
  then have "v \<in> {1, 2, 3, 4, 5, 6, 7, 8, 9}" by auto
  then have "\<exists>t. v = PacketType_value t"
    by (metis PacketType_value.simps insert_iff singletonD)
  then show "\<exists>t. PacketType_of v = Inr t" by auto
qed

lemma Packet_header_bytes_wf: "packet_wf p \<Longrightarrow> Packet_header_bytes p = Inr (packet_layout p)"
  by (simp add: packet_wf_def Packet_header_bytes_def packet_layout_def pack_uint_ok)

lemma length_packet_layout [wire_simps]:
  "packet_wf p \<Longrightarrow> length (packet_layout p) = 100"
  by (simp add: packet_wf_def packet_layout_def)

lemma Packet_to_bytes_wf:
  "packet_wf p \<Longrightarrow> Packet_to_bytes p = Inr (packet_layout p @ pkt_payload p @ pkt_signature p)"
  by (simp add: Packet_to_bytes_def Packet_signed_bytes_def Packet_header_bytes_wf)

lemma Packet_signed_bytes_wf:
  "packet_wf p \<Longrightarrow> Packet_signed_bytes p = Inr (packet_layout p @ pkt_payload p)"
  by (simp add: Packet_signed_bytes_def Packet_header_bytes_wf)

lemma packet_layout_fields:
  assumes "packet_wf p"
  shows "py_slice 0 4 (packet_layout p) = MAGIC"
    and "py_slice 4 5 (packet_layout p) = be_bytes 1 VERSION"
    and "py_slice 5 6 (packet_layout p) = be_bytes 1 (PacketType_value (pkt_ptype p))"
    and "py_slice 6 8 (packet_layout p) = be_bytes 2 (pkt_flags p)"
    and "py_slice 8 40 (packet_layout p) = pkt_sender_id p"
    and "py_slice 40 72 (packet_layout p) = pkt_recipient_id p"
    and "py_slice 72 80 (packet_layout p) = be_bytes 8 (pkt_timestamp_ms p)"
    and "py_slice 80 84 (packet_layout p) = be_bytes 4 (pkt_sequence p)"
    and "py_slice 84 96 (packet_layout p) = pkt_nonce p"
    and "py_slice 96 100 (packet_layout p) = be_bytes 4 (int (length (pkt_payload p)))"
  using assms by (simp_all add: packet_layout_def packet_wf_def py_slice_def)

lemma version_byte: "be_int (be_bytes 1 VERSION) = VERSION"
  by (simp add: VERSION_def be_int_be_bytes del: be_bytes.simps be_int.simps)

lemma packet_layout_ints:
  assumes "packet_wf p"
  shows "be_int (be_bytes 1 (PacketType_value (pkt_ptype p))) = PacketType_value (pkt_ptype p)"
    and "be_int (be_bytes 2 (pkt_flags p)) = pkt_flags p"
    and "be_int (be_bytes 8 (pkt_timestamp_ms p)) = pkt_timestamp_ms p"
    and "be_int (be_bytes 4 (pkt_sequence p)) = pkt_sequence p"
    and "be_int (be_bytes 4 (int (length (pkt_payload p)))) = int (length (pkt_payload p))"
  using assms PacketType_value_range [of "pkt_ptype p"]
  by (simp_all add: packet_wf_def be_int_be_bytes del: be_bytes.simps be_int.simps)

section \<open>Parsing inverts serialisation\<close>

lemma from_bytes_layout:
  assumes wf: "packet_wf p"
  shows "Packet_from_bytes now_ms (packet_layout p @ pkt_payload p @ pkt_signature p @ rest) = Inr p"
proof -
  let ?d = "packet_layout p @ pkt_payload p @ pkt_signature p @ rest"
  have len: "length (packet_layout p) = 100" and sig: "length (pkt_signature p) = 64"
    using wf by (simp_all add: wire_simps packet_wf_def)
  have hdr: "j \<le> 100 \<Longrightarrow> py_slice i j ?d = py_slice i j (packet_layout p)" for i j
    using len by (simp add: slice_append1)
  have pay: "py_slice 100 (100 + length (pkt_payload p)) ?d = pkt_payload p"
    using len by (simp add: slice_append2 slice_append1 slice_all)
  have sg: "py_slice (100 + length (pkt_payload p)) (164 + length (pkt_payload p)) ?d
            = pkt_signature p"
    using len sig by (simp add: slice_append2 slice_append1 slice_all)
  show ?thesis
    using wf len sig pay sg
    by (simp add: Packet_from_bytes_def packet_consts Let_def hdr packet_layout_fields
        packet_layout_ints version_byte Packet_post_init_def packet_wf_def add.commute
        del: be_bytes.simps be_int.simps One_nat_def)
qed

interpretation packet_codec: framed_codec packet_wf Packet_to_bytes "Packet_from_bytes now_ms"
  for now_ms
proof unfold_locales
  show "packet_wf x \<Longrightarrow> \<exists>bs. Packet_to_bytes x = Inr bs" for x
    by (simp add: Packet_to_bytes_wf)
  show "packet_wf x \<Longrightarrow> Packet_to_bytes x = Inr bs \<Longrightarrow> Packet_from_bytes now_ms (bs @ rest) = Inr x"
    for x bs rest
    using from_bytes_layout [of x now_ms rest] by (auto simp: Packet_to_bytes_wf)
qed

section \<open>Serialisation inverts parsing\<close>

text \<open>The record that the parser builds from the slices of its input.\<close>

definition parsed_fields :: "bytes \<Rightarrow> PacketType \<Rightarrow> packet" where
  "parsed_fields data t =
     (let payload_len = nat (be_int (py_slice 96 100 data))
      in \<lparr>pkt_ptype = t, pkt_sender_id = py_slice 8 40 data,
          pkt_payload = py_slice 100 (100 + payload_len) data,
          pkt_recipient_id = py_slice 40 72 data, pkt_flags = be_int (py_slice 6 8 data),
          pkt_sequence = be_int (py_slice 80 84 data), pkt_nonce = py_slice 84 96 data,
          pkt_timestamp_ms = be_int (py_slice 72 80 data),
          pkt_signature = py_slice (100 + payload_len) (164 + payload_len) data\<rparr>)"

lemma from_bytes_Inr:
  "Packet_from_bytes now_ms data = Inr p \<longleftrightarrow>
     164 + nat (be_int (py_slice 96 100 data)) \<le> length data \<and>
     py_slice 0 4 data = MAGIC \<and> be_int (py_slice 4 5 data) = VERSION \<and>
     (\<exists>t. PacketType_of (be_int (py_slice 5 6 data)) = Inr t \<and>
          p = (if be_int (py_slice 72 80 data) = 0
               then (parsed_fields data t)\<lparr>pkt_timestamp_ms := now_ms\<rparr>
               else parsed_fields data t))"
  by (auto simp: Packet_from_bytes_def packet_consts Let_def bindE_eq_Inr Packet_post_init_def
      parsed_fields_def length_slice add.commute split: if_splits)

lemma parsed_fields_wf:
  assumes len: "164 + nat (be_int (py_slice 96 100 data)) \<le> length data"
    and ts: "be_int (py_slice 72 80 data) \<noteq> 0"
  shows "packet_wf (parsed_fields data t)"
proof -
  have r: "j \<le> 100 \<Longrightarrow> i \<le> j \<Longrightarrow>
      0 \<le> be_int (py_slice i j data) \<and> be_int (py_slice i j data) < 256 ^ (j - i)" for i j
    using len by (intro be_int_range) (simp add: length_slice)
  have "0 < be_int (py_slice 72 80 data)"
    using ts by (simp add: order_less_le)
  then show ?thesis
    using len r [of 8 6] r [of 80 72] r [of 84 80] r [of 100 96]
    by (simp add: packet_wf_def parsed_fields_def Let_def length_slice)
qed

lemma layout_parsed_fields:
  assumes len: "164 + nat (be_int (py_slice 96 100 data)) \<le> length data"
    and m: "py_slice 0 4 data = MAGIC" and v: "be_int (py_slice 4 5 data) = VERSION"
    and t: "be_int (py_slice 5 6 data) = PacketType_value t"
  shows "packet_layout (parsed_fields data t) = take 100 data"
proof -
  have b: "j \<le> 100 \<Longrightarrow> i \<le> j \<Longrightarrow> be_bytes (j - i) (be_int (py_slice i j data)) = py_slice i j data"
    for i j
    using len by (intro be_bytes_be_int_len) (simp add: length_slice)
  have n: "int (nat (be_int (py_slice 96 100 data))) = be_int (py_slice 96 100 data)"
    by simp
  have "packet_layout (parsed_fields data t)
      = py_slice 0 4 data @ py_slice 4 5 data @ py_slice 5 6 data @ py_slice 6 8 data
        @ py_slice 8 40 data @ py_slice 40 72 data @ py_slice 72 80 data @ py_slice 80 84 data
        @ py_slice 84 96 data @ py_slice 96 100 data"
    using len b [of 5 4] b [of 6 5] b [of 8 6] b [of 80 72] b [of 84 80] b [of 100 96]
    by (simp add: packet_layout_def parsed_fields_def Let_def m v t length_slice n
        del: be_bytes.simps be_int.simps)
  also have "\<dots> = py_slice 0 100 data"
    by (simp add: slice_join)
  finally show ?thesis by (simp add: slice_take)
qed

lemma reserialise:
  assumes p: "Packet_from_bytes now_ms data = Inr p"
    and ts: "be_int (py_slice 72 80 data) \<noteq> 0"
  shows "packet_wf p" and "Packet_signed_bytes p = Inr (take (100 + length (pkt_payload p)) data)"
    and "Packet_to_bytes p = Inr (take (164 + length (pkt_payload p)) data)"
proof -
  let ?n = "nat (be_int (py_slice 96 100 data))"
  obtain t where len: "164 + ?n \<le> length data" and m: "py_slice 0 4 data = MAGIC"
    and v: "be_int (py_slice 4 5 data) = VERSION"
    and t: "PacketType_of (be_int (py_slice 5 6 data)) = Inr t"
    and pe: "p = parsed_fields data t"
    using p ts by (auto simp: from_bytes_Inr)
  show wf: "packet_wf p"
    unfolding pe using len ts by (rule parsed_fields_wf)
  have lay: "packet_layout p = py_slice 0 100 data"
    unfolding pe slice_take
    by (rule layout_parsed_fields [OF len m v PacketType_of_Inr [OF t]])
  have pay: "pkt_payload p = py_slice 100 (100 + ?n) data"
    and sig: "pkt_signature p = py_slice (100 + ?n) (164 + ?n) data"
    by (simp_all add: pe parsed_fields_def Let_def)
  have lp: "length (pkt_payload p) = ?n"
    using len by (simp add: pay length_slice)
  show "Packet_signed_bytes p = Inr (take (100 + length (pkt_payload p)) data)"
    by (simp add: Packet_signed_bytes_wf [OF wf] lay lp) (simp add: pay slice_join flip: slice_take)
  show "Packet_to_bytes p = Inr (take (164 + length (pkt_payload p)) data)"
    by (simp add: Packet_to_bytes_wf [OF wf] lay lp)
       (simp add: pay sig slice_join flip: slice_take)
qed

text \<open>A zero timestamp field: the parsed packet serialises to the received bytes with the clock in the field.\<close>

lemma layout_stamp:
  "length (pkt_sender_id p) = 32 \<Longrightarrow> length (pkt_recipient_id p) = 32 \<Longrightarrow>
   packet_layout (p\<lparr>pkt_timestamp_ms := n\<rparr>) = take 72 (packet_layout p) @ be_bytes 8 n @ drop 80 (packet_layout p)"
  by (simp add: packet_layout_def)

lemma reserialise_zero:
  assumes p: "Packet_from_bytes now_ms data = Inr p" and z: "be_int (py_slice 72 80 data) = 0"
  shows "Packet_signed_bytes p = bindE (pack_uint 8 now_ms) (\<lambda>stamp.
      Inr (take (100 + length (pkt_payload p)) (take 72 data @ stamp @ drop 80 data)))"
    and "Packet_to_bytes p = bindE (pack_uint 8 now_ms) (\<lambda>stamp.
      Inr (take (164 + length (pkt_payload p)) (take 72 data @ stamp @ drop 80 data)))"
proof -
  let ?n = "nat (be_int (py_slice 96 100 data))"
  obtain t where len: "164 + ?n \<le> length data" and m: "py_slice 0 4 data = MAGIC"
    and v: "be_int (py_slice 4 5 data) = VERSION"
    and t: "PacketType_of (be_int (py_slice 5 6 data)) = Inr t"
    and pe: "p = (parsed_fields data t)\<lparr>pkt_timestamp_ms := now_ms\<rparr>"
    using p z by (auto simp: from_bytes_Inr)
  have r: "j \<le> 100 \<Longrightarrow> i \<le> j \<Longrightarrow>
      0 \<le> be_int (py_slice i j data) \<and> be_int (py_slice i j data) < 256 ^ (j - i)" for i j
    using len by (intro be_int_range) (simp add: length_slice)
  have pay: "pkt_payload p = py_slice 100 (100 + ?n) data"
    and sig: "pkt_signature p = py_slice (100 + ?n) (164 + ?n) data"
    by (simp_all add: pe parsed_fields_def Let_def)
  have lp: "length (pkt_payload p) = ?n"
    using len by (simp add: pay length_slice)
  have lay: "packet_layout p = take 72 data @ be_bytes 8 now_ms @ py_slice 80 100 data"
    using len layout_parsed_fields [OF len m v PacketType_of_Inr [OF t]]
      layout_stamp [of "parsed_fields data t" now_ms]
    by (simp add: pe parsed_fields_def Let_def length_slice) (simp add: py_slice_def drop_take)
  have head: "Packet_header_bytes p = bindE (pack_uint 8 now_ms) (\<lambda>stamp. Inr (packet_layout p))"
    using len r [of 8 6] r [of 84 80] r [of 100 96]
    by (simp add: pe Packet_header_bytes_def packet_layout_def parsed_fields_def Let_def pack_uint_def length_slice
        bindE_def)
  have join: "py_slice 80 100 data @ py_slice 100 (100 + ?n) data = py_slice 80 (100 + ?n) data"
    "py_slice 80 (100 + ?n) data @ py_slice (100 + ?n) (164 + ?n) data = py_slice 80 (164 + ?n) data"
    by (simp_all add: slice_join)
  have cut: "take (100 + ?n) (take 72 data @ be_bytes 8 now_ms @ drop 80 data) =
      take 72 data @ be_bytes 8 now_ms @ py_slice 80 (100 + ?n) data"
    "take (164 + ?n) (take 72 data @ be_bytes 8 now_ms @ drop 80 data) =
      take 72 data @ be_bytes 8 now_ms @ py_slice 80 (164 + ?n) data"
    using len by (simp_all add: py_slice_def min_def)
  have signed: "packet_layout p @ pkt_payload p = take (100 + ?n) (take 72 data @ be_bytes 8 now_ms @ drop 80 data)"
    unfolding lay pay cut by (simp only: append_assoc join)
  have whole: "packet_layout p @ pkt_payload p @ pkt_signature p =
      take (164 + ?n) (take 72 data @ be_bytes 8 now_ms @ drop 80 data)"
    using signed unfolding cut sig by (metis append_assoc join(2))
  show "Packet_signed_bytes p = bindE (pack_uint 8 now_ms) (\<lambda>stamp.
      Inr (take (100 + length (pkt_payload p)) (take 72 data @ stamp @ drop 80 data)))"
    unfolding lp by (simp add: Packet_signed_bytes_def head pack_uint_def signed)
  show "Packet_to_bytes p = bindE (pack_uint 8 now_ms) (\<lambda>stamp.
      Inr (take (164 + length (pkt_payload p)) (take 72 data @ stamp @ drop 80 data)))"
    unfolding lp by (simp add: Packet_to_bytes_def Packet_signed_bytes_def head pack_uint_def whole)
qed

text \<open>The bytes that the parser treats a datagram as: its own, or with the clock in a zero timestamp field.\<close>

definition seen_bytes :: "int \<Rightarrow> bytes \<Rightarrow> bytes" where
  "seen_bytes now_ms data =
     (if be_int (py_slice 72 80 data) = 0 then take 72 data @ be_bytes 8 now_ms @ drop 80 data else data)"

lemma signed_bytes_seen:
  assumes "Packet_from_bytes now_ms data = Inr p" and "Packet_signed_bytes p = Inr bs"
  shows "bs = take (100 + length (pkt_payload p)) (seen_bytes now_ms data)"
  using assms(2) reserialise(2) [OF assms(1)] reserialise_zero(1) [OF assms(1)]
  by (auto simp: seen_bytes_def bindE_eq_Inr pack_uint_def split: if_splits)

lemma slice_patch:
  assumes "80 \<le> length w" and "length z = 8" and "j \<le> 72 \<or> 80 \<le> i"
  shows "py_slice i j (take 72 w @ z @ drop 80 w @ rest) = py_slice i j (w @ rest)"
  using assms(3)
proof
  assume "j \<le> 72"
  then show ?thesis
    using assms(1) slice_append1 [of j "take 72 w" i] by (simp flip: append_assoc) (metis append_take_drop_id append_assoc)
next
  assume i: "80 \<le> i"
  have w: "w @ rest = take 80 w @ drop 80 w @ rest" by simp
  show ?thesis
    using i assms(1,2) slice_append2 [of "take 72 w @ z" i j "drop 80 w @ rest"]
      slice_append2 [of "take 80 w" i j "drop 80 w @ rest"]
    by (subst w) simp
qed

lemma from_bytes_errors:
  "Packet_from_bytes now_ms data = Inl e \<Longrightarrow> e \<in> {ValueError, InvalidMagicError, InvalidVersionError}"
  by (auto simp: Packet_from_bytes_def Let_def bindE_eq_Inl Packet_post_init_def PacketType_of_def
      split: if_splits option.splits)

lemma wire_sequence:
  assumes "packet_wf p" and "Packet_to_bytes p = Inr wire"
  shows "be_int (py_slice SEQUENCE_OFFSET (SEQUENCE_OFFSET + 4) wire) = pkt_sequence p"
  using assms
  by (auto simp: Packet_to_bytes_wf SEQUENCE_OFFSET_def slice_append1 wire_simps
      packet_layout_fields packet_layout_ints simp del: be_bytes.simps be_int.simps)

lemma zero_timestamp:
  assumes p: "Packet_from_bytes now_ms data = Inr p"
    and z: "be_int (py_slice 72 80 data) = 0" and now: "0 < now_ms" "now_ms < 256 ^ 8"
  shows "packet_wf p" and "pkt_timestamp_ms p = now_ms"
    and "py_slice 72 80 (packet_layout p) \<noteq> py_slice 72 80 data"
proof -
  let ?n = "nat (be_int (py_slice 96 100 data))"
  obtain t where len: "164 + ?n \<le> length data"
    and pe: "p = (parsed_fields data t)\<lparr>pkt_timestamp_ms := now_ms\<rparr>"
    using p z by (auto simp: from_bytes_Inr)
  have r: "j \<le> 100 \<Longrightarrow> i \<le> j \<Longrightarrow>
      0 \<le> be_int (py_slice i j data) \<and> be_int (py_slice i j data) < 256 ^ (j - i)" for i j
    using len by (intro be_int_range) (simp add: length_slice)
  show wf: "packet_wf p"
    unfolding pe using len now r [of 8 6] r [of 84 80] r [of 100 96]
    by (simp add: packet_wf_def parsed_fields_def Let_def length_slice)
  show ts: "pkt_timestamp_ms p = now_ms"
    by (simp add: pe)
  have "be_int (py_slice 72 80 (packet_layout p)) = now_ms"
    using packet_layout_fields(7) [OF wf] packet_layout_ints(3) [OF wf] by (simp only: ts)
  then show "py_slice 72 80 (packet_layout p) \<noteq> py_slice 72 80 data"
    using z now by auto
qed

lemma zeroed_timestamp_parsed:
  assumes "packet_wf p" and "Packet_to_bytes p = Inr wire"
  shows "Packet_from_bytes (pkt_timestamp_ms p) (take 72 wire @ replicate 8 0 @ drop 80 wire @ rest) = Inr p \<and>
         take 72 wire @ replicate 8 0 @ drop 80 wire \<noteq> wire"
proof -
  let ?d = "take 72 wire @ replicate 8 0 @ drop 80 wire @ rest"
  obtain t where w: "164 + nat (be_int (py_slice 96 100 (wire @ rest))) \<le> length (wire @ rest)"
      "py_slice 0 4 (wire @ rest) = MAGIC" "be_int (py_slice 4 5 (wire @ rest)) = VERSION"
      "PacketType_of (be_int (py_slice 5 6 (wire @ rest))) = Inr t"
    and p: "p = (if be_int (py_slice 72 80 (wire @ rest)) = 0
                 then (parsed_fields (wire @ rest) t)\<lparr>pkt_timestamp_ms := 0\<rparr> else parsed_fields (wire @ rest) t)"
    using packet_codec.dec_enc_rest [OF assms, of 0 rest] unfolding from_bytes_Inr by blast
  have wire: "80 \<le> length wire" "py_slice 72 80 wire = be_bytes 8 (pkt_timestamp_ms p)"
    using assms length_packet_layout [OF assms(1)] packet_layout_fields(7) [OF assms(1)]
    by (auto simp: Packet_to_bytes_wf slice_append1 simp del: be_bytes.simps)
  note sl = slice_patch [OF wire(1), of "replicate 8 0" _ _ rest]
  have z: "py_slice 72 80 ?d = replicate 8 0" and cut: "py_slice 72 80 (take 72 wire @ replicate 8 0 @ drop 80 wire) = replicate 8 0"
    using wire(1) by (simp_all add: py_slice_def min_def)
  have zero: "be_int (replicate 8 0) = 0" by (simp add: numeral_eq_Suc)
  have pos: "pkt_timestamp_ms p \<noteq> 0" using assms(1) by (simp add: packet_wf_def)
  then have pf: "(parsed_fields ?d t)\<lparr>pkt_timestamp_ms := pkt_timestamp_ms p\<rparr> = p"
    using p by (auto simp: parsed_fields_def Let_def sl split: if_splits)
  have "Packet_from_bytes (pkt_timestamp_ms p) ?d = Inr p"
    unfolding from_bytes_Inr using w wire(1) pf by (simp add: sl z zero)
  moreover have "be_int (be_bytes 8 (pkt_timestamp_ms p)) \<noteq> be_int (replicate 8 0)"
    using packet_layout_ints(3) [OF assms(1)] pos zero by simp
  then have "take 72 wire @ replicate 8 0 @ drop 80 wire \<noteq> wire"
    using wire cut by metis
  ultimately show ?thesis by blast
qed

section \<open>Properties\<close>

definition sample_packet :: packet where
  "sample_packet = \<lparr>pkt_ptype = DATA, pkt_sender_id = replicate 32 1, pkt_payload = [7, 8, 9],
     pkt_recipient_id = replicate 32 2, pkt_flags = 5, pkt_sequence = 42,
     pkt_nonce = replicate 12 3, pkt_timestamp_ms = 1000, pkt_signature = replicate 64 4\<rparr>"

definition sample_wire :: bytes where
  "sample_wire = packet_layout sample_packet @ [7, 8, 9] @ replicate 64 4"

lemma sample_packet_wf: "packet_wf sample_packet"
  by (simp add: packet_wf_def sample_packet_def)

lemma sample_packet_to_bytes: "Packet_to_bytes sample_packet = Inr sample_wire"
  by (simp add: Packet_to_bytes_wf [OF sample_packet_wf] sample_wire_def) (simp add: sample_packet_def)

text \<open>C15: parsing inverts serialisation. A packet whose fields fit their widths serialises, and
  parsing the bytes, also when other bytes follow them, returns the packet.\<close>

theorem packet_roundtrip:
  assumes "packet_wf p" and "Packet_to_bytes p = Inr wire"
  shows "Packet_from_bytes now_ms (wire @ rest) = Inr p"
  using assms by (rule packet_codec.dec_enc_rest)

theorem packet_roundtrip_witness:
  "Packet_from_bytes 0 (sample_wire @ [1, 2]) = Inr sample_packet"
  by (rule packet_roundtrip [OF sample_packet_wf sample_packet_to_bytes])

text \<open>C16: serialising a parsed packet gives back the received bytes. Whenever the parser accepts
  a datagram whose timestamp field is not zero, the packet's signed bytes are exactly the received header
  and payload, and its serialisation is those bytes followed by the received signature. When the field is
  zero, they are the received bytes with the parser's clock reading in the eight bytes of the field, and
  both operations raise \<open>struct.error\<close> when the clock does not fit there. So a signature checked over a parsed
  packet covers the bytes that were on the wire, except for a zero timestamp.\<close>

theorem packet_signed_bytes_are_received_bytes:
  assumes "Packet_from_bytes now_ms data = Inr p"
  shows "(be_int (py_slice 72 80 data) \<noteq> 0 \<longrightarrow>
            Packet_signed_bytes p = Inr (take (100 + length (pkt_payload p)) data) \<and>
            Packet_to_bytes p = Inr (take (164 + length (pkt_payload p)) data)) \<and>
         (be_int (py_slice 72 80 data) = 0 \<and> 0 \<le> now_ms \<and> now_ms < 256 ^ 8 \<longrightarrow>
            Packet_signed_bytes p =
              Inr (take (100 + length (pkt_payload p)) (take 72 data @ be_bytes 8 now_ms @ drop 80 data)) \<and>
            Packet_to_bytes p =
              Inr (take (164 + length (pkt_payload p)) (take 72 data @ be_bytes 8 now_ms @ drop 80 data))) \<and>
         (be_int (py_slice 72 80 data) = 0 \<and> \<not> (0 \<le> now_ms \<and> now_ms < 256 ^ 8) \<longrightarrow>
            Packet_signed_bytes p = Inl StructError \<and> Packet_to_bytes p = Inl StructError)"
  using reserialise(2,3) [OF assms] reserialise_zero [OF assms] by (simp add: pack_uint_def)

theorem packet_signed_bytes_are_received_bytes_witness:
  "Packet_signed_bytes sample_packet = Inr (take 103 sample_wire)"
proof -
  have p: "Packet_from_bytes 0 sample_wire = Inr sample_packet"
    using packet_codec.dec_enc [OF sample_packet_wf sample_packet_to_bytes] .
  have "py_slice 72 80 sample_wire = be_bytes 8 1000"
    using packet_layout_fields(7) [OF sample_packet_wf] length_packet_layout [OF sample_packet_wf]
    by (simp add: sample_wire_def slice_append1 del: be_bytes.simps) (simp add: sample_packet_def)
  then have t: "be_int (py_slice 72 80 sample_wire) \<noteq> 0"
    by (simp add: be_int_be_bytes)
  show ?thesis
    using packet_signed_bytes_are_received_bytes [OF p] t by (simp add: sample_packet_def)
qed

text \<open>A timestamp that was zeroed in transit is put back. When the eight bytes of the timestamp are
  overwritten with zeros and the parser's clock happens to show the timestamp that the sender had signed, the
  parser returns the sender's packet, although the bytes it received are not those that were signed.\<close>

theorem zeroed_timestamp_restored:
  assumes "packet_wf p" and "Packet_to_bytes p = Inr wire"
  shows "Packet_from_bytes (pkt_timestamp_ms p) (take 72 wire @ replicate 8 0 @ drop 80 wire @ rest) = Inr p \<and>
         take 72 wire @ replicate 8 0 @ drop 80 wire \<noteq> wire"
  using zeroed_timestamp_parsed [OF assms] by blast

theorem zeroed_timestamp_restored_witness:
  "Packet_from_bytes 1000 (take 72 sample_wire @ replicate 8 0 @ drop 80 sample_wire) = Inr sample_packet"
  using zeroed_timestamp_restored [OF sample_packet_wf sample_packet_to_bytes, of "[]"]
  by (simp add: sample_packet_def)

text \<open>A zero timestamp is rewritten. A datagram whose timestamp field is zero is accepted by
  the parser, but the parsed packet carries the receiver's clock instead, so its header bytes,
  over which the signature is then checked, are not the received ones.\<close>

theorem packet_zero_timestamp_rewritten:
  assumes "Packet_from_bytes now_ms data = Inr p" and "be_int (py_slice 72 80 data) = 0"
    and "0 < now_ms" and "now_ms < 256 ^ 8"
  shows "pkt_timestamp_ms p = now_ms \<and> (\<exists>h. Packet_header_bytes p = Inr h \<and> h \<noteq> take 100 data)"
proof -
  note z = zero_timestamp [OF assms]
  have "packet_layout p \<noteq> take 100 data"
  proof
    assume "packet_layout p = take 100 data"
    then have "py_slice 72 80 (packet_layout p) = py_slice 72 80 data"
      by (simp add: py_slice_def drop_take)
    with z(3) show False by simp
  qed
  with z(1,2) show ?thesis by (simp add: Packet_header_bytes_wf)
qed

definition zero_stamp_wire :: bytes where
  "zero_stamp_wire = MAGIC @ [1, 3, 0, 0] @ replicate 156 0"

theorem packet_zero_timestamp_rewritten_witness:
  "\<exists>p. Packet_from_bytes 1000 zero_stamp_wire = Inr p \<and> pkt_timestamp_ms p = 1000 \<and>
       (\<exists>h. Packet_header_bytes p = Inr h \<and> h \<noteq> take 100 zero_stamp_wire)"
proof -
  have t: "PacketType_of 3 = Inr DATA"
    by (simp add: PacketType_of_def)
  have z: "be_int (py_slice 72 80 zero_stamp_wire) = 0"
    by code_simp
  have sl: "py_slice 0 4 zero_stamp_wire = MAGIC" "py_slice 4 5 zero_stamp_wire = [1]"
    "py_slice 5 6 zero_stamp_wire = [3]" "py_slice 96 100 zero_stamp_wire = [0, 0, 0, 0]"
    by code_simp+
  have "Packet_from_bytes 1000 zero_stamp_wire
      = Inr ((parsed_fields zero_stamp_wire DATA)\<lparr>pkt_timestamp_ms := 1000\<rparr>)"
    using t z by (simp add: from_bytes_Inr sl VERSION_def) (simp add: zero_stamp_wire_def)
  then show ?thesis
    using packet_zero_timestamp_rewritten [OF _ z, of 1000] by auto
qed

text \<open>What the parser accepts. A datagram is accepted exactly when it holds the fixed header
  and a signature, starts with the magic bytes and version 1, names one of the nine packet
  types, and is at least as long as its payload-length field says.\<close>

theorem packet_from_bytes_accepts:
  "(\<exists>p. Packet_from_bytes now_ms data = Inr p) \<longleftrightarrow>
     164 + nat (be_int (py_slice 96 100 data)) \<le> length data \<and> py_slice 0 4 data = MAGIC \<and>
     be_int (py_slice 4 5 data) = 1 \<and>
     1 \<le> be_int (py_slice 5 6 data) \<and> be_int (py_slice 5 6 data) \<le> 9"
  using PacketType_of_range [of "be_int (py_slice 5 6 data)"]
  by (auto simp: from_bytes_Inr VERSION_def)

end
