(* ===== verification/Crypto.thy ===== *)
theory Crypto
  imports Packet
begin

text \<open>
  \<^verbatim>\<open>ztlnp/crypto.py\<close>: the stateless \<open>CryptoEngine\<close>. The primitives of the
  \<^verbatim>\<open>cryptography\<close> package are a parameter, the record \<open>'k crypto\<close>, where \<open>'k\<close>
  stands for the package's key objects; what the protocol relies on is the predicate
  \<open>crypto_laws\<close>, which states documented behaviour of the package (a signature made with a
  private key verifies, both sides of an X25519 exchange obtain the same secret, decryption
  inverts encryption, output lengths). Fresh keys and nonces are arguments of the operations
  that draw them.
\<close>

section \<open>The primitives of the cryptography package\<close>

record 'k crypto =
  ed_public_key :: "'k \<Rightarrow> 'k" \<comment> \<open>\<^verbatim>\<open>Ed25519PrivateKey.public_key\<close>\<close>
  ed_public_bytes :: "'k \<Rightarrow> bytes" \<comment> \<open>\<^verbatim>\<open>Ed25519PublicKey.public_bytes(Raw, Raw)\<close>\<close>
  ed_from_public_bytes :: "bytes \<Rightarrow> 'k result"
  ed_sign :: "'k \<Rightarrow> bytes \<Rightarrow> bytes"
  ed_verify :: "'k \<Rightarrow> bytes \<Rightarrow> bytes \<Rightarrow> unit result" \<comment> \<open>key, signature, data\<close>
  x_public_key :: "'k \<Rightarrow> 'k"
  x_public_bytes :: "'k \<Rightarrow> bytes"
  x_from_public_bytes :: "bytes \<Rightarrow> 'k result"
  x_exchange :: "'k \<Rightarrow> 'k \<Rightarrow> bytes result"
  hkdf_sha256 :: "nat \<Rightarrow> bytes \<Rightarrow> bytes \<Rightarrow> bytes" \<comment> \<open>length, info, key material\<close>
  hmac_sha512 :: "bytes \<Rightarrow> bytes \<Rightarrow> bytes"
  hmac_verify :: "bytes \<Rightarrow> bytes \<Rightarrow> bytes \<Rightarrow> unit result" \<comment> \<open>key, data, tag\<close>
  aesgcm_encrypt :: "bytes \<Rightarrow> bytes \<Rightarrow> bytes \<Rightarrow> bytes option \<Rightarrow> bytes result"
  aesgcm_decrypt :: "bytes \<Rightarrow> bytes \<Rightarrow> bytes \<Rightarrow> bytes option \<Rightarrow> bytes result"

definition ed_laws :: "'k crypto \<Rightarrow> bool" where
  "ed_laws C \<longleftrightarrow>
     (\<forall>sk. length (ed_public_bytes C (ed_public_key C sk)) = 32) \<and>
     (\<forall>sk. ed_from_public_bytes C (ed_public_bytes C (ed_public_key C sk))
             = Inr (ed_public_key C sk)) \<and>
     (\<forall>sk d. length (ed_sign C sk d) = 64) \<and>
     (\<forall>sk d. ed_verify C (ed_public_key C sk) (ed_sign C sk d) d = Inr ())"

definition x_laws :: "'k crypto \<Rightarrow> bool" where
  "x_laws C \<longleftrightarrow>
     (\<forall>sk. length (x_public_bytes C (x_public_key C sk)) = 32) \<and>
     (\<forall>sk. x_from_public_bytes C (x_public_bytes C (x_public_key C sk)) = Inr (x_public_key C sk)) \<and>
     (\<forall>a b. \<exists>s. x_exchange C a (x_public_key C b) = Inr s \<and> x_exchange C b (x_public_key C a) = Inr s)"

definition mac_laws :: "'k crypto \<Rightarrow> bool" where
  "mac_laws C \<longleftrightarrow>
     (\<forall>n info ikm. length (hkdf_sha256 C n info ikm) = n) \<and>
     (\<forall>k d. length (hmac_sha512 C k d) = 64) \<and>
     (\<forall>k d t. hmac_verify C k d t = (if t = hmac_sha512 C k d then Inr () else Inl InvalidSignature))"

text \<open>AES-GCM: 32-byte keys, 12-byte nonces, at most $2^{31}-1$ bytes of data, a 16-byte tag.\<close>

definition aead_laws :: "'k crypto \<Rightarrow> bool" where
  "aead_laws C \<longleftrightarrow>
     (\<forall>k n p a. length k = 32 \<longrightarrow> length n = 12 \<longrightarrow> int (length p) < 2 ^ 31 \<longrightarrow>
        (\<exists>c. aesgcm_encrypt C k n p a = Inr c \<and> length c = length p + 16 \<and>
             aesgcm_decrypt C k n c a = Inr p))"

definition crypto_laws :: "'k crypto \<Rightarrow> bool" where
  "crypto_laws C \<longleftrightarrow> ed_laws C \<and> x_laws C \<and> mac_laws C \<and> aead_laws C"

section \<open>CryptoEngine\<close>

text \<open>An ASCII byte-string literal \<^verbatim>\<open>b"..."\<close>.\<close>

definition ascii :: "string \<Rightarrow> bytes" where
  "ascii s = map of_char s"

definition export_ed25519_public :: "'k crypto \<Rightarrow> 'k \<Rightarrow> bytes" where
  "export_ed25519_public C public_key = ed_public_bytes C public_key"

text \<open>\<open>fresh\<close> is the key that \<^verbatim>\<open>Ed25519PrivateKey.generate()\<close> returned.\<close>

definition generate_identity_keypair :: "'k crypto \<Rightarrow> 'k \<Rightarrow> 'k \<times> bytes" where
  "generate_identity_keypair C fresh = (fresh, export_ed25519_public C (ed_public_key C fresh))"

definition import_ed25519_public :: "'k crypto \<Rightarrow> bytes \<Rightarrow> 'k result" where
  "import_ed25519_public C raw = ed_from_public_bytes C raw"

definition crypto_sign :: "'k crypto \<Rightarrow> 'k \<Rightarrow> bytes \<Rightarrow> bytes" where
  "crypto_sign C private_key data = ed_sign C private_key data"

text \<open>Only \<open>InvalidSignature\<close> is caught; any other exception of the package escapes.\<close>

definition crypto_verify :: "'k crypto \<Rightarrow> bytes \<Rightarrow> bytes \<Rightarrow> bytes \<Rightarrow> bool result" where
  "crypto_verify C public_key_bytes data signature =
     (case bindE (import_ed25519_public C public_key_bytes) (\<lambda>pub. ed_verify C pub signature data) of
        Inr _ \<Rightarrow> Inr True
      | Inl e \<Rightarrow> (if e = InvalidSignature then Inr False else Inl e))"

definition export_x25519_public :: "'k crypto \<Rightarrow> 'k \<Rightarrow> bytes" where
  "export_x25519_public C public_key = x_public_bytes C public_key"

definition generate_x25519_keypair :: "'k crypto \<Rightarrow> 'k \<Rightarrow> 'k \<times> bytes" where
  "generate_x25519_keypair C fresh = (fresh, export_x25519_public C (x_public_key C fresh))"

definition import_x25519_public :: "'k crypto \<Rightarrow> bytes \<Rightarrow> 'k result" where
  "import_x25519_public C raw = x_from_public_bytes C raw"

definition x25519_exchange :: "'k crypto \<Rightarrow> 'k \<Rightarrow> bytes \<Rightarrow> bytes result" where
  "x25519_exchange C local_private remote_public_bytes =
     bindE (import_x25519_public C remote_public_bytes) (\<lambda>remote_pub.
       x_exchange C local_private remote_pub)"

definition session_key_info :: "bytes \<Rightarrow> bytes \<Rightarrow> bytes" where
  "session_key_info initiator_id responder_id =
     ascii ''ZTLNP-v1-session-key'' @ initiator_id @ responder_id"

definition derive_session_key :: "'k crypto \<Rightarrow> bytes \<Rightarrow> bytes \<Rightarrow> bytes \<Rightarrow> bytes" where
  "derive_session_key C shared_secret initiator_id responder_id =
     hkdf_sha256 C 32 (session_key_info initiator_id responder_id) shared_secret"

definition mac_key_info :: "bytes \<Rightarrow> bytes \<Rightarrow> bytes" where
  "mac_key_info initiator_id responder_id =
     ascii ''ZTLNP-v1-mac-key'' @ initiator_id @ responder_id"

definition derive_mac_key :: "'k crypto \<Rightarrow> bytes \<Rightarrow> bytes \<Rightarrow> bytes \<Rightarrow> bytes" where
  "derive_mac_key C shared_secret initiator_id responder_id =
     hkdf_sha256 C 64 (mac_key_info initiator_id responder_id) shared_secret"

definition compute_mac :: "'k crypto \<Rightarrow> bytes \<Rightarrow> bytes \<Rightarrow> bytes" where
  "compute_mac C mac_key data = hmac_sha512 C mac_key data"

definition verify_mac :: "'k crypto \<Rightarrow> bytes \<Rightarrow> bytes \<Rightarrow> bytes \<Rightarrow> bool result" where
  "verify_mac C mac_key data tag =
     (case hmac_verify C mac_key data tag of
        Inr _ \<Rightarrow> Inr True
      | Inl e \<Rightarrow> (if e = InvalidSignature then Inr False else Inl e))"

text \<open>\<open>urandom\<close> is the source of random bytes.\<close>

definition generate_nonce :: "(nat \<Rightarrow> bytes) \<Rightarrow> bytes" where
  "generate_nonce urandom = urandom 12"

definition crypto_encrypt :: "'k crypto \<Rightarrow> bytes \<Rightarrow> bytes \<Rightarrow> bytes \<Rightarrow> bytes \<Rightarrow> bytes result" where
  "crypto_encrypt C session_key nonce plaintext aad =
     aesgcm_encrypt C session_key nonce plaintext (if aad = [] then None else Some aad)"

definition crypto_decrypt :: "'k crypto \<Rightarrow> bytes \<Rightarrow> bytes \<Rightarrow> bytes \<Rightarrow> bytes \<Rightarrow> bytes result" where
  "crypto_decrypt C session_key nonce ciphertext aad =
     aesgcm_decrypt C session_key nonce ciphertext (if aad = [] then None else Some aad)"

definition sign_packet :: "'k crypto \<Rightarrow> 'k \<Rightarrow> packet \<Rightarrow> bytes result" where
  "sign_packet C private_key p =
     bindE (Packet_signed_bytes p) (\<lambda>b. Inr (crypto_sign C private_key b))"

definition verify_packet :: "'k crypto \<Rightarrow> bytes \<Rightarrow> packet \<Rightarrow> bool result" where
  "verify_packet C sender_ed25519_public_bytes p =
     bindE (Packet_signed_bytes p) (\<lambda>b.
       crypto_verify C sender_ed25519_public_bytes b (pkt_signature p))"

definition mac_packet :: "'k crypto \<Rightarrow> bytes \<Rightarrow> packet \<Rightarrow> bytes result" where
  "mac_packet C mac_key p = bindE (Packet_signed_bytes p) (\<lambda>b. Inr (compute_mac C mac_key b))"

definition verify_packet_mac :: "'k crypto \<Rightarrow> bytes \<Rightarrow> packet \<Rightarrow> bool result" where
  "verify_packet_mac C mac_key p =
     bindE (Packet_signed_bytes p) (\<lambda>b. verify_mac C mac_key b (pkt_signature p))"

lemmas crypto_engine_defs =
  export_ed25519_public_def generate_identity_keypair_def import_ed25519_public_def crypto_sign_def
  export_x25519_public_def generate_x25519_keypair_def import_x25519_public_def
  compute_mac_def

section \<open>Lemmas\<close>

lemma length_ascii [simp, wire_simps]: "length (ascii s) = length s"
  by (simp add: ascii_def)

lemma signed_bytes_signature [simp]:
  "Packet_signed_bytes (p\<lparr>pkt_signature := s\<rparr>) = Packet_signed_bytes p"
  by (simp add: Packet_signed_bytes_def Packet_header_bytes_def)

lemma crypto_verify_sign:
  assumes "ed_laws C"
  shows "crypto_verify C (ed_public_bytes C (ed_public_key C sk)) d (ed_sign C sk d) = Inr True"
  using assms by (simp add: crypto_verify_def import_ed25519_public_def ed_laws_def)

lemma verify_packet_sign:
  assumes "ed_laws C" and "sign_packet C sk p = Inr s"
  shows "verify_packet C (ed_public_bytes C (ed_public_key C sk)) (p\<lparr>pkt_signature := s\<rparr>) = Inr True"
  using assms
  by (auto simp: sign_packet_def verify_packet_def bindE_eq_Inr crypto_sign_def crypto_verify_sign)

lemma verify_mac_iff:
  "mac_laws C \<Longrightarrow> verify_mac C k d t = Inr (t = hmac_sha512 C k d)"
  by (simp add: verify_mac_def mac_laws_def)

lemma verify_packet_mac_tag:
  assumes "mac_laws C" and "mac_packet C k p = Inr t"
  shows "verify_packet_mac C k (p\<lparr>pkt_signature := t\<rparr>) = Inr True"
  using assms
  by (auto simp: mac_packet_def verify_packet_mac_def bindE_eq_Inr compute_mac_def verify_mac_iff)

lemma decrypt_encrypt:
  assumes "aead_laws C" and "length k = 32" and "length n = 12" and "int (length p) < 2 ^ 31"
  obtains c where "crypto_encrypt C k n p a = Inr c" and "length c = length p + 16"
    and "crypto_decrypt C k n c a = Inr p"
  using assms unfolding aead_laws_def crypto_encrypt_def crypto_decrypt_def by blast

lemma x25519_agree:
  assumes "x_laws C"
  obtains s where "x25519_exchange C a (x_public_bytes C (x_public_key C b)) = Inr s"
    and "x25519_exchange C b (x_public_bytes C (x_public_key C a)) = Inr s"
  using assms unfolding x_laws_def x25519_exchange_def import_x25519_public_def
  by (metis bindE_simps(2))

lemma key_info_injective:
  assumes "length a = 32" and "length b = 32" and "length a' = 32" and "length b' = 32"
  shows "session_key_info a b = session_key_info a' b' \<longleftrightarrow> a = a' \<and> b = b'"
    and "mac_key_info a b = mac_key_info a' b' \<longleftrightarrow> a = a' \<and> b = b'"
    and "session_key_info a b \<noteq> mac_key_info a' b'"
  using assms by (auto simp: session_key_info_def mac_key_info_def ascii_def)

end
