(* ===== verification/Trust.thy ===== *)
theory Trust
  imports Crypto
begin

text \<open>
  \<^verbatim>\<open>ztlnp/trust.py\<close>: trust levels, trust records, the trust store with all its
  operations, fingerprints, QR payloads and endorsements. Records live in a dictionary keyed by
  device identity; a method that mutates a record it looked up is modelled as an update of the
  dictionary entry. Timestamps (\<open>added_at\<close>) are real numbers of seconds.
\<close>

section \<open>Strings\<close>

definition hex_digits :: string where "hex_digits = ''0123456789abcdef''"

definition hex_byte :: "byte \<Rightarrow> string" where
  "hex_byte b = [hex_digits ! (unat b div 16), hex_digits ! (unat b mod 16)]"

text \<open>\<^verbatim>\<open>bytes.hex()\<close> and \<^verbatim>\<open>hexdigest()\<close>.\<close>

definition to_hex :: "bytes \<Rightarrow> string" where
  "to_hex bs = concat (map hex_byte bs)"

text \<open>\<^verbatim>\<open>str.upper()\<close> on ASCII characters.\<close>

definition upper_char :: "char \<Rightarrow> char" where
  "upper_char c = (let n = of_char c :: nat in if 97 \<le> n \<and> n \<le> 122 then char_of (n - 32) else c)"

text \<open>The value of a hexadecimal digit of either case.\<close>

definition hex_value :: "char \<Rightarrow> nat option" where
  "hex_value c =
     (let n = of_char c :: nat
      in if 48 \<le> n \<and> n \<le> 57 then Some (n - 48)
         else if 97 \<le> n \<and> n \<le> 102 then Some (n - 87)
         else if 65 \<le> n \<and> n \<le> 70 then Some (n - 55)
         else None)"

definition is_space :: "char \<Rightarrow> bool" where
  "is_space c = (let n = of_char c :: nat in n = 32 \<or> (9 \<le> n \<and> n \<le> 13))"

text \<open>
  \<^verbatim>\<open>bytes.fromhex\<close>: ASCII white space is skipped between bytes, and anything else
  that is not a pair of digits raises \<open>ValueError\<close>.
\<close>

fun from_hex :: "string \<Rightarrow> bytes result" where
  "from_hex [] = Inr []"
| "from_hex [c] = (if is_space c then Inr [] else Inl ValueError)"
| "from_hex (c # d # cs) =
     (if is_space c then from_hex (d # cs)
      else case hex_value c of None \<Rightarrow> Inl ValueError
           | Some h \<Rightarrow> (case hex_value d of None \<Rightarrow> Inl ValueError
                       | Some l \<Rightarrow> bindE (from_hex cs) (\<lambda>bs. Inr (of_nat (16 * h + l) # bs))))"

text \<open>\<^verbatim>\<open>s.split(sep)\<close> for a one-character separator, and \<^verbatim>\<open>sep.join\<close>.\<close>

fun split_on :: "char \<Rightarrow> string \<Rightarrow> string list" where
  "split_on sep [] = [[]]"
| "split_on sep (c # cs) =
     (if c = sep then [] # split_on sep cs
      else case split_on sep cs of [] \<Rightarrow> [[c]] | p # ps \<Rightarrow> (c # p) # ps)"

fun join_with :: "char \<Rightarrow> string list \<Rightarrow> string" where
  "join_with sep [] = []"
| "join_with sep [p] = p"
| "join_with sep (p # ps) = p @ [sep] @ join_with sep ps"

section \<open>Trust levels and records\<close>

definition ENDORSEMENT_BODY_SIZE :: nat where "ENDORSEMENT_BODY_SIZE = 96"

definition ENDORSEMENT_TOTAL_SIZE :: nat where "ENDORSEMENT_TOTAL_SIZE = 160"

datatype TrustLevel = UNKNOWN | TOFU | VERIFIED | ENDORSED

fun TrustLevel_value :: "TrustLevel \<Rightarrow> int" where
  "TrustLevel_value UNKNOWN = 0"
| "TrustLevel_value TOFU = 1"
| "TrustLevel_value VERIFIED = 2"
| "TrustLevel_value ENDORSED = 3"

text \<open>An \<^verbatim>\<open>IntEnum\<close> compares by value.\<close>

instantiation TrustLevel :: linorder
begin

definition less_eq_TrustLevel :: "TrustLevel \<Rightarrow> TrustLevel \<Rightarrow> bool" where
  "less_eq_TrustLevel a b \<longleftrightarrow> TrustLevel_value a \<le> TrustLevel_value b"

definition less_TrustLevel :: "TrustLevel \<Rightarrow> TrustLevel \<Rightarrow> bool" where
  "less_TrustLevel a b \<longleftrightarrow> TrustLevel_value a < TrustLevel_value b"

instance
proof
  fix a b :: TrustLevel
  show "a \<le> b \<Longrightarrow> b \<le> a \<Longrightarrow> a = b"
    by (cases a; cases b) (simp_all add: less_eq_TrustLevel_def)
qed (auto simp: less_eq_TrustLevel_def less_TrustLevel_def)

end

record trust_record =
  tr_device_id :: bytes
  tr_ed25519_public :: bytes
  tr_trust_level :: TrustLevel
  tr_endorsers :: "bytes list"
  tr_endorsement_depth :: int
  tr_added_at :: real

text \<open>The constructor with its defaults and the checks of \<^verbatim>\<open>__post_init__\<close>.\<close>

definition TrustRecord_new :: "real \<Rightarrow> bytes \<Rightarrow> bytes \<Rightarrow> TrustLevel \<Rightarrow> trust_record result" where
  "TrustRecord_new now device_id ed25519_public trust_level =
     (if length device_id \<noteq> 32 then Inl ValueError
      else if length ed25519_public \<noteq> 32 then Inl ValueError
      else if device_id \<noteq> sha256 ed25519_public then Inl TrustError
      else Inr \<lparr>tr_device_id = device_id, tr_ed25519_public = ed25519_public,
                tr_trust_level = trust_level, tr_endorsers = [], tr_endorsement_depth = 0,
                tr_added_at = now\<rparr>)"

record trust_store =
  ts_allow_tofu :: bool
  ts_min_trust :: TrustLevel
  ts_max_endorsement_depth :: int
  ts_records :: "(bytes, trust_record) dict"
  ts_blacklist :: "bytes set"

definition TrustStore_new :: "bool \<Rightarrow> TrustLevel \<Rightarrow> int \<Rightarrow> trust_store" where
  "TrustStore_new allow_tofu min_trust max_endorsement_depth =
     \<lparr>ts_allow_tofu = allow_tofu, ts_min_trust = min_trust,
      ts_max_endorsement_depth = max_endorsement_depth, ts_records = [], ts_blacklist = {}\<rparr>"

section \<open>Operations of the trust store\<close>

definition TrustStore_add ::
  "real \<Rightarrow> bytes \<Rightarrow> TrustLevel \<Rightarrow> trust_store \<Rightarrow> trust_record result \<times> trust_store" where
  "TrustStore_add now ed25519_public trust_level st =
     (let device_id = sha256 ed25519_public
      in case dict_get (ts_records st) device_id of
           Some existing \<Rightarrow>
             (let existing' = (if trust_level > tr_trust_level existing
                               then existing\<lparr>tr_trust_level := trust_level\<rparr> else existing)
              in (Inr existing',
                  st\<lparr>ts_records := dict_set device_id existing' (ts_records st)\<rparr>))
         | None \<Rightarrow>
             (case TrustRecord_new now device_id ed25519_public trust_level of
                Inl e \<Rightarrow> (Inl e, st)
              | Inr r \<Rightarrow> (Inr r, st\<lparr>ts_records := dict_set device_id r (ts_records st)\<rparr>)))"

definition TrustStore_get :: "trust_store \<Rightarrow> bytes \<Rightarrow> trust_record option" where
  "TrustStore_get st device_id = dict_get (ts_records st) device_id"

definition TrustStore_is_trusted :: "trust_store \<Rightarrow> bytes \<Rightarrow> bool" where
  "TrustStore_is_trusted st device_id =
     (if device_id \<in> ts_blacklist st then False
      else case dict_get (ts_records st) device_id of
             None \<Rightarrow> False
           | Some r \<Rightarrow> ts_min_trust st \<le> tr_trust_level r)"

definition TrustStore_distrust :: "bytes \<Rightarrow> trust_store \<Rightarrow> trust_store" where
  "TrustStore_distrust device_id st = st\<lparr>ts_blacklist := insert device_id (ts_blacklist st)\<rparr>"

definition TrustStore_is_blacklisted :: "trust_store \<Rightarrow> bytes \<Rightarrow> bool" where
  "TrustStore_is_blacklisted st device_id \<longleftrightarrow> device_id \<in> ts_blacklist st"

definition TrustStore_remove_blacklist :: "bytes \<Rightarrow> trust_store \<Rightarrow> trust_store" where
  "TrustStore_remove_blacklist device_id st = st\<lparr>ts_blacklist := ts_blacklist st - {device_id}\<rparr>"

definition TrustStore_get_public_key :: "trust_store \<Rightarrow> bytes \<Rightarrow> bytes result" where
  "TrustStore_get_public_key st device_id =
     (case dict_get (ts_records st) device_id of
        None \<Rightarrow> Inl TrustError | Some r \<Rightarrow> Inr (tr_ed25519_public r))"

definition TrustStore_process_hello ::
  "real \<Rightarrow> bytes \<Rightarrow> bytes \<Rightarrow> trust_store \<Rightarrow> trust_record result \<times> trust_store" where
  "TrustStore_process_hello now sender_device_id sender_ed25519_pub st =
     (case dict_get (ts_records st) sender_device_id of
        Some r \<Rightarrow> (if tr_ed25519_public r \<noteq> sender_ed25519_pub then (Inl TrustError, st)
                   else (Inr r, st))
      | None \<Rightarrow> (if \<not> ts_allow_tofu st then (Inl TrustError, st)
                 else TrustStore_add now sender_ed25519_pub TOFU st))"

definition fingerprint_of :: "bytes \<Rightarrow> string" where
  "fingerprint_of ed25519_public =
     (let digest = map upper_char (to_hex (sha256 ed25519_public))
      in join_with CHR '':'' (map (\<lambda>i. py_slice (4 * i) (4 * i + 4) digest) [0..<16]))"

definition TrustStore_verify_fingerprint ::
  "bytes \<Rightarrow> string \<Rightarrow> trust_store \<Rightarrow> bool \<times> trust_store" where
  "TrustStore_verify_fingerprint device_id fingerprint st =
     (case dict_get (ts_records st) device_id of
        None \<Rightarrow> (False, st)
      | Some r \<Rightarrow>
          (if fingerprint_of (tr_ed25519_public r) = fingerprint
           then (True, st\<lparr>ts_records :=
                   dict_set device_id (r\<lparr>tr_trust_level := max (tr_trust_level r) VERIFIED\<rparr>)
                     (ts_records st)\<rparr>)
           else (False, st)))"

text \<open>
  The record that \<open>add\<close> returns is the object in the dictionary, so appending the endorser and
  setting the depth update the entry of the target.
\<close>

definition TrustStore_add_endorsement ::
  "'k crypto \<Rightarrow> real \<Rightarrow> bytes \<Rightarrow> bytes \<Rightarrow> trust_store \<Rightarrow> trust_record result \<times> trust_store" where
  "TrustStore_add_endorsement C now endorsement_bytes endorser_device_id st =
     (if length endorsement_bytes \<noteq> ENDORSEMENT_TOTAL_SIZE then (Inl TrustError, st)
      else case dict_get (ts_records st) endorser_device_id of
        None \<Rightarrow> (Inl TrustError, st)
      | Some endorser_record \<Rightarrow>
         (if tr_trust_level endorser_record < VERIFIED then (Inl TrustError, st)
          else
            let new_depth = tr_endorsement_depth endorser_record + 1 in
            if new_depth > ts_max_endorsement_depth st then (Inl TrustPoisoningError, st)
            else
              let body = py_slice 0 ENDORSEMENT_BODY_SIZE endorsement_bytes;
                  sig = drop ENDORSEMENT_BODY_SIZE endorsement_bytes in
              case crypto_verify C (tr_ed25519_public endorser_record) body sig of
                Inl e \<Rightarrow> (Inl e, st)
              | Inr False \<Rightarrow> (Inl TrustError, st)
              | Inr True \<Rightarrow>
                 (let blob_endorser_id = py_slice 0 32 body;
                      target_ed25519_pub = py_slice 64 96 body in
                  if blob_endorser_id \<noteq> endorser_device_id then (Inl TrustError, st)
                  else case TrustStore_add now target_ed25519_pub ENDORSED st of
                    (Inl e, st') \<Rightarrow> (Inl e, st')
                  | (Inr r, st') \<Rightarrow>
                     (let r' = r\<lparr>tr_endorsers :=
                                   (if endorser_device_id \<notin> set (tr_endorsers r)
                                    then tr_endorsers r @ [endorser_device_id] else tr_endorsers r),
                                 tr_endorsement_depth := new_depth\<rparr>
                      in (Inr r', st'\<lparr>ts_records :=
                            dict_set (sha256 target_ed25519_pub) r' (ts_records st')\<rparr>)))))"

definition TrustStore_all_records :: "trust_store \<Rightarrow> trust_record list" where
  "TrustStore_all_records st = map snd (ts_records st)"

section \<open>QR payloads and endorsement blobs\<close>

definition encode_qr_payload :: "bytes \<Rightarrow> bytes \<Rightarrow> string" where
  "encode_qr_payload device_id ed25519_public =
     ''ZTLNP:1:'' @ to_hex device_id @ '':'' @ to_hex ed25519_public @ '':''
       @ to_hex (sha256 ed25519_public)"

definition parse_qr_payload :: "string \<Rightarrow> (bytes \<times> bytes) result" where
  "parse_qr_payload payload =
     (let parts = split_on CHR '':'' payload in
      if length parts \<noteq> 5 \<or> parts ! 0 \<noteq> ''ZTLNP'' \<or> parts ! 1 \<noteq> ''1'' then Inl TrustError
      else case (from_hex (parts ! 2), from_hex (parts ! 3)) of
        (Inr device_id, Inr ed25519_public) \<Rightarrow>
          (if length device_id \<noteq> 32 \<or> length ed25519_public \<noteq> 32 then Inl TrustError
           else if parts ! 4 \<noteq> to_hex (sha256 ed25519_public) then Inl TrustError
           else if device_id \<noteq> sha256 ed25519_public then Inl TrustError
           else Inr (device_id, ed25519_public))
      | _ \<Rightarrow> Inl TrustError)"

definition create_endorsement :: "'k crypto \<Rightarrow> 'k \<Rightarrow> bytes \<Rightarrow> bytes \<Rightarrow> bytes \<Rightarrow> bytes" where
  "create_endorsement C endorser_private_key endorser_device_id target_device_id target_ed25519_public =
     (let body = endorser_device_id @ target_device_id @ target_ed25519_public
      in body @ crypto_sign C endorser_private_key body)"

end
