(* ===== verification/Sha256_Vectors.thy ===== *)
theory Sha256_Vectors
  imports Sha256
begin

text \<open>
  The digests of two 32-byte keys, evaluated by the kernel. They show that the definition of
  \<open>sha256\<close> computes the published function on one-block messages, and give the witnesses of the
  properties two concrete identities that are different.
\<close>

definition key_a :: bytes where
  "key_a = replicate 32 0xA1"

lemma sha_block_a:
  "sha_words (sha_pad key_a) =
     [0xa1a1a1a1, 0xa1a1a1a1, 0xa1a1a1a1, 0xa1a1a1a1, 0xa1a1a1a1, 0xa1a1a1a1, 0xa1a1a1a1, 0xa1a1a1a1, 0x80000000, 0x00000000, 0x00000000, 0x00000000, 0x00000000, 0x00000000, 0x00000000, 0x00000100]"
  by code_simp

lemma sha_sched_a1:
  "sha_schedule 16
     [0xa1a1a1a1, 0xa1a1a1a1, 0xa1a1a1a1, 0xa1a1a1a1, 0xa1a1a1a1, 0xa1a1a1a1, 0xa1a1a1a1, 0xa1a1a1a1, 0x80000000, 0x00000000, 0x00000000, 0x00000000, 0x00000000, 0x00000000, 0x00000000, 0x00000100] =
     [0xe0c0c0c0, 0xe160c0c0, 0x59011d08, 0x5900f56c, 0x8df428a7, 0x44cea85d, 0x72250c0e, 0x1496bbb5, 0x88fb3ed5, 0xe3aa2a7f, 0x51934119, 0xde3d0fd1, 0x0d8a8e88, 0x984a67a8, 0x2b6d21ae, 0xb5ec2f33]"
  by code_simp

lemma sha_sched_a2:
  "sha_schedule 16
     [0xe0c0c0c0, 0xe160c0c0, 0x59011d08, 0x5900f56c, 0x8df428a7, 0x44cea85d, 0x72250c0e, 0x1496bbb5, 0x88fb3ed5, 0xe3aa2a7f, 0x51934119, 0xde3d0fd1, 0x0d8a8e88, 0x984a67a8, 0x2b6d21ae, 0xb5ec2f33] =
     [0xa731d893, 0x221710f4, 0xfd79a0e8, 0x258422b9, 0x229be932, 0x56e21895, 0x781fee49, 0x80d2410c, 0x1f33ceb1, 0x3282cb0f, 0x113070c8, 0xefcc2054, 0x76b9ebe7, 0xb5d663b5, 0xeeed0f6e, 0x182dc91c]"
  by code_simp

lemma sha_sched_a3:
  "sha_schedule 16
     [0xa731d893, 0x221710f4, 0xfd79a0e8, 0x258422b9, 0x229be932, 0x56e21895, 0x781fee49, 0x80d2410c, 0x1f33ceb1, 0x3282cb0f, 0x113070c8, 0xefcc2054, 0x76b9ebe7, 0xb5d663b5, 0xeeed0f6e, 0x182dc91c] =
     [0x28517a44, 0x3762fe1f, 0xfdfc0c2b, 0x575a76d4, 0x06771dc4, 0x21d63bf0, 0x9701a22e, 0x16267636, 0xe704b62f, 0xb48d8238, 0xf2a9dda4, 0x227d40d4, 0x53268311, 0xd92bd04c, 0xe084b4b5, 0x6517c437]"
  by code_simp

lemma sha_rounds_a1:
  "foldl sha_round (0x6a09e667, 0xbb67ae85, 0x3c6ef372, 0xa54ff53a, 0x510e527f, 0x9b05688c, 0x1f83d9ab, 0x5be0cd19)
     [(0x428a2f98, 0xa1a1a1a1), (0x71374491, 0xa1a1a1a1), (0xb5c0fbcf, 0xa1a1a1a1), (0xe9b5dba5, 0xa1a1a1a1), (0x3956c25b, 0xa1a1a1a1), (0x59f111f1, 0xa1a1a1a1), (0x923f82a4, 0xa1a1a1a1), (0xab1c5ed5, 0xa1a1a1a1)] =
     (0x2958809d, 0x262b9e93, 0x2cd8f209, 0xdfcffaa3, 0x89eb1270, 0x00f2403a, 0xbc9daf6a, 0x7d152588)"
  by code_simp

lemma sha_rounds_a2:
  "foldl sha_round (0x2958809d, 0x262b9e93, 0x2cd8f209, 0xdfcffaa3, 0x89eb1270, 0x00f2403a, 0xbc9daf6a, 0x7d152588)
     [(0xd807aa98, 0x80000000), (0x12835b01, 0x00000000), (0x243185be, 0x00000000), (0x550c7dc3, 0x00000000), (0x72be5d74, 0x00000000), (0x80deb1fe, 0x00000000), (0x9bdc06a7, 0x00000000), (0xc19bf174, 0x00000100)] =
     (0xd4e0e5e5, 0x7a286f51, 0x9e64e37d, 0x3702222c, 0x6f5adf4e, 0x6bf9513a, 0xe85ae4f7, 0x50cb7c98)"
  by code_simp

lemma sha_rounds_a3:
  "foldl sha_round (0xd4e0e5e5, 0x7a286f51, 0x9e64e37d, 0x3702222c, 0x6f5adf4e, 0x6bf9513a, 0xe85ae4f7, 0x50cb7c98)
     [(0xe49b69c1, 0xe0c0c0c0), (0xefbe4786, 0xe160c0c0), (0x0fc19dc6, 0x59011d08), (0x240ca1cc, 0x5900f56c), (0x2de92c6f, 0x8df428a7), (0x4a7484aa, 0x44cea85d), (0x5cb0a9dc, 0x72250c0e), (0x76f988da, 0x1496bbb5)] =
     (0x36fe0b3a, 0x02daaf7e, 0x6f9a85bb, 0x8b56a3e1, 0xc1e6a535, 0x27e91630, 0x60854f16, 0xd1ac14c0)"
  by code_simp

lemma sha_rounds_a4:
  "foldl sha_round (0x36fe0b3a, 0x02daaf7e, 0x6f9a85bb, 0x8b56a3e1, 0xc1e6a535, 0x27e91630, 0x60854f16, 0xd1ac14c0)
     [(0x983e5152, 0x88fb3ed5), (0xa831c66d, 0xe3aa2a7f), (0xb00327c8, 0x51934119), (0xbf597fc7, 0xde3d0fd1), (0xc6e00bf3, 0x0d8a8e88), (0xd5a79147, 0x984a67a8), (0x06ca6351, 0x2b6d21ae), (0x14292967, 0xb5ec2f33)] =
     (0x97c361c0, 0x401e100d, 0xdf2b255f, 0x6be72626, 0xcc95dc28, 0x6d05355a, 0xcbf333d4, 0x98f66bd4)"
  by code_simp

lemma sha_rounds_a5:
  "foldl sha_round (0x97c361c0, 0x401e100d, 0xdf2b255f, 0x6be72626, 0xcc95dc28, 0x6d05355a, 0xcbf333d4, 0x98f66bd4)
     [(0x27b70a85, 0xa731d893), (0x2e1b2138, 0x221710f4), (0x4d2c6dfc, 0xfd79a0e8), (0x53380d13, 0x258422b9), (0x650a7354, 0x229be932), (0x766a0abb, 0x56e21895), (0x81c2c92e, 0x781fee49), (0x92722c85, 0x80d2410c)] =
     (0x5560b776, 0xb6027560, 0xee555dd0, 0x26ac59f3, 0xee6da6c0, 0xe51df31c, 0x43f60b62, 0x964f0717)"
  by code_simp

lemma sha_rounds_a6:
  "foldl sha_round (0x5560b776, 0xb6027560, 0xee555dd0, 0x26ac59f3, 0xee6da6c0, 0xe51df31c, 0x43f60b62, 0x964f0717)
     [(0xa2bfe8a1, 0x1f33ceb1), (0xa81a664b, 0x3282cb0f), (0xc24b8b70, 0x113070c8), (0xc76c51a3, 0xefcc2054), (0xd192e819, 0x76b9ebe7), (0xd6990624, 0xb5d663b5), (0xf40e3585, 0xeeed0f6e), (0x106aa070, 0x182dc91c)] =
     (0x61dc0c39, 0x5403d569, 0xe775ee34, 0x8ed876b7, 0xb82a979c, 0x78d5e18c, 0xb85914bb, 0xb76ebba2)"
  by code_simp

lemma sha_rounds_a7:
  "foldl sha_round (0x61dc0c39, 0x5403d569, 0xe775ee34, 0x8ed876b7, 0xb82a979c, 0x78d5e18c, 0xb85914bb, 0xb76ebba2)
     [(0x19a4c116, 0x28517a44), (0x1e376c08, 0x3762fe1f), (0x2748774c, 0xfdfc0c2b), (0x34b0bcb5, 0x575a76d4), (0x391c0cb3, 0x06771dc4), (0x4ed8aa4a, 0x21d63bf0), (0x5b9cca4f, 0x9701a22e), (0x682e6ff3, 0x16267636)] =
     (0x4ed12f9a, 0xab5dbca2, 0xba6aaa0b, 0x6dd2f00d, 0x43228e30, 0x0b072b4d, 0xb2362770, 0x3087d412)"
  by code_simp

lemma sha_rounds_a8:
  "foldl sha_round (0x4ed12f9a, 0xab5dbca2, 0xba6aaa0b, 0x6dd2f00d, 0x43228e30, 0x0b072b4d, 0xb2362770, 0x3087d412)
     [(0x748f82ee, 0xe704b62f), (0x78a5636f, 0xb48d8238), (0x84c87814, 0xf2a9dda4), (0x8cc70208, 0x227d40d4), (0x90befffa, 0x53268311), (0xa4506ceb, 0xd92bd04c), (0xbef9a3f7, 0xe084b4b5), (0xc67178f2, 0x6517c437)] =
     (0xe8f47a2d, 0xb8d44eca, 0x5f753eab, 0xf35dd2a8, 0xeb0c63a3, 0x15b51a82, 0x07994536, 0x701cab37)"
  by code_simp

lemma sha_pairs_a:
  "zip sha_K ([0xa1a1a1a1, 0xa1a1a1a1, 0xa1a1a1a1, 0xa1a1a1a1, 0xa1a1a1a1, 0xa1a1a1a1, 0xa1a1a1a1, 0xa1a1a1a1, 0x80000000, 0x00000000, 0x00000000, 0x00000000, 0x00000000, 0x00000000, 0x00000000, 0x00000100] @
     [0xe0c0c0c0, 0xe160c0c0, 0x59011d08, 0x5900f56c, 0x8df428a7, 0x44cea85d, 0x72250c0e, 0x1496bbb5, 0x88fb3ed5, 0xe3aa2a7f, 0x51934119, 0xde3d0fd1, 0x0d8a8e88, 0x984a67a8, 0x2b6d21ae, 0xb5ec2f33] @
     [0xa731d893, 0x221710f4, 0xfd79a0e8, 0x258422b9, 0x229be932, 0x56e21895, 0x781fee49, 0x80d2410c, 0x1f33ceb1, 0x3282cb0f, 0x113070c8, 0xefcc2054, 0x76b9ebe7, 0xb5d663b5, 0xeeed0f6e, 0x182dc91c] @
     [0x28517a44, 0x3762fe1f, 0xfdfc0c2b, 0x575a76d4, 0x06771dc4, 0x21d63bf0, 0x9701a22e, 0x16267636, 0xe704b62f, 0xb48d8238, 0xf2a9dda4, 0x227d40d4, 0x53268311, 0xd92bd04c, 0xe084b4b5, 0x6517c437]) =
     [(0x428a2f98, 0xa1a1a1a1), (0x71374491, 0xa1a1a1a1), (0xb5c0fbcf, 0xa1a1a1a1), (0xe9b5dba5, 0xa1a1a1a1), (0x3956c25b, 0xa1a1a1a1), (0x59f111f1, 0xa1a1a1a1), (0x923f82a4, 0xa1a1a1a1), (0xab1c5ed5, 0xa1a1a1a1)] @
     [(0xd807aa98, 0x80000000), (0x12835b01, 0x00000000), (0x243185be, 0x00000000), (0x550c7dc3, 0x00000000), (0x72be5d74, 0x00000000), (0x80deb1fe, 0x00000000), (0x9bdc06a7, 0x00000000), (0xc19bf174, 0x00000100)] @
     [(0xe49b69c1, 0xe0c0c0c0), (0xefbe4786, 0xe160c0c0), (0x0fc19dc6, 0x59011d08), (0x240ca1cc, 0x5900f56c), (0x2de92c6f, 0x8df428a7), (0x4a7484aa, 0x44cea85d), (0x5cb0a9dc, 0x72250c0e), (0x76f988da, 0x1496bbb5)] @
     [(0x983e5152, 0x88fb3ed5), (0xa831c66d, 0xe3aa2a7f), (0xb00327c8, 0x51934119), (0xbf597fc7, 0xde3d0fd1), (0xc6e00bf3, 0x0d8a8e88), (0xd5a79147, 0x984a67a8), (0x06ca6351, 0x2b6d21ae), (0x14292967, 0xb5ec2f33)] @
     [(0x27b70a85, 0xa731d893), (0x2e1b2138, 0x221710f4), (0x4d2c6dfc, 0xfd79a0e8), (0x53380d13, 0x258422b9), (0x650a7354, 0x229be932), (0x766a0abb, 0x56e21895), (0x81c2c92e, 0x781fee49), (0x92722c85, 0x80d2410c)] @
     [(0xa2bfe8a1, 0x1f33ceb1), (0xa81a664b, 0x3282cb0f), (0xc24b8b70, 0x113070c8), (0xc76c51a3, 0xefcc2054), (0xd192e819, 0x76b9ebe7), (0xd6990624, 0xb5d663b5), (0xf40e3585, 0xeeed0f6e), (0x106aa070, 0x182dc91c)] @
     [(0x19a4c116, 0x28517a44), (0x1e376c08, 0x3762fe1f), (0x2748774c, 0xfdfc0c2b), (0x34b0bcb5, 0x575a76d4), (0x391c0cb3, 0x06771dc4), (0x4ed8aa4a, 0x21d63bf0), (0x5b9cca4f, 0x9701a22e), (0x682e6ff3, 0x16267636)] @
     [(0x748f82ee, 0xe704b62f), (0x78a5636f, 0xb48d8238), (0x84c87814, 0xf2a9dda4), (0x8cc70208, 0x227d40d4), (0x90befffa, 0x53268311), (0xa4506ceb, 0xd92bd04c), (0xbef9a3f7, 0xe084b4b5), (0xc67178f2, 0x6517c437)]"
  by (simp add: sha_K_def)

lemma sha_all_rounds_a:
  "foldl sha_round sha_H0 (
     [(0x428a2f98, 0xa1a1a1a1), (0x71374491, 0xa1a1a1a1), (0xb5c0fbcf, 0xa1a1a1a1), (0xe9b5dba5, 0xa1a1a1a1), (0x3956c25b, 0xa1a1a1a1), (0x59f111f1, 0xa1a1a1a1), (0x923f82a4, 0xa1a1a1a1), (0xab1c5ed5, 0xa1a1a1a1)] @
     [(0xd807aa98, 0x80000000), (0x12835b01, 0x00000000), (0x243185be, 0x00000000), (0x550c7dc3, 0x00000000), (0x72be5d74, 0x00000000), (0x80deb1fe, 0x00000000), (0x9bdc06a7, 0x00000000), (0xc19bf174, 0x00000100)] @
     [(0xe49b69c1, 0xe0c0c0c0), (0xefbe4786, 0xe160c0c0), (0x0fc19dc6, 0x59011d08), (0x240ca1cc, 0x5900f56c), (0x2de92c6f, 0x8df428a7), (0x4a7484aa, 0x44cea85d), (0x5cb0a9dc, 0x72250c0e), (0x76f988da, 0x1496bbb5)] @
     [(0x983e5152, 0x88fb3ed5), (0xa831c66d, 0xe3aa2a7f), (0xb00327c8, 0x51934119), (0xbf597fc7, 0xde3d0fd1), (0xc6e00bf3, 0x0d8a8e88), (0xd5a79147, 0x984a67a8), (0x06ca6351, 0x2b6d21ae), (0x14292967, 0xb5ec2f33)] @
     [(0x27b70a85, 0xa731d893), (0x2e1b2138, 0x221710f4), (0x4d2c6dfc, 0xfd79a0e8), (0x53380d13, 0x258422b9), (0x650a7354, 0x229be932), (0x766a0abb, 0x56e21895), (0x81c2c92e, 0x781fee49), (0x92722c85, 0x80d2410c)] @
     [(0xa2bfe8a1, 0x1f33ceb1), (0xa81a664b, 0x3282cb0f), (0xc24b8b70, 0x113070c8), (0xc76c51a3, 0xefcc2054), (0xd192e819, 0x76b9ebe7), (0xd6990624, 0xb5d663b5), (0xf40e3585, 0xeeed0f6e), (0x106aa070, 0x182dc91c)] @
     [(0x19a4c116, 0x28517a44), (0x1e376c08, 0x3762fe1f), (0x2748774c, 0xfdfc0c2b), (0x34b0bcb5, 0x575a76d4), (0x391c0cb3, 0x06771dc4), (0x4ed8aa4a, 0x21d63bf0), (0x5b9cca4f, 0x9701a22e), (0x682e6ff3, 0x16267636)] @
     [(0x748f82ee, 0xe704b62f), (0x78a5636f, 0xb48d8238), (0x84c87814, 0xf2a9dda4), (0x8cc70208, 0x227d40d4), (0x90befffa, 0x53268311), (0xa4506ceb, 0xd92bd04c), (0xbef9a3f7, 0xe084b4b5), (0xc67178f2, 0x6517c437)]) =
     (0xe8f47a2d, 0xb8d44eca, 0x5f753eab, 0xf35dd2a8, 0xeb0c63a3, 0x15b51a82, 0x07994536, 0x701cab37)"
  by (simp only: sha_H0_def foldl_append sha_rounds_a1 sha_rounds_a2 sha_rounds_a3 sha_rounds_a4 sha_rounds_a5 sha_rounds_a6 sha_rounds_a7 sha_rounds_a8)

definition id_a :: bytes where
  "id_a = [0x52, 0xfe, 0x60, 0x94, 0x74, 0x3b, 0xfd, 0x4f, 0x9b, 0xe4, 0x32, 0x1d, 0x98, 0xad, 0xc7, 0xe2, 0x3c, 0x1a, 0xb6, 0x22, 0xb0, 0xba, 0x83, 0x0e, 0x27, 0x1d, 0x1e, 0xe1, 0xcb, 0xfd, 0x78, 0x50]"

lemma sha256_key_a: "sha256 key_a = id_a"
proof -
  have "sha256 key_a = sha_digest (sha_add sha_H0 (0xe8f47a2d, 0xb8d44eca, 0x5f753eab, 0xf35dd2a8, 0xeb0c63a3, 0x15b51a82, 0x07994536, 0x701cab37))"
    by (rule sha256_one_block [OF sha_block_a _ sha_sched_a1 sha_sched_a2 sha_sched_a3 sha_pairs_a sha_all_rounds_a]) simp
  also have "\<dots> = id_a"
    by code_simp
  finally show ?thesis .
qed

definition key_b :: bytes where
  "key_b = replicate 32 0xB2"

lemma sha_block_b:
  "sha_words (sha_pad key_b) =
     [0xb2b2b2b2, 0xb2b2b2b2, 0xb2b2b2b2, 0xb2b2b2b2, 0xb2b2b2b2, 0xb2b2b2b2, 0xb2b2b2b2, 0xb2b2b2b2, 0x80000000, 0x00000000, 0x00000000, 0x00000000, 0x00000000, 0x00000000, 0x00000000, 0x00000100]"
  by code_simp

lemma sha_sched_b1:
  "sha_schedule 16
     [0xb2b2b2b2, 0xb2b2b2b2, 0xb2b2b2b2, 0xb2b2b2b2, 0xb2b2b2b2, 0xb2b2b2b2, 0xb2b2b2b2, 0xb2b2b2b2, 0x80000000, 0x00000000, 0x00000000, 0x00000000, 0x00000000, 0x00000000, 0x00000000, 0x00000100] =
     [0x92525251, 0x92f25251, 0xf598c248, 0xf5989a04, 0x0ba254a0, 0xf0d1d4aa, 0xf3193f81, 0x2701370a, 0xcafe53f1, 0xb3065975, 0xd94cfdb8, 0xf35b0315, 0xd22ef95a, 0xd4edd087, 0xcaf3f018, 0x435f0b0a]"
  by code_simp

lemma sha_sched_b2:
  "sha_schedule 16
     [0x92525251, 0x92f25251, 0xf598c248, 0xf5989a04, 0x0ba254a0, 0xf0d1d4aa, 0xf3193f81, 0x2701370a, 0xcafe53f1, 0xb3065975, 0xd94cfdb8, 0xf35b0315, 0xd22ef95a, 0xd4edd087, 0xcaf3f018, 0x435f0b0a] =
     [0xf18636f3, 0x90fe22ba, 0xf868cbed, 0x7140c61b, 0x9c16a33a, 0x89fdb4c4, 0x19c20ffb, 0xf3965d0f, 0x0d5cc162, 0xe67f37af, 0x38747eba, 0x1e446cde, 0x6dc688d3, 0x7f70e9d2, 0x3222c7c0, 0x2ef7afaa]"
  by code_simp

lemma sha_sched_b3:
  "sha_schedule 16
     [0xf18636f3, 0x90fe22ba, 0xf868cbed, 0x7140c61b, 0x9c16a33a, 0x89fdb4c4, 0x19c20ffb, 0xf3965d0f, 0x0d5cc162, 0xe67f37af, 0x38747eba, 0x1e446cde, 0x6dc688d3, 0x7f70e9d2, 0x3222c7c0, 0x2ef7afaa] =
     [0x02aaa2b3, 0xe1a547b2, 0x2508c992, 0xb892f2c9, 0x8e9710b1, 0x5a294ffb, 0x49fd2f00, 0x7a3eeebd, 0xb05d3ca3, 0x22f0885b, 0xcfb4adc0, 0x0b614e0d, 0x1cbfcf0a, 0x90042760, 0x852ea9cf, 0x45ca0911]"
  by code_simp

lemma sha_rounds_b1:
  "foldl sha_round (0x6a09e667, 0xbb67ae85, 0x3c6ef372, 0xa54ff53a, 0x510e527f, 0x9b05688c, 0x1f83d9ab, 0x5be0cd19)
     [(0x428a2f98, 0xb2b2b2b2), (0x71374491, 0xb2b2b2b2), (0xb5c0fbcf, 0xb2b2b2b2), (0xe9b5dba5, 0xb2b2b2b2), (0x3956c25b, 0xb2b2b2b2), (0x59f111f1, 0xb2b2b2b2), (0x923f82a4, 0xb2b2b2b2), (0xab1c5ed5, 0xb2b2b2b2)] =
     (0x9c7035c1, 0x39da3969, 0xf586d703, 0xdc7b6cfb, 0xb6ece06d, 0xfe800737, 0x77e8402b, 0x4715bcaf)"
  by code_simp

lemma sha_rounds_b2:
  "foldl sha_round (0x9c7035c1, 0x39da3969, 0xf586d703, 0xdc7b6cfb, 0xb6ece06d, 0xfe800737, 0x77e8402b, 0x4715bcaf)
     [(0xd807aa98, 0x80000000), (0x12835b01, 0x00000000), (0x243185be, 0x00000000), (0x550c7dc3, 0x00000000), (0x72be5d74, 0x00000000), (0x80deb1fe, 0x00000000), (0x9bdc06a7, 0x00000000), (0xc19bf174, 0x00000100)] =
     (0x58ecdd7c, 0x1cc99e44, 0x5f7f925a, 0x7359d72f, 0x5c39ccbf, 0x8301407d, 0x66a4a6f4, 0xe6392bfe)"
  by code_simp

lemma sha_rounds_b3:
  "foldl sha_round (0x58ecdd7c, 0x1cc99e44, 0x5f7f925a, 0x7359d72f, 0x5c39ccbf, 0x8301407d, 0x66a4a6f4, 0xe6392bfe)
     [(0xe49b69c1, 0x92525251), (0xefbe4786, 0x92f25251), (0x0fc19dc6, 0xf598c248), (0x240ca1cc, 0xf5989a04), (0x2de92c6f, 0x0ba254a0), (0x4a7484aa, 0xf0d1d4aa), (0x5cb0a9dc, 0xf3193f81), (0x76f988da, 0x2701370a)] =
     (0xb31a58c4, 0x76f32bdc, 0x96077419, 0x97e6a81f, 0xa1c00ea0, 0x435387ad, 0xe0eb3142, 0xf8b85e39)"
  by code_simp

lemma sha_rounds_b4:
  "foldl sha_round (0xb31a58c4, 0x76f32bdc, 0x96077419, 0x97e6a81f, 0xa1c00ea0, 0x435387ad, 0xe0eb3142, 0xf8b85e39)
     [(0x983e5152, 0xcafe53f1), (0xa831c66d, 0xb3065975), (0xb00327c8, 0xd94cfdb8), (0xbf597fc7, 0xf35b0315), (0xc6e00bf3, 0xd22ef95a), (0xd5a79147, 0xd4edd087), (0x06ca6351, 0xcaf3f018), (0x14292967, 0x435f0b0a)] =
     (0xd1f5cfd4, 0xfbaa623b, 0x183b4f37, 0xb20e7013, 0x3eca6ce1, 0x9beceeca, 0x25095757, 0xaf8975a5)"
  by code_simp

lemma sha_rounds_b5:
  "foldl sha_round (0xd1f5cfd4, 0xfbaa623b, 0x183b4f37, 0xb20e7013, 0x3eca6ce1, 0x9beceeca, 0x25095757, 0xaf8975a5)
     [(0x27b70a85, 0xf18636f3), (0x2e1b2138, 0x90fe22ba), (0x4d2c6dfc, 0xf868cbed), (0x53380d13, 0x7140c61b), (0x650a7354, 0x9c16a33a), (0x766a0abb, 0x89fdb4c4), (0x81c2c92e, 0x19c20ffb), (0x92722c85, 0xf3965d0f)] =
     (0x11a32f38, 0x692e3dda, 0xd782fe9a, 0x6dba5714, 0x9b221113, 0xc61a1e4f, 0xe2b39ccd, 0xa418c0c3)"
  by code_simp

lemma sha_rounds_b6:
  "foldl sha_round (0x11a32f38, 0x692e3dda, 0xd782fe9a, 0x6dba5714, 0x9b221113, 0xc61a1e4f, 0xe2b39ccd, 0xa418c0c3)
     [(0xa2bfe8a1, 0x0d5cc162), (0xa81a664b, 0xe67f37af), (0xc24b8b70, 0x38747eba), (0xc76c51a3, 0x1e446cde), (0xd192e819, 0x6dc688d3), (0xd6990624, 0x7f70e9d2), (0xf40e3585, 0x3222c7c0), (0x106aa070, 0x2ef7afaa)] =
     (0x91f078bc, 0xe9a0155d, 0xb972e460, 0x5b08dd8d, 0x745d9f40, 0xa725500c, 0x3a831465, 0xbf92a305)"
  by code_simp

lemma sha_rounds_b7:
  "foldl sha_round (0x91f078bc, 0xe9a0155d, 0xb972e460, 0x5b08dd8d, 0x745d9f40, 0xa725500c, 0x3a831465, 0xbf92a305)
     [(0x19a4c116, 0x02aaa2b3), (0x1e376c08, 0xe1a547b2), (0x2748774c, 0x2508c992), (0x34b0bcb5, 0xb892f2c9), (0x391c0cb3, 0x8e9710b1), (0x4ed8aa4a, 0x5a294ffb), (0x5b9cca4f, 0x49fd2f00), (0x682e6ff3, 0x7a3eeebd)] =
     (0x90de41c0, 0x5e43fe22, 0x4c0fd2c5, 0xe3dced56, 0xfd6e669d, 0xf28dc1b7, 0x82fcf8ed, 0x786644b3)"
  by code_simp

lemma sha_rounds_b8:
  "foldl sha_round (0x90de41c0, 0x5e43fe22, 0x4c0fd2c5, 0xe3dced56, 0xfd6e669d, 0xf28dc1b7, 0x82fcf8ed, 0x786644b3)
     [(0x748f82ee, 0xb05d3ca3), (0x78a5636f, 0x22f0885b), (0x84c87814, 0xcfb4adc0), (0x8cc70208, 0x0b614e0d), (0x90befffa, 0x1cbfcf0a), (0xa4506ceb, 0x90042760), (0xbef9a3f7, 0x852ea9cf), (0xc67178f2, 0x45ca0911)] =
     (0x87441620, 0x9fb338d2, 0x47a23c08, 0xee5984e9, 0x175953d7, 0xb52a95c1, 0x5d6bd1b5, 0x7406e1b9)"
  by code_simp

lemma sha_pairs_b:
  "zip sha_K ([0xb2b2b2b2, 0xb2b2b2b2, 0xb2b2b2b2, 0xb2b2b2b2, 0xb2b2b2b2, 0xb2b2b2b2, 0xb2b2b2b2, 0xb2b2b2b2, 0x80000000, 0x00000000, 0x00000000, 0x00000000, 0x00000000, 0x00000000, 0x00000000, 0x00000100] @
     [0x92525251, 0x92f25251, 0xf598c248, 0xf5989a04, 0x0ba254a0, 0xf0d1d4aa, 0xf3193f81, 0x2701370a, 0xcafe53f1, 0xb3065975, 0xd94cfdb8, 0xf35b0315, 0xd22ef95a, 0xd4edd087, 0xcaf3f018, 0x435f0b0a] @
     [0xf18636f3, 0x90fe22ba, 0xf868cbed, 0x7140c61b, 0x9c16a33a, 0x89fdb4c4, 0x19c20ffb, 0xf3965d0f, 0x0d5cc162, 0xe67f37af, 0x38747eba, 0x1e446cde, 0x6dc688d3, 0x7f70e9d2, 0x3222c7c0, 0x2ef7afaa] @
     [0x02aaa2b3, 0xe1a547b2, 0x2508c992, 0xb892f2c9, 0x8e9710b1, 0x5a294ffb, 0x49fd2f00, 0x7a3eeebd, 0xb05d3ca3, 0x22f0885b, 0xcfb4adc0, 0x0b614e0d, 0x1cbfcf0a, 0x90042760, 0x852ea9cf, 0x45ca0911]) =
     [(0x428a2f98, 0xb2b2b2b2), (0x71374491, 0xb2b2b2b2), (0xb5c0fbcf, 0xb2b2b2b2), (0xe9b5dba5, 0xb2b2b2b2), (0x3956c25b, 0xb2b2b2b2), (0x59f111f1, 0xb2b2b2b2), (0x923f82a4, 0xb2b2b2b2), (0xab1c5ed5, 0xb2b2b2b2)] @
     [(0xd807aa98, 0x80000000), (0x12835b01, 0x00000000), (0x243185be, 0x00000000), (0x550c7dc3, 0x00000000), (0x72be5d74, 0x00000000), (0x80deb1fe, 0x00000000), (0x9bdc06a7, 0x00000000), (0xc19bf174, 0x00000100)] @
     [(0xe49b69c1, 0x92525251), (0xefbe4786, 0x92f25251), (0x0fc19dc6, 0xf598c248), (0x240ca1cc, 0xf5989a04), (0x2de92c6f, 0x0ba254a0), (0x4a7484aa, 0xf0d1d4aa), (0x5cb0a9dc, 0xf3193f81), (0x76f988da, 0x2701370a)] @
     [(0x983e5152, 0xcafe53f1), (0xa831c66d, 0xb3065975), (0xb00327c8, 0xd94cfdb8), (0xbf597fc7, 0xf35b0315), (0xc6e00bf3, 0xd22ef95a), (0xd5a79147, 0xd4edd087), (0x06ca6351, 0xcaf3f018), (0x14292967, 0x435f0b0a)] @
     [(0x27b70a85, 0xf18636f3), (0x2e1b2138, 0x90fe22ba), (0x4d2c6dfc, 0xf868cbed), (0x53380d13, 0x7140c61b), (0x650a7354, 0x9c16a33a), (0x766a0abb, 0x89fdb4c4), (0x81c2c92e, 0x19c20ffb), (0x92722c85, 0xf3965d0f)] @
     [(0xa2bfe8a1, 0x0d5cc162), (0xa81a664b, 0xe67f37af), (0xc24b8b70, 0x38747eba), (0xc76c51a3, 0x1e446cde), (0xd192e819, 0x6dc688d3), (0xd6990624, 0x7f70e9d2), (0xf40e3585, 0x3222c7c0), (0x106aa070, 0x2ef7afaa)] @
     [(0x19a4c116, 0x02aaa2b3), (0x1e376c08, 0xe1a547b2), (0x2748774c, 0x2508c992), (0x34b0bcb5, 0xb892f2c9), (0x391c0cb3, 0x8e9710b1), (0x4ed8aa4a, 0x5a294ffb), (0x5b9cca4f, 0x49fd2f00), (0x682e6ff3, 0x7a3eeebd)] @
     [(0x748f82ee, 0xb05d3ca3), (0x78a5636f, 0x22f0885b), (0x84c87814, 0xcfb4adc0), (0x8cc70208, 0x0b614e0d), (0x90befffa, 0x1cbfcf0a), (0xa4506ceb, 0x90042760), (0xbef9a3f7, 0x852ea9cf), (0xc67178f2, 0x45ca0911)]"
  by (simp add: sha_K_def)

lemma sha_all_rounds_b:
  "foldl sha_round sha_H0 (
     [(0x428a2f98, 0xb2b2b2b2), (0x71374491, 0xb2b2b2b2), (0xb5c0fbcf, 0xb2b2b2b2), (0xe9b5dba5, 0xb2b2b2b2), (0x3956c25b, 0xb2b2b2b2), (0x59f111f1, 0xb2b2b2b2), (0x923f82a4, 0xb2b2b2b2), (0xab1c5ed5, 0xb2b2b2b2)] @
     [(0xd807aa98, 0x80000000), (0x12835b01, 0x00000000), (0x243185be, 0x00000000), (0x550c7dc3, 0x00000000), (0x72be5d74, 0x00000000), (0x80deb1fe, 0x00000000), (0x9bdc06a7, 0x00000000), (0xc19bf174, 0x00000100)] @
     [(0xe49b69c1, 0x92525251), (0xefbe4786, 0x92f25251), (0x0fc19dc6, 0xf598c248), (0x240ca1cc, 0xf5989a04), (0x2de92c6f, 0x0ba254a0), (0x4a7484aa, 0xf0d1d4aa), (0x5cb0a9dc, 0xf3193f81), (0x76f988da, 0x2701370a)] @
     [(0x983e5152, 0xcafe53f1), (0xa831c66d, 0xb3065975), (0xb00327c8, 0xd94cfdb8), (0xbf597fc7, 0xf35b0315), (0xc6e00bf3, 0xd22ef95a), (0xd5a79147, 0xd4edd087), (0x06ca6351, 0xcaf3f018), (0x14292967, 0x435f0b0a)] @
     [(0x27b70a85, 0xf18636f3), (0x2e1b2138, 0x90fe22ba), (0x4d2c6dfc, 0xf868cbed), (0x53380d13, 0x7140c61b), (0x650a7354, 0x9c16a33a), (0x766a0abb, 0x89fdb4c4), (0x81c2c92e, 0x19c20ffb), (0x92722c85, 0xf3965d0f)] @
     [(0xa2bfe8a1, 0x0d5cc162), (0xa81a664b, 0xe67f37af), (0xc24b8b70, 0x38747eba), (0xc76c51a3, 0x1e446cde), (0xd192e819, 0x6dc688d3), (0xd6990624, 0x7f70e9d2), (0xf40e3585, 0x3222c7c0), (0x106aa070, 0x2ef7afaa)] @
     [(0x19a4c116, 0x02aaa2b3), (0x1e376c08, 0xe1a547b2), (0x2748774c, 0x2508c992), (0x34b0bcb5, 0xb892f2c9), (0x391c0cb3, 0x8e9710b1), (0x4ed8aa4a, 0x5a294ffb), (0x5b9cca4f, 0x49fd2f00), (0x682e6ff3, 0x7a3eeebd)] @
     [(0x748f82ee, 0xb05d3ca3), (0x78a5636f, 0x22f0885b), (0x84c87814, 0xcfb4adc0), (0x8cc70208, 0x0b614e0d), (0x90befffa, 0x1cbfcf0a), (0xa4506ceb, 0x90042760), (0xbef9a3f7, 0x852ea9cf), (0xc67178f2, 0x45ca0911)]) =
     (0x87441620, 0x9fb338d2, 0x47a23c08, 0xee5984e9, 0x175953d7, 0xb52a95c1, 0x5d6bd1b5, 0x7406e1b9)"
  by (simp only: sha_H0_def foldl_append sha_rounds_b1 sha_rounds_b2 sha_rounds_b3 sha_rounds_b4 sha_rounds_b5 sha_rounds_b6 sha_rounds_b7 sha_rounds_b8)

definition id_b :: bytes where
  "id_b = [0xf1, 0x4d, 0xfc, 0x87, 0x5b, 0x1a, 0xe7, 0x57, 0x84, 0x11, 0x2f, 0x7a, 0x93, 0xa9, 0x7a, 0x23, 0x68, 0x67, 0xa6, 0x56, 0x50, 0x2f, 0xfe, 0x4d, 0x7c, 0xef, 0xab, 0x60, 0xcf, 0xe7, 0xae, 0xd2]"

lemma sha256_key_b: "sha256 key_b = id_b"
proof -
  have "sha256 key_b = sha_digest (sha_add sha_H0 (0x87441620, 0x9fb338d2, 0x47a23c08, 0xee5984e9, 0x175953d7, 0xb52a95c1, 0x5d6bd1b5, 0x7406e1b9))"
    by (rule sha256_one_block [OF sha_block_b _ sha_sched_b1 sha_sched_b2 sha_sched_b3 sha_pairs_b sha_all_rounds_b]) simp
  also have "\<dots> = id_b"
    by code_simp
  finally show ?thesis .
qed

lemma length_keys [simp]: "length key_a = 32" "length key_b = 32" "length id_a = 32" "length id_b = 32"
  by (simp_all add: key_a_def key_b_def id_a_def id_b_def)

lemma keys_differ [simp]: "key_a \<noteq> key_b" "key_b \<noteq> key_a"
  by (simp_all add: key_a_def key_b_def)

lemma ids_differ [simp]: "id_a \<noteq> id_b" "id_b \<noteq> id_a"
  by (simp_all add: id_a_def id_b_def)

end
