(* ===== verification/Toy_Crypto.thy ===== *)
theory Toy_Crypto
  imports Crypto Sha256_Vectors
begin

text \<open>
  A concrete instance of the \<^verbatim>\<open>cryptography\<close> parameter that satisfies every law
  of \<open>crypto_laws\<close>, used only to show that the hypotheses of the properties can hold together.
  Keys are byte strings, public and private keys coincide, a signature is a fixed-length digest
  of the key and the data, and encryption appends sixteen zero bytes. Nothing about it is secret;
  the properties hold for every instance.
\<close>

definition pad_to :: "nat \<Rightarrow> bytes \<Rightarrow> bytes" where
  "pad_to n bs = take n (bs @ replicate n 0)"

definition toy_tag :: "bytes \<Rightarrow> bytes \<Rightarrow> bytes" where
  "toy_tag k d = pad_to 32 k @ [of_nat (length d)] @ pad_to 31 d"

definition toy :: "bytes crypto" where
  "toy = \<lparr>
     ed_public_key = pad_to 32,
     ed_public_bytes = (\<lambda>k. k),
     ed_from_public_bytes = (\<lambda>b. if length b = 32 then Inr b else Inl ValueError),
     ed_sign = toy_tag,
     ed_verify = (\<lambda>k s d. if s = toy_tag k d then Inr () else Inl InvalidSignature),
     x_public_key = pad_to 32,
     x_public_bytes = (\<lambda>k. k),
     x_from_public_bytes = (\<lambda>b. if length b = 32 then Inr b else Inl ValueError),
     x_exchange = (\<lambda>a b. Inr (map2 (+) (pad_to 32 a) (pad_to 32 b))),
     hkdf_sha256 = (\<lambda>n info ikm. pad_to n (ikm @ info)),
     hmac_sha512 = toy_tag,
     hmac_verify = (\<lambda>k d t. if t = toy_tag k d then Inr () else Inl InvalidSignature),
     aesgcm_encrypt = (\<lambda>k n p a. if length k = 32 then Inr (p @ replicate 16 0) else Inl ValueError),
     aesgcm_decrypt = (\<lambda>k n c a. if length k = 32 \<and> 16 \<le> length c
                                  then Inr (take (length c - 16) c) else Inl InvalidTag)\<rparr>"

lemma length_pad_to [simp]: "length (pad_to n bs) = n"
  by (simp add: pad_to_def)

lemma pad_to_exact [simp]: "length bs = n \<Longrightarrow> pad_to n bs = bs"
  by (simp add: pad_to_def)

lemma length_toy_tag [simp]: "length (toy_tag k d) = 64"
  by (simp add: toy_tag_def)

lemma toy_tag_pad [simp]: "toy_tag (pad_to 32 k) d = toy_tag k d"
  by (simp add: toy_tag_def)

lemma toy_ed_laws: "ed_laws toy"
  by (simp add: ed_laws_def toy_def)

lemma toy_x_laws: "x_laws toy"
proof -
  have "map2 (+) a b = map2 (+) b a" for a b :: bytes
    by (subst zip_commute) (simp add: case_prod_beta comp_def add.commute)
  then show ?thesis by (simp add: x_laws_def toy_def)
qed

lemma toy_mac_laws: "mac_laws toy"
  by (simp add: mac_laws_def toy_def)

lemma toy_aead_laws: "aead_laws toy"
  by (simp add: aead_laws_def toy_def)

lemma toy_laws: "crypto_laws toy"
  by (simp add: crypto_laws_def toy_ed_laws toy_x_laws toy_mac_laws toy_aead_laws)

end
