(* ===== verification/Trust_Invariants.thy ===== *)
theory Trust_Invariants
  imports Trust Toy_Crypto
begin

text \<open>
  What the trust store keeps true. Every record sits under the SHA-256 of its own key, chains of
  endorsements stay within the configured depth, levels only rise, keys never change, and a
  blacklisted device stays distrusted until it is removed from the blacklist, along every
  sequence of operations. The contract that key rotation relies on is the locale
  \<open>trust_keyring\<close>.
\<close>

section \<open>Sequences of operations\<close>

datatype trust_op =
    Op_add real bytes TrustLevel
  | Op_distrust bytes
  | Op_remove_blacklist bytes
  | Op_hello real bytes bytes
  | Op_fingerprint bytes string
  | Op_endorse real bytes bytes

fun trust_exec :: "'k crypto \<Rightarrow> trust_op \<Rightarrow> trust_store \<Rightarrow> trust_store" where
  "trust_exec C (Op_add now k l) st = snd (TrustStore_add now k l st)"
| "trust_exec C (Op_distrust d) st = TrustStore_distrust d st"
| "trust_exec C (Op_remove_blacklist d) st = TrustStore_remove_blacklist d st"
| "trust_exec C (Op_hello now d k) st = snd (TrustStore_process_hello now d k st)"
| "trust_exec C (Op_fingerprint d f) st = snd (TrustStore_verify_fingerprint d f st)"
| "trust_exec C (Op_endorse now b d) st = snd (TrustStore_add_endorsement C now b d st)"

fun trust_run :: "'k crypto \<Rightarrow> trust_op list \<Rightarrow> trust_store \<Rightarrow> trust_store" where
  "trust_run C [] st = st"
| "trust_run C (x # xs) st = trust_run C xs (trust_exec C x st)"

section \<open>Well-formed stores, and the order in which they grow\<close>

definition record_wf :: "int \<Rightarrow> bytes \<Rightarrow> trust_record \<Rightarrow> bool" where
  "record_wf max_depth k r \<longleftrightarrow>
     tr_device_id r = k \<and> sha256 (tr_ed25519_public r) = k \<and> length (tr_ed25519_public r) = 32 \<and>
     0 \<le> tr_endorsement_depth r \<and> tr_endorsement_depth r \<le> max 0 max_depth \<and>
     distinct (tr_endorsers r)"

definition store_wf :: "trust_store \<Rightarrow> bool" where
  "store_wf st \<longleftrightarrow>
     dict_ok (ts_records st) \<and>
     (\<forall>k r. dict_get (ts_records st) k = Some r \<longrightarrow> record_wf (ts_max_endorsement_depth st) k r)"

definition record_le :: "trust_record \<Rightarrow> trust_record \<Rightarrow> bool" where
  "record_le r r' \<longleftrightarrow>
     tr_device_id r' = tr_device_id r \<and> tr_ed25519_public r' = tr_ed25519_public r \<and>
     tr_trust_level r \<le> tr_trust_level r' \<and> set (tr_endorsers r) \<subseteq> set (tr_endorsers r') \<and>
     tr_added_at r' = tr_added_at r"

definition store_le :: "trust_store \<Rightarrow> trust_store \<Rightarrow> bool" where
  "store_le st st' \<longleftrightarrow>
     (\<forall>k r. dict_get (ts_records st) k = Some r \<longrightarrow>
        (\<exists>r'. dict_get (ts_records st') k = Some r' \<and> record_le r r')) \<and>
     ts_allow_tofu st' = ts_allow_tofu st \<and> ts_min_trust st' = ts_min_trust st \<and>
     ts_max_endorsement_depth st' = ts_max_endorsement_depth st"

lemma record_le_refl [simp]: "record_le r r"
  by (simp add: record_le_def)

lemma record_le_trans: "record_le a b \<Longrightarrow> record_le b c \<Longrightarrow> record_le a c"
  by (auto simp: record_le_def)

lemma store_le_refl [simp]: "store_le st st"
  by (auto simp: store_le_def)

lemma store_le_trans: "store_le a b \<Longrightarrow> store_le b c \<Longrightarrow> store_le a c"
proof -
  assume ab: "store_le a b" and bc: "store_le b c"
  have "\<exists>r''. dict_get (ts_records c) k = Some r'' \<and> record_le r r''"
    if a: "dict_get (ts_records a) k = Some r" for k r
  proof -
    obtain r' where "dict_get (ts_records b) k = Some r'" and le: "record_le r r'"
      using ab a unfolding store_le_def by blast
    then obtain r'' where "dict_get (ts_records c) k = Some r''" and "record_le r' r''"
      using bc unfolding store_le_def by blast
    with record_le_trans [OF le] show ?thesis by blast
  qed
  with ab bc show ?thesis by (simp add: store_le_def)
qed

text \<open>Replacing or adding one entry.\<close>

definition put_record :: "bytes \<Rightarrow> trust_record \<Rightarrow> trust_store \<Rightarrow> trust_store" where
  "put_record k r st = st\<lparr>ts_records := dict_set k r (ts_records st)\<rparr>"

lemma put_record_get: "TrustStore_get (put_record k r st) k' = (if k' = k then Some r else TrustStore_get st k')"
  by (simp add: put_record_def TrustStore_get_def dict_simps)

lemma put_record_wf:
  "store_wf st \<Longrightarrow> record_wf (ts_max_endorsement_depth st) k r \<Longrightarrow> store_wf (put_record k r st)"
  by (auto simp: store_wf_def put_record_def dict_simps split: if_splits)

lemma put_record_le:
  "(\<And>r0. dict_get (ts_records st) k = Some r0 \<Longrightarrow> record_le r0 r) \<Longrightarrow> store_le st (put_record k r st)"
  by (auto simp: store_le_def put_record_def dict_simps)

lemma store_wfD:
  "store_wf st \<Longrightarrow> dict_get (ts_records st) k = Some r \<Longrightarrow> record_wf (ts_max_endorsement_depth st) k r"
  by (simp add: store_wf_def)

section \<open>add\<close>

lemma TrustStore_add_cases:
  obtains (known) r where "dict_get (ts_records st) (sha256 k) = Some r"
      and "TrustStore_add now k l st =
        (Inr (r\<lparr>tr_trust_level := max (tr_trust_level r) l\<rparr>),
         put_record (sha256 k) (r\<lparr>tr_trust_level := max (tr_trust_level r) l\<rparr>) st)"
  | (new) r where "dict_get (ts_records st) (sha256 k) = None" and "length k = 32"
      and "r = \<lparr>tr_device_id = sha256 k, tr_ed25519_public = k, tr_trust_level = l,
               tr_endorsers = [], tr_endorsement_depth = 0, tr_added_at = now\<rparr>"
      and "TrustStore_add now k l st = (Inr r, put_record (sha256 k) r st)"
  | (bad) "dict_get (ts_records st) (sha256 k) = None" and "length k \<noteq> 32"
      and "TrustStore_add now k l st = (Inl ValueError, st)"
proof (cases "dict_get (ts_records st) (sha256 k)")
  case None
  then show ?thesis
    using new bad
    by (cases "length k = 32") (simp_all add: TrustStore_add_def TrustRecord_new_def put_record_def Let_def)
next
  case (Some r)
  have "(if l > tr_trust_level r then r\<lparr>tr_trust_level := l\<rparr> else r)
      = r\<lparr>tr_trust_level := max (tr_trust_level r) l\<rparr>"
    by (cases "l > tr_trust_level r") (simp_all add: max_def)
  with Some show ?thesis
    using known by (simp add: TrustStore_add_def Let_def put_record_def)
qed

lemma TrustStore_add_wf:
  assumes "store_wf st"
  shows "store_wf (snd (TrustStore_add now k l st))"
proof (rule TrustStore_add_cases [of st k now l])
  fix r assume r: "dict_get (ts_records st) (sha256 k) = Some r"
    "TrustStore_add now k l st =
        (Inr (r\<lparr>tr_trust_level := max (tr_trust_level r) l\<rparr>),
         put_record (sha256 k) (r\<lparr>tr_trust_level := max (tr_trust_level r) l\<rparr>) st)"
  then have "record_wf (ts_max_endorsement_depth st) (sha256 k) (r\<lparr>tr_trust_level := max (tr_trust_level r) l\<rparr>)"
    using store_wfD [OF assms] by (simp add: record_wf_def)
  then show ?thesis using assms by (simp add: r put_record_wf)
next
  fix r :: trust_record
  assume "length k = 32" "TrustStore_add now k l st = (Inr r, put_record (sha256 k) r st)"
    "r = \<lparr>tr_device_id = sha256 k, tr_ed25519_public = k, tr_trust_level = l,
           tr_endorsers = [], tr_endorsement_depth = 0, tr_added_at = now\<rparr>"
  then show ?thesis using assms by (simp add: put_record_wf record_wf_def)
qed (use assms in simp)

lemma TrustStore_add_le: "store_le st (snd (TrustStore_add now k l st))"
proof (rule TrustStore_add_cases [of st k now l])
  fix r assume "dict_get (ts_records st) (sha256 k) = Some r"
    "TrustStore_add now k l st =
        (Inr (r\<lparr>tr_trust_level := max (tr_trust_level r) l\<rparr>),
         put_record (sha256 k) (r\<lparr>tr_trust_level := max (tr_trust_level r) l\<rparr>) st)"
  then show ?thesis by (auto simp: record_le_def intro!: put_record_le)
qed (auto intro!: put_record_le)

lemma TrustStore_add_blacklist [simp]:
  "ts_blacklist (snd (TrustStore_add now k l st)) = ts_blacklist st"
  by (rule TrustStore_add_cases [of st k now l]) (simp_all add: put_record_def)

lemma TrustStore_add_Inr:
  assumes "TrustStore_add now k l st = (Inr r, st')"
  shows "st' = put_record (sha256 k) r st" and "l \<le> tr_trust_level r"
    and "TrustStore_get st' (sha256 k) = Some r"
  by (rule TrustStore_add_cases [of st k now l]; use assms in \<open>auto simp: put_record_get\<close>)+

section \<open>The contract of a keyring\<close>

text \<open>
  What the rotation of identities relies on: adding a key succeeds for a 32-byte key, the record
  is then found under the key's identity with at least the requested level, and no other entry
  changes.
\<close>

locale trust_keyring =
  fixes get :: "'s \<Rightarrow> bytes \<Rightarrow> trust_record option"
    and add :: "real \<Rightarrow> bytes \<Rightarrow> TrustLevel \<Rightarrow> 's \<Rightarrow> trust_record result \<times> 's"
    and ok :: "'s \<Rightarrow> bool"
  assumes add_succeeds: "length k = 32 \<Longrightarrow> \<exists>r st'. add now k l st = (Inr r, st')"
    and add_found: "add now k l st = (Inr r, st') \<Longrightarrow> get st' (sha256 k) = Some r \<and> l \<le> tr_trust_level r"
    and add_frame: "add now k l st = (x, st') \<Longrightarrow> i \<noteq> sha256 k \<Longrightarrow> get st' i = get st i"
    and add_ok: "ok st \<Longrightarrow> add now k l st = (x, st') \<Longrightarrow> ok st'"
    and get_id: "ok st \<Longrightarrow> get st i = Some r \<Longrightarrow> sha256 (tr_ed25519_public r) = i"
begin

lemma add_level:
  assumes "length k = 32"
  shows "\<exists>r. get (snd (add now k l st)) (sha256 k) = Some r \<and> l \<le> tr_trust_level r"
  using add_succeeds [OF assms, of now l st] add_found by fastforce

lemma add_keeps:
  assumes "ok st" and "length k = 32"
  shows "ok (snd (add now k l st)) \<and> (\<forall>i. i \<noteq> sha256 k \<longrightarrow> get (snd (add now k l st)) i = get st i)"
  using add_ok [OF assms(1)] add_frame by (metis surjective_pairing)

end

interpretation store_keyring: trust_keyring TrustStore_get TrustStore_add store_wf
proof unfold_locales
  show "length k = 32 \<Longrightarrow> \<exists>r st'. TrustStore_add now k l st = (Inr r, st')" for now k l st
    by (rule TrustStore_add_cases [of st k now l]) simp_all
  show "TrustStore_add now k l st = (Inr r, st') \<Longrightarrow>
      TrustStore_get st' (sha256 k) = Some r \<and> l \<le> tr_trust_level r" for now k l st r st'
    using TrustStore_add_Inr by blast
  show "TrustStore_add now k l st = (x, st') \<Longrightarrow> i \<noteq> sha256 k \<Longrightarrow>
      TrustStore_get st' i = TrustStore_get st i" for now k l st x st' i
    by (rule TrustStore_add_cases [of st k now l]) (auto simp: put_record_get)
  show "store_wf st \<Longrightarrow> TrustStore_add now k l st = (x, st') \<Longrightarrow> store_wf st'" for now k l st x st'
    using TrustStore_add_wf [of st now k l] by simp
  show "store_wf st \<Longrightarrow> TrustStore_get st i = Some r \<Longrightarrow> sha256 (tr_ed25519_public r) = i" for st i r
    using store_wfD [of st i r] by (simp add: TrustStore_get_def record_wf_def)
qed

section \<open>The other operations\<close>

definition endorsed_record :: "bytes \<Rightarrow> int \<Rightarrow> trust_record \<Rightarrow> trust_record" where
  "endorsed_record e depth r =
     r\<lparr>tr_endorsers := (if e \<notin> set (tr_endorsers r) then tr_endorsers r @ [e] else tr_endorsers r),
       tr_endorsement_depth := depth\<rparr>"

definition endorsement_valid :: "'k crypto \<Rightarrow> bytes \<Rightarrow> bytes \<Rightarrow> trust_store \<Rightarrow> trust_record \<Rightarrow> bool" where
  "endorsement_valid C blob e st er \<longleftrightarrow>
     length blob = 160 \<and> dict_get (ts_records st) e = Some er \<and> VERIFIED \<le> tr_trust_level er \<and>
     tr_endorsement_depth er + 1 \<le> ts_max_endorsement_depth st \<and>
     crypto_verify C (tr_ed25519_public er) (take 96 blob) (drop 96 blob) = Inr True \<and>
     take 32 blob = e"

abbreviation endorsed_key :: "bytes \<Rightarrow> bytes" where
  "endorsed_key blob \<equiv> py_slice 64 96 blob"

lemma py_slice_take: "j \<le> n \<Longrightarrow> py_slice i j (take n xs) = py_slice i j xs"
  by (cases "i \<le> j") (simp_all add: py_slice_def drop_take min_def)

lemma add_endorsement_accept:
  assumes "endorsement_valid C blob e st er"
  obtains r st1 where "TrustStore_add now (endorsed_key blob) ENDORSED st = (Inr r, st1)"
    and "TrustStore_add_endorsement C now blob e st =
      (Inr (endorsed_record e (tr_endorsement_depth er + 1) r),
       put_record (sha256 (endorsed_key blob))
         (endorsed_record e (tr_endorsement_depth er + 1) r) st1)"
proof -
  have "length (endorsed_key blob) = 32"
    using assms by (simp add: endorsement_valid_def length_slice)
  then obtain r st1 where a: "TrustStore_add now (endorsed_key blob) ENDORSED st = (Inr r, st1)"
    using store_keyring.add_succeeds by blast
  have "TrustStore_add_endorsement C now blob e st =
      (Inr (endorsed_record e (tr_endorsement_depth er + 1) r),
       put_record (sha256 (endorsed_key blob))
         (endorsed_record e (tr_endorsement_depth er + 1) r) st1)"
    using assms a
    by (simp add: TrustStore_add_endorsement_def endorsement_valid_def ENDORSEMENT_TOTAL_SIZE_def
        ENDORSEMENT_BODY_SIZE_def Let_def slice_take py_slice_take min_def not_less
        endorsed_record_def put_record_def)
  with a show ?thesis by (rule that)
qed

lemma add_endorsement_refuse:
  assumes "\<And>er. \<not> endorsement_valid C blob e st er"
  shows "\<exists>x. TrustStore_add_endorsement C now blob e st = (Inl x, st)"
proof (cases "length blob = 160")
  case False
  then show ?thesis
    by (simp add: TrustStore_add_endorsement_def ENDORSEMENT_TOTAL_SIZE_def)
next
  case len: True
  show ?thesis
  proof (cases "dict_get (ts_records st) e")
    case None
    then show ?thesis
      using len by (simp add: TrustStore_add_endorsement_def ENDORSEMENT_TOTAL_SIZE_def)
  next
    case (Some er)
    then show ?thesis
      using len assms [of er]
      by (auto simp: TrustStore_add_endorsement_def endorsement_valid_def ENDORSEMENT_TOTAL_SIZE_def
          ENDORSEMENT_BODY_SIZE_def Let_def slice_take py_slice_take min_def not_less not_le
          split: sum.splits bool.splits if_splits)
  qed
qed

lemma add_endorsement_state:
  "snd (TrustStore_add_endorsement C now blob e st) = st \<or>
   (\<exists>er r st1. endorsement_valid C blob e st er \<and>
      TrustStore_add now (endorsed_key blob) ENDORSED st = (Inr r, st1) \<and>
      snd (TrustStore_add_endorsement C now blob e st) =
        put_record (sha256 (endorsed_key blob))
          (endorsed_record e (tr_endorsement_depth er + 1) r) st1)"
proof (cases "\<exists>er. endorsement_valid C blob e st er")
  case True
  then obtain er where er: "endorsement_valid C blob e st er" by blast
  show ?thesis
    by (rule add_endorsement_accept [OF er, of now]) (use er in auto)
next
  case False
  then show ?thesis
    by (metis add_endorsement_refuse snd_conv)
qed

lemma endorsed_record_le: "record_le r (endorsed_record e d r)"
  by (auto simp: record_le_def endorsed_record_def)

lemma record_wf_level: "record_wf m k r \<Longrightarrow> record_wf m k (r\<lparr>tr_trust_level := l\<rparr>)"
  by (simp add: record_wf_def)

lemma endorsed_record_wf:
  "record_wf m k r \<Longrightarrow> 0 \<le> d \<Longrightarrow> d \<le> m \<Longrightarrow> record_wf m k (endorsed_record e d r)"
  by (simp add: record_wf_def endorsed_record_def)

lemma process_hello_state:
  "snd (TrustStore_process_hello now d k st) = st \<or>
   snd (TrustStore_process_hello now d k st) = snd (TrustStore_add now k TOFU st)"
  by (simp add: TrustStore_process_hello_def split: option.splits)

lemma verify_fingerprint_state:
  "snd (TrustStore_verify_fingerprint d f st) = st \<or>
   (\<exists>r. dict_get (ts_records st) d = Some r \<and>
        snd (TrustStore_verify_fingerprint d f st) =
          put_record d (r\<lparr>tr_trust_level := max (tr_trust_level r) VERIFIED\<rparr>) st)"
  by (auto simp: TrustStore_verify_fingerprint_def put_record_def split: option.splits)

section \<open>One operation\<close>

lemma trust_exec_wf:
  assumes wf: "store_wf st"
  shows "store_wf (trust_exec C x st)"
proof (cases x)
  case (Op_hello now d k)
  then show ?thesis
    using wf process_hello_state [of now d k st] TrustStore_add_wf [OF wf, of now k TOFU] by auto
next
  case (Op_fingerprint d f)
  then show ?thesis
    using wf verify_fingerprint_state [of d f st] store_wfD [OF wf]
    by (auto intro!: put_record_wf record_wf_level)
next
  case (Op_endorse now b e)
  show ?thesis
  proof (cases "snd (TrustStore_add_endorsement C now b e st) = st")
    case True
    then show ?thesis using wf Op_endorse by simp
  next
    case False
    then obtain er r st1 where v: "endorsement_valid C b e st er"
      and a: "TrustStore_add now (endorsed_key b) ENDORSED st = (Inr r, st1)"
      and s: "snd (TrustStore_add_endorsement C now b e st) =
        put_record (sha256 (endorsed_key b)) (endorsed_record e (tr_endorsement_depth er + 1) r) st1"
      using add_endorsement_state [of C now b e st] by blast
    have wf1: "store_wf st1"
      using TrustStore_add_wf [OF wf, of now "endorsed_key b" ENDORSED] by (simp add: a)
    have m: "ts_max_endorsement_depth st1 = ts_max_endorsement_depth st"
      using TrustStore_add_le [of st now "endorsed_key b" ENDORSED] by (simp add: a store_le_def)
    have "record_wf (ts_max_endorsement_depth st1) (sha256 (endorsed_key b)) r"
      using store_wfD [OF wf1] TrustStore_add_Inr(3) [OF a] by (simp add: TrustStore_get_def)
    moreover have "0 \<le> tr_endorsement_depth er" "tr_endorsement_depth er + 1 \<le> ts_max_endorsement_depth st"
      using v store_wfD [OF wf] by (auto simp: endorsement_valid_def record_wf_def)
    ultimately show ?thesis
      using wf1 Op_endorse by (simp add: s put_record_wf endorsed_record_wf m)
  qed
next
  case (Op_add now k l)
  then show ?thesis using TrustStore_add_wf [OF wf] by simp
qed (use wf in \<open>simp_all add: TrustStore_distrust_def TrustStore_remove_blacklist_def store_wf_def\<close>)

lemma trust_exec_le: "store_le st (trust_exec C x st)"
proof (cases x)
  case (Op_hello now d k)
  then show ?thesis
    using process_hello_state [of now d k st] TrustStore_add_le [of st now k TOFU] by auto
next
  case (Op_fingerprint d f)
  have "record_le r (r\<lparr>tr_trust_level := max (tr_trust_level r) VERIFIED\<rparr>)" for r
    by (simp add: record_le_def)
  then show ?thesis
    using Op_fingerprint verify_fingerprint_state [of d f st] by (auto intro!: put_record_le)
next
  case (Op_endorse now b e)
  show ?thesis
  proof (cases "snd (TrustStore_add_endorsement C now b e st) = st")
    case False
    then obtain er r st1 where "endorsement_valid C b e st er"
      and a: "TrustStore_add now (endorsed_key b) ENDORSED st = (Inr r, st1)"
      and s: "snd (TrustStore_add_endorsement C now b e st) =
        put_record (sha256 (endorsed_key b)) (endorsed_record e (tr_endorsement_depth er + 1) r) st1"
      using add_endorsement_state [of C now b e st] by blast
    have "store_le st st1"
      using TrustStore_add_le [of st now "endorsed_key b" ENDORSED] by (simp add: a)
    moreover have "store_le st1
        (put_record (sha256 (endorsed_key b)) (endorsed_record e (tr_endorsement_depth er + 1) r) st1)"
      using TrustStore_add_Inr(3) [OF a] endorsed_record_le
      by (auto simp: TrustStore_get_def intro!: put_record_le)
    ultimately show ?thesis
      using Op_endorse store_le_trans [of st st1] by (simp add: s)
  qed (use Op_endorse in simp)
next
  case (Op_add now k l)
  then show ?thesis using TrustStore_add_le by simp
qed (simp_all add: TrustStore_distrust_def TrustStore_remove_blacklist_def store_le_def)

lemma trust_exec_blacklist:
  "ts_blacklist (trust_exec C x st) =
     (case x of Op_distrust d \<Rightarrow> insert d (ts_blacklist st)
      | Op_remove_blacklist d \<Rightarrow> ts_blacklist st - {d}
      | _ \<Rightarrow> ts_blacklist st)"
proof (cases x)
  case (Op_hello now d k)
  then show ?thesis
    using process_hello_state [of now d k st] TrustStore_add_blacklist [of now k TOFU st] by auto
next
  case (Op_fingerprint d f)
  then show ?thesis
    using verify_fingerprint_state [of d f st] by (auto simp: put_record_def)
next
  case (Op_endorse now b e)
  have "ts_blacklist st1 = ts_blacklist st" if "TrustStore_add now k ENDORSED st = (y, st1)" for k y st1
    using TrustStore_add_blacklist [of now k ENDORSED st] by (simp add: that)
  then show ?thesis
    using Op_endorse add_endorsement_state [of C now b e st] by (auto simp: put_record_def)
qed (simp_all add: TrustStore_distrust_def TrustStore_remove_blacklist_def)

section \<open>Sequences of operations\<close>

lemma trust_run_wf: "store_wf st \<Longrightarrow> store_wf (trust_run C xs st)"
  by (induction xs arbitrary: st) (simp_all add: trust_exec_wf)

lemma trust_run_le: "store_le st (trust_run C xs st)"
proof (induction xs arbitrary: st)
  case (Cons x xs)
  show ?case using store_le_trans [OF trust_exec_le Cons.IH] by simp
qed simp

lemma trust_run_blacklist:
  "d \<in> ts_blacklist st \<Longrightarrow> Op_remove_blacklist d \<notin> set xs \<Longrightarrow> d \<in> ts_blacklist (trust_run C xs st)"
proof (induction xs arbitrary: st)
  case (Cons x xs)
  then show ?case
    by (cases x) (simp_all add: trust_exec_blacklist del: trust_exec.simps)
qed simp

lemma TrustStore_new_wf [simp]: "store_wf (TrustStore_new a m d)"
  by (simp add: TrustStore_new_def store_wf_def)

lemma add_endorsement_success:
  assumes "TrustStore_add_endorsement C now blob e st = (Inr r, st')"
  obtains er r0 st1 where "endorsement_valid C blob e st er"
    and "TrustStore_add now (endorsed_key blob) ENDORSED st = (Inr r0, st1)"
    and "r = endorsed_record e (tr_endorsement_depth er + 1) r0"
    and "st' = put_record (sha256 (endorsed_key blob)) r st1"
proof (cases "\<exists>er. endorsement_valid C blob e st er")
  case True
  then obtain er where er: "endorsement_valid C blob e st er" by blast
  show ?thesis
    by (rule add_endorsement_accept [OF er, of now]) (use that er assms in simp)
next
  case False
  then show ?thesis
    using add_endorsement_refuse [of C blob e st now] assms by auto
qed

lemma created_endorsement_valid:
  assumes "ed_laws C" and "dict_get (ts_records st) e = Some er"
    and "tr_ed25519_public er = ed_public_bytes C (ed_public_key C sk)"
    and "VERIFIED \<le> tr_trust_level er"
    and "tr_endorsement_depth er + 1 \<le> ts_max_endorsement_depth st"
    and "length e = 32" and "length t = 32" and "length k = 32"
  shows "endorsement_valid C (create_endorsement C sk e t k) e st er"
    and "endorsed_key (create_endorsement C sk e t k) = k"
proof -
  have "length (ed_sign C sk (e @ t @ k)) = 64"
    using assms(1) by (simp add: ed_laws_def)
  then show "endorsement_valid C (create_endorsement C sk e t k) e st er"
    using assms
    by (simp add: endorsement_valid_def create_endorsement_def crypto_sign_def Let_def
        crypto_verify_sign)
  show "endorsed_key (create_endorsement C sk e t k) = k"
    using assms(6-8) by (simp add: create_endorsement_def Let_def py_slice_def)
qed

lemma endorsement_accepted:
  assumes "ed_laws C" and "TrustStore_get st e = Some er"
    and "tr_ed25519_public er = ed_public_bytes C (ed_public_key C sk)"
    and "VERIFIED \<le> tr_trust_level er"
    and "tr_endorsement_depth er + 1 \<le> ts_max_endorsement_depth st"
    and "length e = 32" and "length t = 32" and "length k = 32"
  obtains r where "tr_trust_level r = ENDORSED"
    and "TrustStore_add_endorsement C now (create_endorsement C sk e t k) e st =
      (Inr r, st\<lparr>ts_records := dict_set (sha256 k) r (ts_records st)\<rparr>)"
proof -
  have v: "endorsement_valid C (create_endorsement C sk e t k) e st er"
    and k: "endorsed_key (create_endorsement C sk e t k) = k"
    using created_endorsement_valid [of C st e er sk t k] assms by (simp_all add: TrustStore_get_def)
  obtain r st1 where a: "TrustStore_add now k ENDORSED st = (Inr r, st1)"
    and acc: "TrustStore_add_endorsement C now (create_endorsement C sk e t k) e st =
      (Inr (endorsed_record e (tr_endorsement_depth er + 1) r),
       put_record (sha256 k) (endorsed_record e (tr_endorsement_depth er + 1) r) st1)"
    using add_endorsement_accept [OF v, of now] by (metis k)
  have "tr_trust_level r = ENDORSED"
    using TrustStore_add_Inr(2) [OF a] by (cases "tr_trust_level r") (simp_all add: less_eq_TrustLevel_def)
  with acc that [of "endorsed_record e (tr_endorsement_depth er + 1) r"] TrustStore_add_Inr(1) [OF a]
  show ?thesis by (simp add: put_record_def endorsed_record_def)
qed

section \<open>Properties\<close>

definition store_a :: trust_store where
  "store_a = \<lparr>ts_allow_tofu = False, ts_min_trust = TOFU, ts_max_endorsement_depth = 3,
     ts_records = [(id_a, \<lparr>tr_device_id = id_a, tr_ed25519_public = key_a,
        tr_trust_level = VERIFIED, tr_endorsers = [], tr_endorsement_depth = 0, tr_added_at = 0\<rparr>)],
     ts_blacklist = {}\<rparr>"

definition blob_ab :: bytes where
  "blob_ab = create_endorsement toy key_a id_a id_b key_b"

lemma store_a_reached: "store_a = snd (TrustStore_add 0 key_a VERIFIED (TrustStore_new False TOFU 3))"
  by (simp add: store_a_def TrustStore_add_def TrustStore_new_def TrustRecord_new_def Let_def
      sha256_key_a)

lemma toy_public_key_a: "ed_public_bytes toy (ed_public_key toy key_a) = key_a"
  by (simp add: toy_def)

lemma blob_ab_valid:
  obtains er where "endorsement_valid toy blob_ab id_a store_a er"
    and "tr_endorsement_depth er = 0" and "endorsed_key blob_ab = key_b"
proof
  let ?er = "\<lparr>tr_device_id = id_a, tr_ed25519_public = key_a, tr_trust_level = VERIFIED,
     tr_endorsers = [], tr_endorsement_depth = 0, tr_added_at = 0\<rparr>"
  have "dict_get (ts_records store_a) id_a = Some ?er"
    by (simp add: store_a_def)
  then show "endorsement_valid toy blob_ab id_a store_a ?er" and "endorsed_key blob_ab = key_b"
    unfolding blob_ab_def
    using created_endorsement_valid [OF toy_ed_laws, of store_a id_a ?er key_a id_b key_b]
    by (simp_all add: toy_public_key_a store_a_def)
qed simp

text \<open>C17: the trust store stays well formed. Along every sequence of operations from a new store,
  each record is stored under the SHA-256 of its own 32-byte key, its endorsers are distinct,
  and no endorsement chain is deeper than the configured maximum.\<close>

theorem trust_store_invariant:
  "store_wf (trust_run C xs (TrustStore_new allow_tofu min_trust max_depth))"
  by (rule trust_run_wf [OF TrustStore_new_wf])

text \<open>C20: trust only rises and keys are pinned. Once a device has a record, no sequence of
  operations removes it, changes its key or lowers its trust level.\<close>

theorem trust_never_lowered:
  assumes "TrustStore_get st d = Some r"
  shows "\<exists>r'. TrustStore_get (trust_run C xs st) d = Some r' \<and>
           tr_ed25519_public r' = tr_ed25519_public r \<and> tr_trust_level r \<le> tr_trust_level r' \<and>
           set (tr_endorsers r) \<subseteq> set (tr_endorsers r')"
  using trust_run_le [of st C xs] assms
  unfolding store_le_def record_le_def TrustStore_get_def by blast

theorem trust_never_lowered_witness:
  "\<exists>r'. TrustStore_get (trust_run toy [Op_hello 1 id_a key_b, Op_add 2 key_a TOFU] store_a) id_a = Some r'
        \<and> tr_ed25519_public r' = key_a \<and> VERIFIED \<le> tr_trust_level r'"
proof -
  have g: "TrustStore_get store_a id_a = Some (snd (hd (ts_records store_a)))"
    by (simp add: store_a_def TrustStore_get_def)
  show ?thesis
    using trust_never_lowered [OF g, of toy "[Op_hello 1 id_a key_b, Op_add 2 key_a TOFU]"]
    by (auto simp: store_a_def)
qed

text \<open>A blacklisted device stays distrusted through any sequence of operations (also when it
  is added again, greets, is verified or endorsed) that does not take it off the blacklist.\<close>

theorem blacklisted_never_trusted:
  assumes "Op_remove_blacklist d \<notin> set xs"
  shows "\<not> TrustStore_is_trusted (trust_run C xs (TrustStore_distrust d st)) d"
  using trust_run_blacklist [of d "TrustStore_distrust d st" xs C] assms
  by (simp add: TrustStore_is_trusted_def TrustStore_distrust_def)

theorem blacklisted_never_trusted_witness:
  "\<not> TrustStore_is_trusted
       (trust_run toy [Op_add 1 key_a ENDORSED, Op_endorse 2 blob_ab id_a]
         (TrustStore_distrust id_a store_a)) id_a"
  by (rule blacklisted_never_trusted) simp

text \<open>C18: an endorsement is only accepted with a valid proof. If the store accepts a blob, then
  the endorser is on record with level VERIFIED or higher, its key verifies the signature over the
  96-byte body, the body names that endorser, and the new chain is within the depth limit; the
  target's record then is ENDORSED, lists the endorser, and has the endorser's depth plus one.\<close>

theorem endorsement_soundness:
  assumes "TrustStore_add_endorsement C now blob e st = (Inr r, st')"
  shows "\<exists>er. TrustStore_get st e = Some er \<and> VERIFIED \<le> tr_trust_level er \<and>
           crypto_verify C (tr_ed25519_public er) (take 96 blob) (drop 96 blob) = Inr True \<and>
           take 32 blob = e \<and> length blob = 160 \<and>
           tr_endorsement_depth r = tr_endorsement_depth er + 1 \<and>
           tr_endorsement_depth r \<le> ts_max_endorsement_depth st \<and>
           tr_trust_level r = ENDORSED \<and> e \<in> set (tr_endorsers r) \<and>
           TrustStore_get st' (sha256 (py_slice 64 96 blob)) = Some r"
proof -
  obtain er r0 st1 where v: "endorsement_valid C blob e st er"
    and a: "TrustStore_add now (endorsed_key blob) ENDORSED st = (Inr r0, st1)"
    and r: "r = endorsed_record e (tr_endorsement_depth er + 1) r0"
    and s: "st' = put_record (sha256 (endorsed_key blob)) r st1"
    using add_endorsement_success [OF assms] by blast
  have "tr_trust_level r0 = ENDORSED"
    using TrustStore_add_Inr(2) [OF a] by (cases "tr_trust_level r0") (simp_all add: less_eq_TrustLevel_def)
  moreover have "TrustStore_get st' (sha256 (endorsed_key blob)) = Some r"
    by (simp add: s put_record_get)
  moreover have "TrustStore_get st e = Some er"
    using v by (simp add: endorsement_valid_def TrustStore_get_def)
  ultimately show ?thesis
    using v by (auto simp: endorsement_valid_def r endorsed_record_def)
qed

theorem endorsement_soundness_witness:
  "\<exists>r st'. TrustStore_add_endorsement toy 7 blob_ab id_a store_a = (Inr r, st') \<and>
     tr_trust_level r = ENDORSED \<and> tr_endorsement_depth r = 1 \<and> id_a \<in> set (tr_endorsers r)"
proof (rule blob_ab_valid)
  fix er assume er: "endorsement_valid toy blob_ab id_a store_a er" "tr_endorsement_depth er = 0"
  then obtain r st' where acc: "TrustStore_add_endorsement toy 7 blob_ab id_a store_a = (Inr r, st')"
    using add_endorsement_accept [OF er(1), of 7] by metis
  show ?thesis
    using endorsement_soundness [OF acc] acc er by (auto simp: endorsement_valid_def TrustStore_get_def)
qed

text \<open>C19: a genuine endorsement is accepted. The blob that the holder of a VERIFIED identity creates
  for another device makes a store that knows the holder record the device as ENDORSED, as long as
  the chain is within the depth limit.\<close>

theorem endorsement_completeness:
  assumes "ed_laws C" and "TrustStore_get st e = Some er"
    and "tr_ed25519_public er = ed_public_bytes C (ed_public_key C sk)"
    and "VERIFIED \<le> tr_trust_level er"
    and "tr_endorsement_depth er + 1 \<le> ts_max_endorsement_depth st"
    and "length e = 32" and "length t = 32" and "length k = 32"
  shows "\<exists>r st'. TrustStore_add_endorsement C now (create_endorsement C sk e t k) e st = (Inr r, st') \<and>
           TrustStore_get st' (sha256 k) = Some r \<and> tr_trust_level r = ENDORSED"
  by (rule endorsement_accepted [OF assms, of now]) (simp add: TrustStore_get_def dict_simps)

theorem endorsement_completeness_witness:
  "\<exists>r st'. TrustStore_add_endorsement toy 7 (create_endorsement toy key_a id_a id_b key_b) id_a store_a
        = (Inr r, st') \<and> TrustStore_get st' (sha256 key_b) = Some r \<and> tr_trust_level r = ENDORSED"
proof -
  have g: "TrustStore_get store_a id_a = Some (snd (hd (ts_records store_a)))"
    by (simp add: store_a_def TrustStore_get_def)
  show ?thesis
    by (rule endorsement_completeness [OF toy_ed_laws g])
       (simp_all add: toy_public_key_a store_a_def)
qed

text \<open>The blacklist plays no part in endorsements. Whether a blob is accepted, and the record
  it produces, do not depend on the blacklist: a blacklisted endorser still vouches for others.\<close>

theorem endorsement_ignores_blacklist:
  "fst (TrustStore_add_endorsement C now blob e (st\<lparr>ts_blacklist := B\<rparr>))
     = fst (TrustStore_add_endorsement C now blob e st)"
proof -
  have a: "fst (TrustStore_add now k l (st\<lparr>ts_blacklist := B\<rparr>)) = fst (TrustStore_add now k l st)" for k l
    by (simp add: TrustStore_add_def Let_def split: option.splits sum.splits)
  obtain x y z
    where "TrustStore_add now (endorsed_key (py_slice 0 ENDORSEMENT_BODY_SIZE blob)) ENDORSED
             (st\<lparr>ts_blacklist := B\<rparr>) = (x, y)"
      and "TrustStore_add now (endorsed_key (py_slice 0 ENDORSEMENT_BODY_SIZE blob)) ENDORSED st = (x, z)"
    using a [of "endorsed_key (py_slice 0 ENDORSEMENT_BODY_SIZE blob)" ENDORSED]
    by (metis prod.collapse)
  then show ?thesis
    by (cases x)
       (simp_all add: TrustStore_add_endorsement_def Let_def split: option.splits sum.splits bool.splits)
qed

text \<open>First use pins the key. A HELLO for a device on record succeeds exactly when it carries
  the recorded key, and in a strict store a HELLO from an unknown device is refused; in both cases
  the store is unchanged.\<close>

theorem hello_key_pinning:
  "(case TrustStore_get st d of
      Some r \<Rightarrow> TrustStore_process_hello now d k st =
                  (if k = tr_ed25519_public r then Inr r else Inl TrustError, st)
    | None \<Rightarrow> TrustStore_process_hello now d k (st\<lparr>ts_allow_tofu := False\<rparr>) =
                  (Inl TrustError, st\<lparr>ts_allow_tofu := False\<rparr>))"
  by (simp add: TrustStore_process_hello_def TrustStore_get_def split: option.splits)

text \<open>A first HELLO records the identity of its key, not the identity it claims. When an unknown
  device identity greets with a key of another identity, the store accepts it and files the
  record under the hash of the key; the claimed identity stays unknown.\<close>

theorem hello_claimed_identity_not_checked:
  assumes "TrustStore_get st d = None" and "ts_allow_tofu st" and "length k = 32" and "d \<noteq> sha256 k"
  shows "\<exists>r st'. TrustStore_process_hello now d k st = (Inr r, st') \<and>
           TrustStore_get st' (sha256 k) = Some r \<and> TrustStore_get st' d = None"
proof -
  obtain r st' where a: "TrustStore_add now k TOFU st = (Inr r, st')"
    using store_keyring.add_succeeds [OF assms(3)] by blast
  show ?thesis
    using a store_keyring.add_found [OF a] store_keyring.add_frame [OF a assms(4)] assms
    by (simp add: TrustStore_process_hello_def TrustStore_get_def)
qed

theorem hello_claimed_identity_not_checked_witness:
  "\<exists>r st'. TrustStore_process_hello 1 id_b key_a (TrustStore_new True TOFU 3) = (Inr r, st') \<and>
     TrustStore_get st' (sha256 key_a) = Some r \<and> TrustStore_get st' id_b = None"
  by (rule hello_claimed_identity_not_checked)
     (simp_all add: TrustStore_new_def TrustStore_get_def sha256_key_a)

end
