(* ===== verification/Trust_Encoding.thy ===== *)
theory Trust_Encoding
  imports Trust_Invariants
begin

text \<open>
  The text encodings of \<^verbatim>\<open>ztlnp/trust.py\<close>: hexadecimal, QR payloads and
  fingerprints. Parsing a QR payload inverts printing it and only ever returns a key with its
  own identity; two keys have the same fingerprint only if they have the same SHA-256 digest.
\<close>

section \<open>Hexadecimal\<close>

lemma hex_digit_value:
  assumes "n < 16"
  shows "hex_value (hex_digits ! n) = Some n" and "\<not> is_space (hex_digits ! n)"
    and "hex_digits ! n \<noteq> CHR '':''"
proof -
  have "\<forall>n \<in> set [0..<16]. hex_value (hex_digits ! n) = Some n \<and> \<not> is_space (hex_digits ! n) \<and>
      hex_digits ! n \<noteq> CHR '':''"
    by code_simp
  moreover have "n \<in> set [0..<16]" using assms by simp
  ultimately show "hex_value (hex_digits ! n) = Some n" and "\<not> is_space (hex_digits ! n)"
    and "hex_digits ! n \<noteq> CHR '':''"
    by blast+
qed

lemma hex_byte_digits: "unat (b :: byte) div 16 < 16" "unat (b :: byte) mod 16 < 16"
proof -
  have "unat b < 256" by (rule order_less_le_trans [OF unsigned_less]) simp
  then show "unat b div 16 < 16" by auto
qed simp

lemma from_hex_byte:
  "from_hex (hex_byte b @ cs) = bindE (from_hex cs) (\<lambda>bs. Inr (b # bs))"
proof -
  have "16 * (unat b div 16) + unat b mod 16 = unat b" by simp
  then have "(of_nat (16 * (unat b div 16) + unat b mod 16) :: byte) = b"
    by (simp only:) simp
  then show ?thesis
    by (simp add: hex_byte_def hex_digit_value hex_byte_digits)
qed

lemma from_hex_to_hex: "from_hex (to_hex bs) = Inr bs"
proof (induction bs)
  case (Cons b bs)
  have "to_hex (b # bs) = hex_byte b @ to_hex bs" by (simp add: to_hex_def)
  with Cons show ?case by (simp add: from_hex_byte)
qed (simp add: to_hex_def)

lemma to_hex_injective: "to_hex a = to_hex b \<longleftrightarrow> a = b"
  using from_hex_to_hex by (metis sum.inject(2))

lemma length_to_hex [simp]: "length (to_hex bs) = 2 * length bs"
  by (induction bs) (simp_all add: to_hex_def hex_byte_def)

lemma set_to_hex: "set (to_hex bs) \<subseteq> set hex_digits"
proof -
  have "length hex_digits = 16" by (simp add: hex_digits_def)
  then have "set (hex_byte b) \<subseteq> set hex_digits" for b
    using hex_byte_digits [of b] by (simp add: hex_byte_def)
  then show ?thesis by (auto simp: to_hex_def)
qed

lemma colon_not_hex [simp]: "CHR '':'' \<notin> set (to_hex bs)"
  using set_to_hex [of bs] by (auto simp: hex_digits_def)

section \<open>Splitting and joining\<close>

lemma split_on_none: "c \<notin> set p \<Longrightarrow> split_on c p = [p]"
  by (induction p) auto

lemma split_on_sep: "c \<notin> set p \<Longrightarrow> split_on c (p @ c # s) = p # split_on c s"
  by (induction p) auto

lemma filter_join: "(\<And>p. p \<in> set ps \<Longrightarrow> c \<notin> set p) \<Longrightarrow> filter (\<lambda>x. x \<noteq> c) (join_with c ps) = concat ps"
proof (induction c ps rule: join_with.induct)
  case (2 c p)
  then have "\<forall>x \<in> set p. x \<noteq> c" by auto
  then show ?case by simp
next
  case (3 c p q ps)
  then have "\<forall>x \<in> set p. x \<noteq> c" by auto
  with 3 show ?case by simp
qed simp

lemma length_join:
  "ps \<noteq> [] \<Longrightarrow> length (join_with c ps) = length (concat ps) + (length ps - 1)"
  by (induction c ps rule: join_with.induct) simp_all

lemma concat_groups:
  "4 * n \<le> length d \<Longrightarrow> concat (map (\<lambda>i. py_slice (4 * i) (4 * i + 4) d) [0..<n]) = take (4 * n) d"
proof (induction n)
  case (Suc n)
  have "take (4 * n) d @ py_slice (4 * n) (4 * n + 4) d = take (4 * Suc n) d"
    using slice_join [of 0 "4 * n" "4 * n + 4" d] by (simp add: slice_take add.commute)
  with Suc show ?case by simp
qed simp

section \<open>Fingerprints\<close>

lemma upper_hex_injective: "inj_on upper_char (set hex_digits)"
proof -
  have "\<forall>a \<in> set hex_digits. \<forall>b \<in> set hex_digits. upper_char a = upper_char b \<longrightarrow> a = b"
    by code_simp
  then show ?thesis by (simp add: inj_on_def)
qed

lemma upper_hex_no_colon: "CHR '':'' \<notin> set (map upper_char (to_hex bs))"
proof -
  have "CHR '':'' \<notin> upper_char ` set hex_digits"
    by code_simp
  then show ?thesis using set_to_hex [of bs] by auto
qed

lemma fingerprint_groups:
  "filter (\<lambda>x. x \<noteq> CHR '':'') (fingerprint_of k) = map upper_char (to_hex (sha256 k))"
  "length (fingerprint_of k) = 79"
proof -
  let ?d = "map upper_char (to_hex (sha256 k))"
  let ?ps = "map (\<lambda>i. py_slice (4 * i) (4 * i + 4) ?d) [0..<16]"
  have cat: "concat ?ps = ?d"
    using concat_groups [of 16 ?d] by simp
  have "set (py_slice i j ?d) \<subseteq> set ?d" for i j
    unfolding py_slice_def by (meson set_drop_subset set_take_subset subset_trans)
  then have "CHR '':'' \<notin> set p" if "p \<in> set ?ps" for p
    using that upper_hex_no_colon [of "sha256 k"] by auto
  then have "filter (\<lambda>x. x \<noteq> CHR '':'') (join_with CHR '':'' ?ps) = concat ?ps"
    by (rule filter_join)
  then show "filter (\<lambda>x. x \<noteq> CHR '':'') (fingerprint_of k) = ?d"
    unfolding fingerprint_of_def Let_def using cat by simp
  show "length (fingerprint_of k) = 79"
    unfolding fingerprint_of_def Let_def using length_join [of ?ps "CHR '':''"] cat by simp
qed

lemma fingerprint_eq_iff: "fingerprint_of k = fingerprint_of k' \<longleftrightarrow> sha256 k = sha256 k'"
proof
  assume "fingerprint_of k = fingerprint_of k'"
  then have "map upper_char (to_hex (sha256 k)) = map upper_char (to_hex (sha256 k'))"
    using fingerprint_groups(1) by metis
  moreover have "inj_on upper_char (set (to_hex (sha256 k)) \<union> set (to_hex (sha256 k')))"
    using upper_hex_injective by (rule inj_on_subset) (use set_to_hex in blast)
  ultimately have "to_hex (sha256 k) = to_hex (sha256 k')"
    by (simp add: inj_on_map_eq_map)
  then show "sha256 k = sha256 k'" by (simp add: to_hex_injective)
qed (simp add: fingerprint_of_def)

section \<open>Properties\<close>

text \<open>QR payloads round-trip. Parsing the payload printed for a 32-byte key and its identity
  returns that identity and key.\<close>

theorem qr_roundtrip:
  assumes "length k = 32"
  shows "parse_qr_payload (encode_qr_payload (sha256 k) k) = Inr (sha256 k, k)"
proof -
  have s: "encode_qr_payload (sha256 k) k =
      ''ZTLNP'' @ CHR '':'' # ''1'' @ CHR '':'' # to_hex (sha256 k) @ CHR '':'' # to_hex k
        @ CHR '':'' # to_hex (sha256 k)"
    by (simp add: encode_qr_payload_def)
  have "split_on CHR '':'' (encode_qr_payload (sha256 k) k) =
      [''ZTLNP'', ''1'', to_hex (sha256 k), to_hex k, to_hex (sha256 k)]"
    unfolding s by (subst split_on_sep, simp)+ (simp add: split_on_none)
  then show ?thesis
    using assms by (simp add: parse_qr_payload_def from_hex_to_hex)
qed

theorem qr_roundtrip_witness: "parse_qr_payload (encode_qr_payload id_a key_a) = Inr (id_a, key_a)"
  using qr_roundtrip [of key_a] by (simp add: sha256_key_a)

text \<open>QR payloads are self-certifying. Whatever string is scanned, if the parser returns an
  identity and a key, the key has 32 bytes and the identity is its SHA-256; otherwise the parser
  raises \<open>TrustError\<close> and nothing else.\<close>

theorem qr_parse_sound:
  "case parse_qr_payload s of
     Inr (d, k) \<Rightarrow> length k = 32 \<and> d = sha256 k
   | Inl e \<Rightarrow> e = TrustError"
  by (auto simp: parse_qr_payload_def Let_def split: sum.splits if_splits)

text \<open>Fingerprints identify keys up to SHA-256. A fingerprint has 79 characters, and two keys
  have the same fingerprint exactly when they have the same digest, so comparing the printed form
  is as strong as comparing device identities.\<close>

theorem fingerprint_identifies_key:
  "length (fingerprint_of k) = 79 \<and> (fingerprint_of k = fingerprint_of k' \<longleftrightarrow> sha256 k = sha256 k')"
  by (simp add: fingerprint_groups(2) fingerprint_eq_iff)

text \<open>Out-of-band verification. Confirming a fingerprint raises a known device to VERIFIED (or
  leaves it higher) exactly when the fingerprint is that of a key with the recorded digest; every
  other outcome leaves the store unchanged.\<close>

theorem verify_fingerprint_upgrades:
  "TrustStore_verify_fingerprint d (fingerprint_of k) st =
     (case TrustStore_get st d of
        Some r \<Rightarrow> (if sha256 k = sha256 (tr_ed25519_public r)
                   then (True, put_record d (r\<lparr>tr_trust_level := max (tr_trust_level r) VERIFIED\<rparr>) st)
                   else (False, st))
      | None \<Rightarrow> (False, st))"
  by (auto simp: TrustStore_verify_fingerprint_def TrustStore_get_def put_record_def
      fingerprint_eq_iff split: option.splits)

end
