(* ===== verification/Transport.thy ===== *)
theory Transport
  imports Prelude
begin

text \<open>
  \<^verbatim>\<open>ztlnp/transport.py\<close>: the in-process transport. Transports are mutable objects
  that refer to each other, so they live in a heap addressed by references. A blocking
  \<^verbatim>\<open>recv\<close> with nothing to receive is an outcome of its own (\<open>Blocks\<close>). The FIFO
  discipline is stated once, in the locale \<open>fifo_channel\<close>, and holds for both directions of a
  pair; the interleaving of a waiting reader with \<^verbatim>\<open>close\<close> is a step relation.
\<close>

section \<open>InProcessTransport\<close>

type_synonym tref = nat

record endpoint =
  ip_local_addr :: bytes
  ip_inbox :: "(bytes \<times> bytes) list"
  ip_closed :: bool
  ip_peer :: "tref option"

type_synonym heap = "tref \<Rightarrow> endpoint"

datatype 'a outcome = Returns 'a | Raises error | Blocks

definition InProcessTransport_new :: "bytes \<Rightarrow> endpoint" where
  "InProcessTransport_new local_addr =
     \<lparr>ip_local_addr = local_addr, ip_inbox = [], ip_closed = False, ip_peer = None\<rparr>"

text \<open>\<open>a\<close> and \<open>b\<close> are the references of the two new objects.\<close>

definition InProcessTransport_create_pair ::
  "tref \<Rightarrow> tref \<Rightarrow> bytes \<Rightarrow> bytes \<Rightarrow> heap \<Rightarrow> heap" where
  "InProcessTransport_create_pair a b addr_a addr_b h =
     (let h1 = h(a := InProcessTransport_new addr_a);
          h2 = h1(b := InProcessTransport_new addr_b);
          h3 = h2(a := (h2 a)\<lparr>ip_peer := Some b\<rparr>)
      in h3(b := (h3 b)\<lparr>ip_peer := Some a\<rparr>))"

definition inbox_put :: "tref \<Rightarrow> bytes \<times> bytes \<Rightarrow> heap \<Rightarrow> heap" where
  "inbox_put r m h = h(r := (h r)\<lparr>ip_inbox := ip_inbox (h r) @ [m]\<rparr>)"

definition InProcessTransport_send ::
  "tref \<Rightarrow> bytes \<Rightarrow> bytes \<Rightarrow> heap \<Rightarrow> unit result \<times> heap" where
  "InProcessTransport_send self dest_addr data h =
     (if ip_closed (h self) then (Inl TransportClosed, h)
      else case ip_peer (h self) of
        None \<Rightarrow> (Inl RuntimeError, h)
      | Some peer \<Rightarrow>
          (if ip_closed (h peer) then (Inl TransportClosed, h)
           else (Inr (), inbox_put peer (ip_local_addr (h self), data) h)))"

text \<open>
  \<^verbatim>\<open>queue.Queue.get\<close>: the head of the queue if there is one. On an empty queue it
  waits; with no other thread running, it ends with \<open>Empty\<close> after the timeout, at once raises
  \<open>ValueError\<close> for a negative timeout, and without a timeout it never returns.
\<close>

definition InProcessTransport_recv ::
  "tref \<Rightarrow> real option \<Rightarrow> heap \<Rightarrow> (bytes \<times> bytes) outcome \<times> heap" where
  "InProcessTransport_recv self timeout h =
     (if ip_closed (h self) then (Raises TransportClosed, h)
      else if (case timeout of None \<Rightarrow> False | Some t \<Rightarrow> t < 0) then (Raises ValueError, h)
      else case ip_inbox (h self) of
        m # ms \<Rightarrow> (Returns m, h(self := (h self)\<lparr>ip_inbox := ms\<rparr>))
      | [] \<Rightarrow> (case timeout of None \<Rightarrow> (Blocks, h) | Some t \<Rightarrow> (Raises TransportTimeout, h)))"

definition InProcessTransport_close :: "tref \<Rightarrow> heap \<Rightarrow> heap" where
  "InProcessTransport_close self h = h(self := (h self)\<lparr>ip_closed := True\<rparr>)"

definition InProcessTransport_local_addr :: "tref \<Rightarrow> heap \<Rightarrow> bytes" where
  "InProcessTransport_local_addr self h = ip_local_addr (h self)"

section \<open>Channels\<close>

text \<open>The messages that a sequence of operations puts into a channel and takes from it.\<close>

fun channel_run :: "('op \<Rightarrow> 'h \<Rightarrow> 'h) \<Rightarrow> 'op list \<Rightarrow> 'h \<Rightarrow> 'h" where
  "channel_run exec [] h = h"
| "channel_run exec (x # xs) h = channel_run exec xs (exec x h)"

fun channel_log :: "('op \<Rightarrow> 'h \<Rightarrow> 'h) \<Rightarrow> ('op \<Rightarrow> 'h \<Rightarrow> 'm list) \<Rightarrow> 'op list \<Rightarrow> 'h \<Rightarrow> 'm list" where
  "channel_log exec obs [] h = []"
| "channel_log exec obs (x # xs) h = obs x h @ channel_log exec obs xs (exec x h)"

text \<open>
  The contract of a reliable ordered channel: one operation takes what it delivers from the front
  of the queue and puts what it accepts at the back.
\<close>

locale fifo_channel =
  fixes exec :: "'op \<Rightarrow> 'h \<Rightarrow> 'h"
    and queue :: "'h \<Rightarrow> 'm list"
    and puts :: "'op \<Rightarrow> 'h \<Rightarrow> 'm list"
    and gets :: "'op \<Rightarrow> 'h \<Rightarrow> 'm list"
    and ok :: "'h \<Rightarrow> bool"
  assumes conserve: "ok h \<Longrightarrow> gets x h @ queue (exec x h) = queue h @ puts x h"
    and exec_ok: "ok h \<Longrightarrow> ok (exec x h)"
begin

lemma run_conserve:
  "ok h \<Longrightarrow> channel_log exec gets xs h @ queue (channel_run exec xs h) = queue h @ channel_log exec puts xs h"
proof (induction xs arbitrary: h)
  case Nil
  then show ?case by simp
next
  case (Cons x xs)
  have "channel_log exec gets xs (exec x h) @ queue (channel_run exec xs (exec x h))
      = queue (exec x h) @ channel_log exec puts xs (exec x h)"
    by (rule Cons.IH) (rule exec_ok [OF Cons.prems])
  with conserve [OF Cons.prems, of x] show ?case
    by simp
qed

lemma delivered_in_order:
  assumes "ok h" and "queue h = []"
  shows "take (length (channel_log exec gets xs h)) (channel_log exec puts xs h)
           = channel_log exec gets xs h"
  using run_conserve [OF assms(1), of xs] assms(2) by (metis append_Nil append_eq_conv_conj)

end

section \<open>A pair of endpoints as two channels\<close>

datatype pair_op = Send tref bytes bytes | Recv tref "real option" | Close tref

fun pair_exec :: "pair_op \<Rightarrow> heap \<Rightarrow> heap" where
  "pair_exec (Send r dest data) h = snd (InProcessTransport_send r dest data h)"
| "pair_exec (Recv r t) h = snd (InProcessTransport_recv r t h)"
| "pair_exec (Close r) h = InProcessTransport_close r h"

text \<open>What an operation of \<open>r\<close> has sent, as the peer will see it, and what it has received.\<close>

fun pair_sent :: "tref \<Rightarrow> pair_op \<Rightarrow> heap \<Rightarrow> (bytes \<times> bytes) list" where
  "pair_sent r (Send r' dest data) h =
     (if r' = r then case fst (InProcessTransport_send r dest data h) of
        Inr _ \<Rightarrow> [(ip_local_addr (h r), data)] | Inl _ \<Rightarrow> [] else [])"
| "pair_sent r _ h = []"

fun pair_received :: "tref \<Rightarrow> pair_op \<Rightarrow> heap \<Rightarrow> (bytes \<times> bytes) list" where
  "pair_received r (Recv r' t) h =
     (if r' = r then case fst (InProcessTransport_recv r t h) of Returns m \<Rightarrow> [m] | _ \<Rightarrow> [] else [])"
| "pair_received r _ h = []"

text \<open>\<open>b\<close> is the peer of \<open>a\<close> and of no other transport.\<close>

definition linked :: "tref \<Rightarrow> tref \<Rightarrow> heap \<Rightarrow> bool" where
  "linked a b h \<longleftrightarrow> ip_peer (h a) = Some b \<and> (\<forall>r. r \<noteq> a \<longrightarrow> ip_peer (h r) \<noteq> Some b)"

lemmas transport_defs = InProcessTransport_send_def InProcessTransport_recv_def
  InProcessTransport_close_def inbox_put_def

lemma pair_exec_peer [simp]: "ip_peer (pair_exec x h r) = ip_peer (h r)"
  by (cases x) (auto simp: transport_defs split: option.splits list.splits)

lemma pair_exec_linked: "linked a b h \<Longrightarrow> linked a b (pair_exec x h)"
  by (simp add: linked_def)

lemma pair_conserve:
  assumes "linked a b h"
  shows "pair_received b x h @ ip_inbox (pair_exec x h b) = ip_inbox (h b) @ pair_sent a x h"
  using assms
  by (cases x) (auto simp: transport_defs linked_def split: option.splits list.splits)

interpretation link: fifo_channel pair_exec "\<lambda>h. ip_inbox (h b)" "pair_sent a" "pair_received b" "linked a b"
  by unfold_locales (simp_all add: pair_conserve pair_exec_linked)

section \<open>A reader, a sender and close, interleaved\<close>

text \<open>
  One thread of endpoint \<open>a\<close> sends (its checks and its \<^verbatim>\<open>put\<close> are separate steps),
  one thread of endpoint \<open>b\<close> receives without a timeout, and any thread may close either end.
\<close>

datatype reader = Idle | Waiting | Got "bytes \<times> bytes" | Failed

record link_conf =
  lc_heap :: heap
  lc_sending :: "bytes option"
  lc_reader :: reader

inductive link_step :: "tref \<Rightarrow> tref \<Rightarrow> link_conf \<Rightarrow> link_conf \<Rightarrow> bool" for a b where
  send_check:
    "lc_sending c = None \<Longrightarrow> \<not> ip_closed (lc_heap c a) \<Longrightarrow> ip_peer (lc_heap c a) = Some b \<Longrightarrow>
     \<not> ip_closed (lc_heap c b) \<Longrightarrow> link_step a b c (c\<lparr>lc_sending := Some data\<rparr>)"
| send_put:
    "lc_sending c = Some data \<Longrightarrow>
     link_step a b c (c\<lparr>lc_sending := None,
       lc_heap := inbox_put b (ip_local_addr (lc_heap c a), data) (lc_heap c)\<rparr>)"
| recv_enter:
    "lc_reader c \<noteq> Waiting \<Longrightarrow>
     link_step a b c (c\<lparr>lc_reader := if ip_closed (lc_heap c b) then Failed else Waiting\<rparr>)"
| recv_get:
    "lc_reader c = Waiting \<Longrightarrow> ip_inbox (lc_heap c b) = m # ms \<Longrightarrow>
     link_step a b c (c\<lparr>lc_reader := Got m,
       lc_heap := (lc_heap c)(b := (lc_heap c b)\<lparr>ip_inbox := ms\<rparr>)\<rparr>)"
| close_a: "link_step a b c (c\<lparr>lc_heap := InProcessTransport_close a (lc_heap c)\<rparr>)"
| close_b: "link_step a b c (c\<lparr>lc_heap := InProcessTransport_close b (lc_heap c)\<rparr>)"

inductive_cases link_stepE: "link_step a b c c'"

definition stuck_reader :: "tref \<Rightarrow> link_conf \<Rightarrow> bool" where
  "stuck_reader b c \<longleftrightarrow> ip_closed (lc_heap c b) \<and> ip_inbox (lc_heap c b) = [] \<and>
     lc_sending c = None \<and> lc_reader c = Waiting"

lemma stuck_reader_step: "link_step a b c c' \<Longrightarrow> stuck_reader b c \<Longrightarrow> stuck_reader b c'"
  by (erule link_stepE) (auto simp: stuck_reader_def InProcessTransport_close_def)

section \<open>Properties\<close>

text \<open>The two endpoints of a fresh pair, at the references 0 and 1.\<close>

definition alice_bob :: heap where
  "alice_bob = InProcessTransport_create_pair 0 1 [97] [98]
     (\<lambda>_. InProcessTransport_new [])"

lemma alice_bob_linked: "linked 0 1 alice_bob" "linked 1 0 alice_bob" "ip_inbox (alice_bob r) = []"
  by (auto simp: alice_bob_def InProcessTransport_create_pair_def InProcessTransport_new_def
      Let_def linked_def)

text \<open>C26: an in-process pair is a reliable FIFO link. Whatever the two ends send, receive and close,
  in any order, the datagrams that an end has received so far are exactly the first ones that its
  peer has sent successfully, in order, each with the sender's address, and the rest waits in its
  inbox: nothing is lost, duplicated or reordered.\<close>

theorem transport_fifo:
  assumes "linked a b h" and "ip_inbox (h b) = []"
  shows "channel_log pair_exec (pair_sent a) xs h
           = channel_log pair_exec (pair_received b) xs h @ ip_inbox (channel_run pair_exec xs h b)"
  using link.run_conserve [OF assms(1), of xs] assms(2) by simp

theorem transport_fifo_witness:
  "channel_log pair_exec (pair_sent 0) [Send 0 [] [1], Send 0 [] [2], Recv 1 None, Close 1, Send 0 [] [3]] alice_bob
     = channel_log pair_exec (pair_received 1) [Send 0 [] [1], Send 0 [] [2], Recv 1 None, Close 1, Send 0 [] [3]] alice_bob
       @ [([97], [2])]"
proof -
  let ?xs = "[Send 0 [] [1], Send 0 [] [2], Recv 1 None, Close 1, Send 0 [] [3]]"
  have "ip_inbox (channel_run pair_exec ?xs alice_bob 1) = [([97], [2])]"
    by (simp add: alice_bob_def InProcessTransport_create_pair_def InProcessTransport_new_def
        Let_def transport_defs)
  then show ?thesis
    using transport_fifo [OF alice_bob_linked(1,3), of ?xs] by simp
qed

text \<open>Closing a transport does not wake a thread that waits in \<^verbatim>\<open>recv\<close>. Once the
  transport of a waiting reader is closed with an empty inbox and no send under way, the reader
  waits for ever, whatever the threads do.\<close>

theorem recv_not_woken_by_close:
  assumes "(link_step a b)\<^sup>*\<^sup>* c c'" and "ip_closed (lc_heap c b)" and "ip_inbox (lc_heap c b) = []"
    and "lc_sending c = None" and "lc_reader c = Waiting"
  shows "lc_reader c' = Waiting"
proof -
  have "stuck_reader b c'"
    using assms(1)
    by (induction rule: rtranclp_induct)
       (use assms(2-5) stuck_reader_step in \<open>auto simp: stuck_reader_def\<close>)
  then show ?thesis by (simp add: stuck_reader_def)
qed

theorem recv_not_woken_by_close_witness:
  "\<exists>c c'. (link_step 0 1)\<^sup>*\<^sup>* \<lparr>lc_heap = alice_bob, lc_sending = None, lc_reader = Idle\<rparr> c \<and>
     ip_closed (lc_heap c 1) \<and> link_step 0 1 c c' \<and> lc_reader c' = Waiting"
proof -
  let ?c0 = "\<lparr>lc_heap = alice_bob, lc_sending = None, lc_reader = Idle\<rparr>"
  let ?c1 = "?c0\<lparr>lc_reader := Waiting\<rparr>"
  let ?c2 = "?c1\<lparr>lc_heap := InProcessTransport_close 1 (lc_heap ?c1)\<rparr>"
  let ?c3 = "?c2\<lparr>lc_heap := InProcessTransport_close 0 (lc_heap ?c2)\<rparr>"
  have "\<not> ip_closed (alice_bob 1)"
    by (simp add: alice_bob_def InProcessTransport_create_pair_def InProcessTransport_new_def Let_def)
  then have "link_step 0 1 ?c0 ?c1"
    using link_step.recv_enter [of ?c0 0 1] by simp
  moreover have "link_step 0 1 ?c1 ?c2" by (rule link_step.close_b)
  ultimately have r: "(link_step 0 1)\<^sup>*\<^sup>* ?c0 ?c2" by (meson r_into_rtranclp rtranclp_trans)
  have s: "link_step 0 1 ?c2 ?c3" by (rule link_step.close_a)
  have "lc_reader ?c3 = Waiting"
    by (rule recv_not_woken_by_close [of 0 1 ?c2])
       (use s alice_bob_linked(3) in \<open>simp_all add: InProcessTransport_close_def r_into_rtranclp\<close>)
  then show ?thesis
    using r s by (intro exI [of _ ?c2] exI [of _ ?c3]) (simp add: InProcessTransport_close_def)
qed

end
