(* ===== verification/Router.thy ===== *)
theory Router
  imports Transport Sha256_Vectors
begin

text \<open>
  \<^verbatim>\<open>ztlnp/router.py\<close>: the route table, the choice of routes, route announcements and
  forwarding. Floating-point numbers are reals. Transports are references, compared by identity;
  the transport's \<^verbatim>\<open>send\<close> is an argument of \<open>Router_forward\<close>, which calls whatever
  transport the route names. Clock readings are arguments.
\<close>

section \<open>RouteEntry\<close>

record route_entry =
  re_device_id :: bytes
  re_transport :: tref
  re_next_hop_addr :: bytes
  re_hop_count :: int
  re_trust_score :: real
  re_latency_ms :: real
  re_last_seen :: real

definition RouteEntry_score :: "route_entry \<Rightarrow> real result" where
  "RouteEntry_score e =
     (let d = real_of_int (re_hop_count e) * max (re_latency_ms e) 1
      in if d = 0 then Inl ZeroDivisionError else Inr (re_trust_score e / d))"

definition RouteEntry_lt :: "route_entry \<Rightarrow> route_entry \<Rightarrow> bool result" where
  "RouteEntry_lt e f = bindE (RouteEntry_score e) (\<lambda>s. bindE (RouteEntry_score f) (\<lambda>t. Inr (s < t)))"

section \<open>RouteTable\<close>

record route_table =
  rt_stale_after :: real
  rt_routes :: "(bytes, route_entry list) dict"

definition RouteTable_new :: "real \<Rightarrow> route_table" where
  "RouteTable_new stale_after = \<lparr>rt_stale_after = stale_after, rt_routes = []\<rparr>"

text \<open>Same transport object and same next hop.\<close>

definition same_link :: "route_entry \<Rightarrow> route_entry \<Rightarrow> bool" where
  "same_link e f \<longleftrightarrow> re_transport e = re_transport f \<and> re_next_hop_addr e = re_next_hop_addr f"

fun replace_or_append :: "route_entry \<Rightarrow> route_entry list \<Rightarrow> route_entry list" where
  "replace_or_append entry [] = [entry]"
| "replace_or_append entry (existing # es) =
     (if same_link existing entry then entry # es else existing # replace_or_append entry es)"

definition RouteTable_all_routes :: "route_table \<Rightarrow> bytes \<Rightarrow> route_entry list" where
  "RouteTable_all_routes t device_id = dict_get_or [] (rt_routes t) device_id"

definition RouteTable_add :: "route_entry \<Rightarrow> route_table \<Rightarrow> route_table" where
  "RouteTable_add entry t =
     t\<lparr>rt_routes := dict_set (re_device_id entry)
         (replace_or_append entry (dict_get_or [] (rt_routes t) (re_device_id entry))) (rt_routes t)\<rparr>"

text \<open>\<^verbatim>\<open>max(valid, key=...)\<close>: the first entry with the greatest score.\<close>

fun max_score :: "route_entry \<Rightarrow> real \<Rightarrow> route_entry list \<Rightarrow> route_entry result" where
  "max_score b s [] = Inr b"
| "max_score b s (e # es) =
     bindE (RouteEntry_score e) (\<lambda>s'. if s' > s then max_score e s' es else max_score b s es)"

definition fresh_routes :: "real \<Rightarrow> route_table \<Rightarrow> bytes \<Rightarrow> route_entry list" where
  "fresh_routes now t device_id =
     filter (\<lambda>e. now - re_last_seen e \<le> rt_stale_after t) (dict_get_or [] (rt_routes t) device_id)"

definition RouteTable_best :: "real \<Rightarrow> route_table \<Rightarrow> bytes \<Rightarrow> route_entry option result" where
  "RouteTable_best now t device_id =
     (case fresh_routes now t device_id of
        [] \<Rightarrow> Inr None
      | e # es \<Rightarrow> bindE (RouteEntry_score e) (\<lambda>s. bindE (max_score e s es) (\<lambda>b. Inr (Some b))))"

definition RouteTable_remove :: "bytes \<Rightarrow> route_table \<Rightarrow> route_table" where
  "RouteTable_remove device_id t = t\<lparr>rt_routes := dict_del device_id (rt_routes t)\<rparr>"

definition RouteTable_known_destinations :: "route_table \<Rightarrow> bytes list" where
  "RouteTable_known_destinations t = dict_keys (rt_routes t)"

section \<open>Router\<close>

record router =
  ro_local_id :: bytes
  ro_table :: route_table
  ro_max_advertised_trust :: real

definition ENTRY_SIZE :: nat where "ENTRY_SIZE = 34"

definition Router_new :: "bytes \<Rightarrow> route_table option \<Rightarrow> real \<Rightarrow> router result" where
  "Router_new local_device_id table max_advertised_trust =
     (if length local_device_id \<noteq> 32 then Inl ValueError
      else Inr \<lparr>ro_local_id = local_device_id,
                ro_table = (case table of None \<Rightarrow> RouteTable_new 300 | Some t \<Rightarrow> t),
                ro_max_advertised_trust = max 0 (min 1 max_advertised_trust)\<rparr>)"

definition Router_add_direct_route ::
  "real \<Rightarrow> bytes \<Rightarrow> tref \<Rightarrow> bytes \<Rightarrow> real \<Rightarrow> real \<Rightarrow> router \<Rightarrow> route_entry \<times> router" where
  "Router_add_direct_route now device_id transport next_hop_addr trust_score latency_ms r =
     (let entry = \<lparr>re_device_id = device_id, re_transport = transport, re_next_hop_addr = next_hop_addr,
                   re_hop_count = 1, re_trust_score = trust_score, re_latency_ms = latency_ms,
                   re_last_seen = now\<rparr>
      in (entry, r\<lparr>ro_table := RouteTable_add entry (ro_table r)\<rparr>))"

definition Router_get_route :: "real \<Rightarrow> router \<Rightarrow> bytes \<Rightarrow> route_entry result" where
  "Router_get_route now r device_id =
     bindE (RouteTable_best now (ro_table r) device_id) (\<lambda>x.
       case x of None \<Rightarrow> Inl RoutingError | Some e \<Rightarrow> Inr e)"

definition Router_has_route :: "real \<Rightarrow> router \<Rightarrow> bytes \<Rightarrow> bool result" where
  "Router_has_route now r device_id =
     bindE (RouteTable_best now (ro_table r) device_id) (\<lambda>x. Inr (x \<noteq> None))"

definition Router_forward ::
  "(tref \<Rightarrow> bytes \<Rightarrow> bytes \<Rightarrow> 'w \<Rightarrow> unit result \<times> 'w) \<Rightarrow> real \<Rightarrow> bytes \<Rightarrow> bytes \<Rightarrow> router \<Rightarrow> 'w
     \<Rightarrow> unit result \<times> 'w" where
  "Router_forward send now raw_packet dest_device_id r w =
     (case Router_get_route now r dest_device_id of
        Inl e \<Rightarrow> (Inl e, w)
      | Inr entry \<Rightarrow> send (re_transport entry) (re_next_hop_addr entry) raw_packet w)"

definition Router_max_advertised_trust :: "router \<Rightarrow> real" where
  "Router_max_advertised_trust r = ro_max_advertised_trust r"

definition Router_local_device_id :: "router \<Rightarrow> bytes" where
  "Router_local_device_id r = ro_local_id r"

definition Router_route_table :: "router \<Rightarrow> route_table" where
  "Router_route_table r = ro_table r"

section \<open>Announcements\<close>

text \<open>The loop over the known destinations; \<open>now_of\<close> is the clock reading at each look-up.\<close>

fun advertised_routes :: "(bytes \<Rightarrow> real) \<Rightarrow> route_table \<Rightarrow> bytes list \<Rightarrow> (bytes \<times> int) list result" where
  "advertised_routes now_of t [] = Inr []"
| "advertised_routes now_of t (d # ds) =
     bindE (RouteTable_best (now_of d) t d) (\<lambda>route.
     bindE (advertised_routes now_of t ds) (\<lambda>rest.
       Inr (case route of None \<Rightarrow> rest | Some e \<Rightarrow> (d, re_hop_count e + 1) # rest)))"

text \<open>Keep the lowest hop count of each destination, at the place of its first occurrence.\<close>

definition keep_lowest :: "bytes \<times> int \<Rightarrow> (bytes, int) dict \<Rightarrow> (bytes, int) dict" where
  "keep_lowest e seen =
     (case dict_get seen (fst e) of
        None \<Rightarrow> dict_set (fst e) (snd e) seen
      | Some h \<Rightarrow> (if snd e < h then dict_set (fst e) (snd e) seen else seen))"

definition pack_route :: "bytes \<times> int \<Rightarrow> bytes result" where
  "pack_route e = bindE (pack_uint 2 (min (snd e) 65535)) (\<lambda>h. Inr (pack_s 32 (fst e) @ h))"

fun pack_routes :: "(bytes \<times> int) list \<Rightarrow> bytes result" where
  "pack_routes [] = Inr []"
| "pack_routes (e # es) = bindE (pack_route e) (\<lambda>b. bindE (pack_routes es) (\<lambda>bs. Inr (b @ bs)))"

definition Router_announced ::
  "(bytes \<Rightarrow> real) \<Rightarrow> (bytes \<times> int) list \<Rightarrow> router \<Rightarrow> (bytes, int) dict result" where
  "Router_announced now_of extra_destinations r =
     (let extra = map (\<lambda>e. (fst e, snd e + 1))
                    (filter (\<lambda>e. fst e \<noteq> ro_local_id r) extra_destinations)
      in bindE (advertised_routes now_of (ro_table r) (RouteTable_known_destinations (ro_table r)))
           (\<lambda>known. Inr (fold keep_lowest ((ro_local_id r, 0) # extra @ known) [])))"

definition Router_build_announce_payload ::
  "(bytes \<Rightarrow> real) \<Rightarrow> (bytes \<times> int) list \<Rightarrow> router \<Rightarrow> bytes result" where
  "Router_build_announce_payload now_of extra_destinations r =
     bindE (Router_announced now_of extra_destinations r) pack_routes"

text \<open>\<^verbatim>\<open>struct.unpack_from("!32sH", payload, offset)\<close> at each multiple of 34.\<close>

definition unpack_route :: "bytes \<Rightarrow> nat \<Rightarrow> bytes \<times> int" where
  "unpack_route payload offset =
     (py_slice offset (offset + 32) payload, be_int (py_slice (offset + 32) (offset + 34) payload))"

definition unpack_routes :: "bytes \<Rightarrow> (bytes \<times> int) list" where
  "unpack_routes payload =
     map (\<lambda>i. unpack_route payload (i * ENTRY_SIZE)) [0..<length payload div ENTRY_SIZE]"

definition learned_entry :: "router \<Rightarrow> real \<Rightarrow> tref \<Rightarrow> bytes \<Rightarrow> real \<Rightarrow> bytes \<times> int \<Rightarrow> route_entry" where
  "learned_entry r now via_transport via_addr sender_trust_score e =
     (let capped_sender_trust = min sender_trust_score (ro_max_advertised_trust r);
          path_trust = capped_sender_trust * (9 / 10) ^ nat (snd e)
      in \<lparr>re_device_id = fst e, re_transport = via_transport, re_next_hop_addr = via_addr,
          re_hop_count = snd e + 1, re_trust_score = min path_trust 1, re_latency_ms = 0,
          re_last_seen = now\<rparr>)"

text \<open>\<open>clock i\<close> is the reading at which the entry number \<open>i\<close> of the payload is recorded.\<close>

definition Router_process_announce_payload ::
  "(nat \<Rightarrow> real) \<Rightarrow> bytes \<Rightarrow> tref \<Rightarrow> bytes \<Rightarrow> real \<Rightarrow> router \<Rightarrow> route_entry list result \<times> router" where
  "Router_process_announce_payload clock payload via_transport via_addr sender_trust_score r =
     (if length payload mod ENTRY_SIZE \<noteq> 0 then (Inl RoutingError, r)
      else let updated = map (\<lambda>(i, e). learned_entry r (clock i) via_transport via_addr sender_trust_score e)
                 (filter (\<lambda>(i, e). fst e \<noteq> ro_local_id r) (enumerate 0 (unpack_routes payload)))
           in (Inr updated, r\<lparr>ro_table := fold RouteTable_add updated (ro_table r)\<rparr>))"

section \<open>Tables that the router's operations build\<close>

datatype router_op =
    Op_direct real bytes tref bytes real real
  | Op_announce "nat \<Rightarrow> real" bytes tref bytes real
  | Op_remove bytes

fun router_exec :: "router_op \<Rightarrow> router \<Rightarrow> router" where
  "router_exec (Op_direct now d t a s l) r = snd (Router_add_direct_route now d t a s l r)"
| "router_exec (Op_announce clock p t a s) r = snd (Router_process_announce_payload clock p t a s r)"
| "router_exec (Op_remove d) r = r\<lparr>ro_table := RouteTable_remove d (ro_table r)\<rparr>"

fun router_run :: "router_op list \<Rightarrow> router \<Rightarrow> router" where
  "router_run [] r = r"
| "router_run (x # xs) r = router_run xs (router_exec x r)"

abbreviation link_of :: "route_entry \<Rightarrow> tref \<times> bytes" where
  "link_of e \<equiv> (re_transport e, re_next_hop_addr e)"

definition table_wf :: "route_table \<Rightarrow> bool" where
  "table_wf t \<longleftrightarrow> dict_ok (rt_routes t) \<and>
     (\<forall>d. distinct (map link_of (RouteTable_all_routes t d)) \<and>
          (\<forall>e \<in> set (RouteTable_all_routes t d). re_device_id e = d \<and> 1 \<le> re_hop_count e))"

lemma replace_links:
  "set (map link_of (replace_or_append e es)) = insert (link_of e) (set (map link_of es))"
  by (induction es) (auto simp: same_link_def)

lemma replace_distinct:
  "distinct (map link_of es) \<Longrightarrow> distinct (map link_of (replace_or_append e es))"
proof (induction es)
  case (Cons f es)
  then show ?case
    using replace_links [of e es] by (auto simp: same_link_def)
qed simp

lemma replace_set:
  "distinct (map link_of es) \<Longrightarrow>
   set (replace_or_append e es) = insert e {f \<in> set es. link_of f \<noteq> link_of e}"
proof (induction es)
  case (Cons f es)
  have "link_of g \<noteq> link_of f" if "g \<in> set es" for g
    using Cons.prems that by (auto simp: rev_image_eqI)
  then show ?case
    using Cons by (auto simp: same_link_def)
qed simp

lemma all_routes_add:
  "RouteTable_all_routes (RouteTable_add e t) d =
     (if d = re_device_id e then replace_or_append e (RouteTable_all_routes t d)
      else RouteTable_all_routes t d)"
  by (simp add: RouteTable_all_routes_def RouteTable_add_def dict_simps)

lemma RouteTable_add_wf:
  assumes "table_wf t" and "1 \<le> re_hop_count e"
  shows "table_wf (RouteTable_add e t)"
proof -
  have "dict_ok (rt_routes (RouteTable_add e t))"
    using assms(1) by (simp add: table_wf_def RouteTable_add_def)
  then show ?thesis
    using assms by (auto simp: table_wf_def all_routes_add replace_distinct replace_set)
qed

lemma RouteTable_remove_wf: "table_wf t \<Longrightarrow> table_wf (RouteTable_remove d t)"
  by (auto simp: table_wf_def RouteTable_remove_def RouteTable_all_routes_def dict_get_or_def dict_simps
      split: option.splits)

lemma fold_add_wf:
  "table_wf t \<Longrightarrow> (\<forall>e \<in> set es. 1 \<le> re_hop_count e) \<Longrightarrow> table_wf (fold RouteTable_add es t)"
  by (induction es arbitrary: t) (simp_all add: RouteTable_add_wf)

lemma unpack_routes_hops: "(d, h) \<in> set (unpack_routes payload) \<Longrightarrow> 0 \<le> h \<and> h < 65536"
proof -
  assume "(d, h) \<in> set (unpack_routes payload)"
  then obtain i where h: "h = be_int (py_slice (i * 34 + 32) (i * 34 + 34) payload)"
    by (auto simp: unpack_routes_def unpack_route_def ENTRY_SIZE_def)
  have "length (py_slice (i * 34 + 32) (i * 34 + 34) payload) \<le> 2"
    by (simp add: py_slice_def)
  then have "(256 :: int) ^ length (py_slice (i * 34 + 32) (i * 34 + 34) payload) \<le> 256 ^ 2"
    by (rule power_increasing) simp
  with be_int_bound [of "py_slice (i * 34 + 32) (i * 34 + 34) payload"]
  have "h < 256 ^ 2" unfolding h by linarith
  then show ?thesis by (simp add: h)
qed

lemma learned_fields [simp]:
  "re_device_id (learned_entry r now t a s e) = fst e" "re_hop_count (learned_entry r now t a s e) = snd e + 1"
  "link_of (learned_entry r now t a s e) = (t, a)"
  by (simp_all add: learned_entry_def Let_def)

lemma process_announce_success:
  assumes "Router_process_announce_payload clock payload t a s r = (Inr updated, r')"
  shows "r' = r\<lparr>ro_table := fold RouteTable_add updated (ro_table r)\<rparr>"
    and "e \<in> set updated \<Longrightarrow> \<exists>i d. d \<in> set (unpack_routes payload) \<and> fst d \<noteq> ro_local_id r \<and>
           e = learned_entry r (clock i) t a s d"
    and "d \<in> set (unpack_routes payload) \<Longrightarrow> fst d \<noteq> ro_local_id r \<Longrightarrow>
           \<exists>i. learned_entry r (clock i) t a s d \<in> set updated"
proof -
  let ?u = "map (\<lambda>(i, e). learned_entry r (clock i) t a s e)
    (filter (\<lambda>(i, e). fst e \<noteq> ro_local_id r) (enumerate 0 (unpack_routes payload)))"
  have u: "updated = ?u" and r': "r' = r\<lparr>ro_table := fold RouteTable_add updated (ro_table r)\<rparr>"
    using assms by (auto simp: Router_process_announce_payload_def Let_def split: if_splits)
  show "r' = r\<lparr>ro_table := fold RouteTable_add updated (ro_table r)\<rparr>" by (rule r')
  show "\<exists>i d. d \<in> set (unpack_routes payload) \<and> fst d \<noteq> ro_local_id r \<and>
      e = learned_entry r (clock i) t a s d" if upd: "e \<in> set updated"
  proof -
    obtain i d where "(i, d) \<in> set (enumerate 0 (unpack_routes payload))" and "fst d \<noteq> ro_local_id r"
      and e: "e = learned_entry r (clock i) t a s d"
      using upd unfolding u by auto
    then have "d \<in> set (unpack_routes payload)" by (auto simp: in_set_enumerate_eq)
    with e \<open>fst d \<noteq> _\<close> show ?thesis by blast
  qed
  show "\<exists>i. learned_entry r (clock i) t a s d \<in> set updated"
    if "d \<in> set (unpack_routes payload)" and "fst d \<noteq> ro_local_id r"
  proof -
    obtain i where "i < length (unpack_routes payload)" and "d = unpack_routes payload ! i"
      using \<open>d \<in> set _\<close> by (auto simp: in_set_conv_nth)
    then have "(i, d) \<in> set (enumerate 0 (unpack_routes payload))" by (simp add: in_set_enumerate_eq)
    then have "learned_entry r (clock i) t a s d \<in> set ?u" using that(2) by (auto intro: rev_image_eqI)
    then show ?thesis unfolding u by blast
  qed
qed

lemma router_exec_wf: "table_wf (ro_table r) \<Longrightarrow> table_wf (ro_table (router_exec x r))"
proof (cases x)
  case (Op_direct now d t a s l)
  then show "table_wf (ro_table r) \<Longrightarrow> ?thesis"
    by (simp add: Router_add_direct_route_def Let_def RouteTable_add_wf)
next
  case (Op_announce clock p t a s)
  assume wf: "table_wf (ro_table r)"
  obtain y r' where p: "Router_process_announce_payload clock p t a s r = (y, r')" by fastforce
  show ?thesis
  proof (cases y)
    case (Inl e)
    then show ?thesis using p wf Op_announce
      by (auto simp: Router_process_announce_payload_def Let_def split: if_splits)
  next
    case (Inr updated)
    note s = process_announce_success [OF p [unfolded Inr]]
    have "1 \<le> re_hop_count e" if "e \<in> set updated" for e
      using s(2) [OF that] unpack_routes_hops by force
    then show ?thesis using wf Op_announce p s(1) by (simp add: fold_add_wf)
  qed
qed (simp add: RouteTable_remove_wf)

lemma router_run_wf: "table_wf (ro_table r) \<Longrightarrow> table_wf (ro_table (router_run xs r))"
  by (induction xs arbitrary: r) (simp_all add: router_exec_wf)

lemma RouteTable_new_wf: "table_wf (RouteTable_new s)"
  by (simp add: table_wf_def RouteTable_new_def RouteTable_all_routes_def)

section \<open>The best route\<close>

definition quality :: "route_entry \<Rightarrow> real" where
  "quality e = re_trust_score e / (real_of_int (re_hop_count e) * max (re_latency_ms e) 1)"

lemma score_quality: "1 \<le> re_hop_count e \<Longrightarrow> RouteEntry_score e = Inr (quality e)"
proof -
  assume "1 \<le> re_hop_count e"
  then have "0 < real_of_int (re_hop_count e) * max (re_latency_ms e) 1"
    by (intro mult_pos_pos) auto
  then show ?thesis unfolding RouteEntry_score_def quality_def Let_def by (metis less_irrefl)
qed

lemma max_score_best:
  "(\<forall>e \<in> set es. 1 \<le> re_hop_count e) \<Longrightarrow>
   \<exists>b'. max_score b (quality b) es = Inr b' \<and> b' \<in> insert b (set es) \<and>
        (\<forall>e \<in> insert b (set es). quality e \<le> quality b')"
proof (induction es arbitrary: b)
  case Nil
  then show ?case by simp
next
  case (Cons e es)
  have s: "RouteEntry_score e = Inr (quality e)" using Cons.prems by (simp add: score_quality)
  show ?case
    using Cons.IH [of e] Cons.IH [of b] Cons.prems
    by (cases "quality e > quality b") (force simp: s)+
qed

lemma RouteTable_best_cases:
  assumes "table_wf t"
  obtains (none) "RouteTable_best now t d = Inr None" and "fresh_routes now t d = []"
  | (some) e where "RouteTable_best now t d = Inr (Some e)" and "e \<in> set (fresh_routes now t d)"
      and "\<forall>f \<in> set (fresh_routes now t d). quality f \<le> quality e"
proof (cases "fresh_routes now t d")
  case Nil
  then show ?thesis using none by (simp add: RouteTable_best_def)
next
  case (Cons e es)
  have "set (fresh_routes now t d) \<subseteq> set (RouteTable_all_routes t d)"
    by (auto simp: fresh_routes_def RouteTable_all_routes_def)
  then have hops: "\<forall>f \<in> set (e # es). 1 \<le> re_hop_count f"
    using assms unfolding table_wf_def Cons by blast
  then obtain b where "max_score e (quality e) es = Inr b" and "b \<in> insert e (set es)"
    and "\<forall>f \<in> insert e (set es). quality f \<le> quality b"
    using max_score_best [of es e] by auto
  with hops show ?thesis
    using some by (simp add: RouteTable_best_def Cons score_quality)
qed

section \<open>The wire format of announcements\<close>

lemma pack_route_ok:
  "length d = 32 \<Longrightarrow> 0 \<le> h \<Longrightarrow> pack_route (d, h) = Inr (d @ be_bytes 2 (min h 65535))"
  by (simp add: pack_route_def pack_uint_ok del: be_bytes.simps)

lemma unpack_routes_Cons:
  assumes "length b = 34"
  shows "unpack_routes (b @ bs) = unpack_route b 0 # unpack_routes bs"
proof -
  have shift: "unpack_route (b @ bs) (Suc i * 34) = unpack_route bs (i * 34)" for i
    using assms by (simp add: unpack_route_def slice_append2 add.commute)
  have first: "unpack_route (b @ bs) 0 = unpack_route b 0"
    using assms by (simp add: unpack_route_def slice_append1)
  have "[0..<Suc n] = 0 # map Suc [0..<n]" for n
    by (simp add: upt_conv_Cons map_Suc_upt del: upt_Suc)
  moreover have "length (b @ bs) div 34 = Suc (length bs div 34)" using assms by simp
  ultimately show ?thesis
    using first shift by (simp only: unpack_routes_def ENTRY_SIZE_def list.map map_map comp_def mult_0)
qed

lemma unpack_pack_routes:
  "(\<forall>e \<in> set es. length (fst e) = 32 \<and> 0 \<le> snd e) \<Longrightarrow>
   \<exists>bs. pack_routes es = Inr bs \<and> length bs = 34 * length es \<and>
        unpack_routes bs = map (\<lambda>e. (fst e, min (snd e) 65535)) es"
proof (induction es)
  case Nil
  then show ?case by (simp add: unpack_routes_def)
next
  case (Cons e es)
  obtain d h where e: "e = (d, h)" by fastforce
  obtain bs where bs: "pack_routes es = Inr bs" "length bs = 34 * length es"
    "unpack_routes bs = map (\<lambda>e. (fst e, min (snd e) 65535)) es"
    using Cons by auto
  let ?b = "d @ be_bytes 2 (min h 65535)"
  have p: "pack_route e = Inr ?b" using Cons.prems by (simp add: e pack_route_ok del: be_bytes.simps)
  have "be_int (be_bytes 2 (min h 65535)) = min h 65535"
    using Cons.prems by (intro be_int_be_bytes) (auto simp: e)
  then have "unpack_route ?b 0 = (d, min h 65535)"
    using Cons.prems by (simp add: e unpack_route_def py_slice_def del: be_bytes.simps be_int.simps)
  moreover have "length ?b = 34" using Cons.prems by (simp add: e del: be_bytes.simps)
  ultimately show ?case
    using unpack_routes_Cons [of ?b bs] bs p by (simp add: e del: be_bytes.simps)
qed

lemma keep_lowest_get:
  "dict_get (fold keep_lowest es seen) d = Some h \<Longrightarrow>
     dict_get seen d = Some h \<or> (d, h) \<in> set es"
proof (induction es arbitrary: seen)
  case (Cons e es)
  have "dict_get seen d = Some h \<or> e = (d, h)" if "dict_get (keep_lowest e seen) d = Some h"
    using that by (cases e) (auto simp: keep_lowest_def dict_simps split: option.splits if_splits)
  with Cons.IH [of "keep_lowest e seen"] Cons.prems show ?case by auto
qed simp

lemma keep_lowest_le:
  "(d, h) \<in> set es \<or> dict_get seen d = Some h \<Longrightarrow>
     \<exists>h'. dict_get (fold keep_lowest es seen) d = Some h' \<and> h' \<le> h"
proof (induction es arbitrary: seen h)
  case Nil
  then show ?case by simp
next
  case (Cons e es)
  have "\<exists>h1. dict_get (keep_lowest e seen) d = Some h1 \<and> h1 \<le> h" if "(d, h) \<notin> set es"
    using Cons.prems that by (auto simp: keep_lowest_def dict_simps split: option.splits)
  then show ?case
    using Cons.IH [of _ "keep_lowest e seen"] by (fastforce intro: order_trans)
qed

lemma advertised_routes_In:
  "advertised_routes now_of t ds = Inr known \<Longrightarrow>
   (d, h) \<in> set known \<longleftrightarrow> d \<in> set ds \<and> (\<exists>e. RouteTable_best (now_of d) t d = Inr (Some e) \<and> h = re_hop_count e + 1)"
  by (induction ds arbitrary: known) (auto simp: bindE_eq_Inr split: option.splits)

lemma fold_keep_lowest_ok: "dict_ok seen \<Longrightarrow> dict_ok (fold keep_lowest es seen)"
  by (induction es arbitrary: seen) (auto simp: keep_lowest_def split: option.splits)

lemma announced_payload:
  assumes "Router_build_announce_payload now_of [] r = Inr payload"
    and "\<forall>x \<in> set (RouteTable_known_destinations (ro_table r)). length x = 32"
    and "table_wf (ro_table r)" and "length (ro_local_id r) = 32"
    and "RouteTable_best (now_of d) (ro_table r) d = Inr (Some e)" and "d \<noteq> ro_local_id r"
  shows "(d, min (re_hop_count e + 1) 65535) \<in> set (unpack_routes payload)"
    and "(ro_local_id r, 0) \<in> set (unpack_routes payload)"
proof -
  let ?keys = "RouteTable_known_destinations (ro_table r)"
  from assms(1) obtain known where known: "advertised_routes now_of (ro_table r) ?keys = Inr known"
    and pack: "pack_routes (fold keep_lowest ((ro_local_id r, 0) # known) []) = Inr payload"
    by (auto simp: Router_build_announce_payload_def Router_announced_def Let_def bindE_eq_Inr)
  let ?seen = "fold keep_lowest ((ro_local_id r, 0) # known) []"
  have hop: "1 \<le> re_hop_count e'" if "RouteTable_best (now_of x) (ro_table r) x = Inr (Some e')" for x e'
    using assms(3)
  proof (cases rule: RouteTable_best_cases [where now = "now_of x" and d = x])
    case (some e0)
    then show ?thesis
      using that assms(3) by (auto simp: table_wf_def fresh_routes_def RouteTable_all_routes_def)
  qed (use that in simp)
  have known_hop: "length x = 32 \<and> 2 \<le> h" if "(x, h) \<in> set known" for x h
    using that advertised_routes_In [OF known] assms(2) hop by fastforce
  have seen_in: "(x, h) \<in> set ((ro_local_id r, 0) # known)" if "dict_get ?seen x = Some h" for x h
    using keep_lowest_get [of "(ro_local_id r, 0) # known" "[]" x h] that by auto
  have ok: "dict_ok ?seen" by (rule fold_keep_lowest_ok) simp
  have wf: "\<forall>e \<in> set ?seen. length (fst e) = 32 \<and> 0 \<le> snd e"
    using seen_in known_hop assms(4) ok by (fastforce simp: map_of_eq_Some_iff)
  from unpack_pack_routes [OF wf] pack
  have un: "unpack_routes payload = map (\<lambda>e. (fst e, min (snd e) 65535)) ?seen" by simp
  have "d \<in> set ?keys"
  proof -
    have "dict_get (rt_routes (ro_table r)) d \<noteq> None"
      using assms(5) by (auto simp: RouteTable_best_def fresh_routes_def dict_get_or_def split: option.splits)
    then show ?thesis by (simp add: RouteTable_known_destinations_def dict_get_None)
  qed
  then have dk: "(d, re_hop_count e + 1) \<in> set known"
    using advertised_routes_In [OF known, of d] assms(5) by simp
  have unique: "h = re_hop_count e + 1" if "(d, h) \<in> set known" for h
    using that advertised_routes_In [OF known, of d h] assms(5) by simp
  obtain h where h: "dict_get ?seen d = Some h"
    using keep_lowest_le [of d _ "(ro_local_id r, 0) # known" "[]"] dk by auto
  with seen_in [OF h] unique assms(6) have "dict_get ?seen d = Some (re_hop_count e + 1)" by auto
  then show "(d, min (re_hop_count e + 1) 65535) \<in> set (unpack_routes payload)"
    unfolding un by (force dest: map_of_SomeD)
  obtain h0 where h0: "dict_get ?seen (ro_local_id r) = Some h0" "h0 \<le> 0"
    using keep_lowest_le [of "ro_local_id r" 0 "(ro_local_id r, 0) # known" "[]"] by auto
  with seen_in [OF h0(1)] known_hop have "dict_get ?seen (ro_local_id r) = Some 0" by fastforce
  then show "(ro_local_id r, 0) \<in> set (unpack_routes payload)"
    unfolding un by (force dest: map_of_SomeD)
qed

section \<open>Properties\<close>

lemma fold_add_routes:
  "table_wf t \<Longrightarrow> (\<forall>e \<in> set es. 1 \<le> re_hop_count e) \<Longrightarrow>
   f \<in> set (RouteTable_all_routes (fold RouteTable_add es t) d) \<Longrightarrow>
   f \<in> set (RouteTable_all_routes t d) \<or> (f \<in> set es \<and> re_device_id f = d)"
proof (induction es arbitrary: t)
  case (Cons e es)
  have wf: "table_wf (RouteTable_add e t)"
    using Cons.prems by (simp add: RouteTable_add_wf)
  have "distinct (map link_of (RouteTable_all_routes t d))"
    using Cons.prems(1) by (simp add: table_wf_def)
  then have "f = e \<and> re_device_id e = d \<or> f \<in> set (RouteTable_all_routes t d)"
    if "f \<in> set (RouteTable_all_routes (RouteTable_add e t) d)"
    using that by (auto simp: all_routes_add replace_set split: if_splits)
  with Cons.IH [OF wf] Cons.prems show ?case by auto
qed simp

lemma fold_add_frame:
  "(\<forall>e \<in> set es. re_device_id e \<noteq> d) \<Longrightarrow>
   RouteTable_all_routes (fold RouteTable_add es t) d = RouteTable_all_routes t d"
  by (induction es arbitrary: t) (auto simp: all_routes_add)

text \<open>A router with one neighbour, at address 7 of transport 1.\<close>

definition hub :: router where
  "hub = snd (Router_add_direct_route 0 id_b 1 [7] 1 20
     \<lparr>ro_local_id = id_a, ro_table = RouteTable_new 300, ro_max_advertised_trust = 95 / 100\<rparr>)"

lemma hub_routes:
  "rt_routes (ro_table hub) = [(id_b, [\<lparr>re_device_id = id_b, re_transport = 1, re_next_hop_addr = [7],
     re_hop_count = 1, re_trust_score = 1, re_latency_ms = 20, re_last_seen = 0\<rparr>])]"
  "ro_local_id hub = id_a" "rt_stale_after (ro_table hub) = 300" "ro_max_advertised_trust hub = 95 / 100"
  by (simp_all add: hub_def Router_add_direct_route_def RouteTable_new_def RouteTable_add_def Let_def)

lemma hub_wf: "table_wf (ro_table hub)"
  using router_run_wf [of "\<lparr>ro_local_id = id_a, ro_table = RouteTable_new 300,
      ro_max_advertised_trust = 95 / 100\<rparr>" "[Op_direct 0 id_b 1 [7] 1 20]"]
  by (simp add: RouteTable_new_wf hub_def)

lemma hub_best:
  "RouteTable_best 10 (ro_table hub) id_b = Inr (Some \<lparr>re_device_id = id_b, re_transport = 1,
     re_next_hop_addr = [7], re_hop_count = 1, re_trust_score = 1, re_latency_ms = 20, re_last_seen = 0\<rparr>)"
  by (simp add: RouteTable_best_def fresh_routes_def dict_get_or_def hub_routes RouteEntry_score_def)

text \<open>C28: the router picks a best route and never fails while doing so. After any sequence of direct
  routes, announcements and removals from a new router, looking up a destination does not raise
  \<open>ZeroDivisionError\<close>: it reports \<open>RoutingError\<close> exactly when no route to the destination is
  fresh, and otherwise returns a fresh route to it whose score is greatest.\<close>

theorem get_route_optimal:
  assumes "Router_new local_id None cap = Inr r0"
  shows "case Router_get_route now (router_run xs r0) d of
      Inl e \<Rightarrow> e = RoutingError \<and> fresh_routes now (ro_table (router_run xs r0)) d = []
    | Inr e \<Rightarrow> re_device_id e = d \<and> e \<in> set (fresh_routes now (ro_table (router_run xs r0)) d) \<and>
        RouteEntry_score e = Inr (quality e) \<and>
        (\<forall>f \<in> set (fresh_routes now (ro_table (router_run xs r0)) d).
           RouteEntry_score f = Inr (quality f) \<and> quality f \<le> quality e)"
proof -
  let ?t = "ro_table (router_run xs r0)"
  have "table_wf (ro_table r0)"
    using assms by (auto simp: Router_new_def RouteTable_new_wf split: if_splits)
  then have wf: "table_wf ?t" by (rule router_run_wf)
  have in_table: "f \<in> set (fresh_routes now ?t d) \<Longrightarrow> re_device_id f = d \<and> 1 \<le> re_hop_count f" for f
    using wf by (auto simp: table_wf_def fresh_routes_def RouteTable_all_routes_def)
  show ?thesis
    using wf
  proof (cases rule: RouteTable_best_cases [where now = now and d = d])
    case none
    then show ?thesis by (simp add: Router_get_route_def)
  next
    case (some e)
    then show ?thesis
      using in_table by (auto simp: Router_get_route_def intro: score_quality)
  qed
qed

theorem get_route_optimal_witness:
  "\<exists>r0. Router_new id_a None (95 / 100) = Inr r0 \<and>
     (case Router_get_route 10 (router_run [Op_direct 0 id_b 1 [7] 1 20, Op_direct 0 id_b 1 [8] 1 5] r0) id_b of
        Inl e \<Rightarrow> False | Inr e \<Rightarrow> re_device_id e = id_b)"
proof -
  let ?xs = "[Op_direct 0 id_b 1 [7] 1 20, Op_direct 0 id_b 1 [8] 1 5]"
  obtain r0 where r0: "Router_new id_a None (95 / 100) = Inr r0"
    by (simp add: Router_new_def)
  then have "fresh_routes 10 (ro_table (router_run ?xs r0)) id_b \<noteq> []"
    by (auto simp: Router_new_def Router_add_direct_route_def RouteTable_new_def RouteTable_add_def
        Let_def fresh_routes_def dict_get_or_def same_link_def)
  then show ?thesis
    using get_route_optimal [OF r0, of 10 ?xs id_b] r0 by (auto split: sum.splits)
qed

text \<open>C29: announcements cannot inflate trust. Every route that an announcement adds has a hop count of
  one more than announced, a trust score of at most the sender's score and the local cap, attenuated
  by ten percent for each announced hop, and never leads to the local device; the table then
  holds no route but those it had and these.\<close>

theorem announce_trust_bounded:
  assumes "Router_process_announce_payload clock payload via addr sender_trust r = (Inr updated, r')"
    and "table_wf (ro_table r)" and "0 \<le> ro_max_advertised_trust r"
  shows "(\<forall>e \<in> set updated. re_device_id e \<noteq> ro_local_id r \<and> 1 \<le> re_hop_count e \<and>
            (re_device_id e, re_hop_count e - 1) \<in> set (unpack_routes payload) \<and>
            re_trust_score e \<le> min sender_trust (ro_max_advertised_trust r) * (9 / 10) ^ nat (re_hop_count e - 1) \<and>
            re_trust_score e \<le> ro_max_advertised_trust r) \<and>
         (\<forall>d f. f \<in> set (RouteTable_all_routes (ro_table r') d) \<longrightarrow>
            f \<in> set (RouteTable_all_routes (ro_table r) d) \<or> f \<in> set updated) \<and>
         RouteTable_all_routes (ro_table r') (ro_local_id r) = RouteTable_all_routes (ro_table r) (ro_local_id r)"
proof -
  note s = process_announce_success [OF assms(1)]
  have bound: "re_device_id e \<noteq> ro_local_id r \<and> 1 \<le> re_hop_count e \<and>
      (re_device_id e, re_hop_count e - 1) \<in> set (unpack_routes payload) \<and>
      re_trust_score e \<le> min sender_trust (ro_max_advertised_trust r) * (9 / 10) ^ nat (re_hop_count e - 1) \<and>
      re_trust_score e \<le> ro_max_advertised_trust r" if upd: "e \<in> set updated" for e
  proof -
    obtain i d where d: "d \<in> set (unpack_routes payload)" "fst d \<noteq> ro_local_id r"
      and e: "e = learned_entry r (clock i) via addr sender_trust d"
      using s(2) [OF upd] by blast
    let ?x = "min sender_trust (ro_max_advertised_trust r)"
    have "?x * (9 / 10) ^ nat (snd d) \<le> ro_max_advertised_trust r"
    proof (cases "0 \<le> ?x")
      case True
      then have "?x * (9 / 10) ^ nat (snd d) \<le> ?x * 1"
        by (intro mult_left_mono power_le_one) auto
      also have "\<dots> \<le> ro_max_advertised_trust r" by simp
      finally show ?thesis .
    next
      case False
      then have "?x * (9 / 10) ^ nat (snd d) \<le> 0" by (intro mult_nonpos_nonneg) auto
      with assms(3) show ?thesis by linarith
    qed
    with d unpack_routes_hops [of "fst d" "snd d" payload] show ?thesis
      by (auto simp: e learned_entry_def Let_def)
  qed
  have "f \<in> set (RouteTable_all_routes (ro_table r) d) \<or> f \<in> set updated"
    if "f \<in> set (RouteTable_all_routes (ro_table r') d)" for d f
    using fold_add_routes [OF assms(2), of updated f d] bound that s(1) by auto
  moreover have "RouteTable_all_routes (ro_table r') (ro_local_id r) = RouteTable_all_routes (ro_table r) (ro_local_id r)"
    using bound s(1) fold_add_frame [of updated "ro_local_id r" "ro_table r"] by simp
  ultimately show ?thesis using bound by blast
qed

theorem announce_trust_bounded_witness:
  "\<exists>updated r'. Router_process_announce_payload (\<lambda>_. 5) (id_b @ [0, 3]) 1 [7] 1 hub = (Inr updated, r') \<and>
     (\<forall>e \<in> set updated. re_trust_score e \<le> 95 / 100)"
proof -
  obtain updated r' where p: "Router_process_announce_payload (\<lambda>_. 5) (id_b @ [0, 3]) 1 [7] 1 hub = (Inr updated, r')"
    by (simp add: Router_process_announce_payload_def ENTRY_SIZE_def Let_def)
  show ?thesis
    using announce_trust_bounded [OF p hub_wf] p hub_routes by auto
qed

text \<open>Hop counts grow by two for each hop. A destination that the sender of an announcement reaches
  over a best route of \<open>h\<close> hops is learned by the receiver with \<open>h + 2\<close> hops, because the sender
  advertises \<open>h + 1\<close> and the receiver adds one; the sender itself is learned with one hop.\<close>

theorem announce_hop_counts:
  assumes "Router_build_announce_payload now_of [] r = Inr payload"
    and "Router_process_announce_payload clock payload via addr trust r2 = (Inr updated, r2')"
    and "\<forall>x \<in> set (RouteTable_known_destinations (ro_table r)). length x = 32"
    and "table_wf (ro_table r)" and "length (ro_local_id r) = 32"
    and "RouteTable_best (now_of d) (ro_table r) d = Inr (Some e)" and "re_hop_count e < 65535"
    and "d \<noteq> ro_local_id r" and "d \<noteq> ro_local_id r2" and "ro_local_id r \<noteq> ro_local_id r2"
  shows "(\<exists>f \<in> set updated. re_device_id f = d \<and> re_hop_count f = re_hop_count e + 2) \<and>
         (\<exists>f \<in> set updated. re_device_id f = ro_local_id r \<and> re_hop_count f = 1)"
proof -
  note p = announced_payload [OF assms(1,3-6,8)]
  have learned: "\<exists>f \<in> set updated. re_device_id f = x \<and> re_hop_count f = h + 1"
    if x: "(x, h) \<in> set (unpack_routes payload)" "x \<noteq> ro_local_id r2" for x h
  proof -
    obtain i where "learned_entry r2 (clock i) via addr trust (x, h) \<in> set updated"
      using process_announce_success(3) [OF assms(2) x(1)] x(2) by auto
    then show ?thesis by (intro bexI) auto
  qed
  show ?thesis
    using learned [OF p(1) assms(9)] learned [OF p(2) assms(10)] assms(7) by (simp add: add.commute min_def)
qed

theorem announce_hop_counts_witness:
  "\<exists>payload updated r2'. Router_build_announce_payload (\<lambda>_. 10) [] hub = Inr payload \<and>
     Router_process_announce_payload (\<lambda>_. 11) payload 4 [9] 1
       \<lparr>ro_local_id = replicate 32 0, ro_table = RouteTable_new 300, ro_max_advertised_trust = 95 / 100\<rparr>
       = (Inr updated, r2') \<and>
     (\<exists>f \<in> set updated. re_device_id f = id_b \<and> re_hop_count f = 3)"
proof -
  let ?r2 = "\<lparr>ro_local_id = replicate 32 (0 :: byte), ro_table = RouteTable_new 300,
    ro_max_advertised_trust = 95 / 100 :: real\<rparr>"
  have seen: "Router_announced (\<lambda>_. 10) [] hub = Inr [(id_a, 0), (id_b, 2)]"
    using ids_differ
    by (simp add: Router_announced_def RouteTable_known_destinations_def hub_best keep_lowest_def
        hub_routes)
  obtain payload where pl: "pack_routes [(id_a, 0), (id_b, 2)] = Inr payload" "length payload = 68"
    using unpack_pack_routes [of "[(id_a, 0), (id_b, 2)]"] by auto
  then obtain updated r2' where pr:
    "Router_process_announce_payload (\<lambda>_. 11) payload 4 [9] 1 ?r2 = (Inr updated, r2')"
    by (simp add: Router_process_announce_payload_def ENTRY_SIZE_def Let_def)
  have build: "Router_build_announce_payload (\<lambda>_. 10) [] hub = Inr payload"
    by (simp add: Router_build_announce_payload_def seen pl del: pack_routes.simps)
  have "id_a ! 0 \<noteq> replicate 32 0 ! 0" and "id_b ! 0 \<noteq> replicate 32 0 ! 0"
    by (simp_all add: id_a_def id_b_def)
  then have "id_a \<noteq> replicate 32 0" and "id_b \<noteq> replicate 32 0" by metis+
  then have "(\<exists>f \<in> set updated. re_device_id f = id_b \<and> re_hop_count f = 3)"
    using announce_hop_counts [OF build pr _ hub_wf _ hub_best] ids_differ
    by (simp add: hub_routes RouteTable_known_destinations_def)
  with build pr show ?thesis by blast
qed

text \<open>A forwarded packet reaches the next hop unchanged. Forwarding over an in-process transport
  either appends exactly the given bytes to the inbox of the peer of the best route's transport and
  changes nothing else, or raises and leaves every transport as it was.\<close>

theorem forward_unmodified:
  "case Router_forward InProcessTransport_send now raw d r h of
     (Inl e, h') \<Rightarrow> h' = h
   | (Inr _, h') \<Rightarrow> (\<exists>e peer. Router_get_route now r d = Inr e \<and>
        ip_peer (h (re_transport e)) = Some peer \<and> \<not> ip_closed (h peer) \<and>
        h' = h(peer := (h peer)\<lparr>ip_inbox := ip_inbox (h peer) @ [(ip_local_addr (h (re_transport e)), raw)]\<rparr>))"
  by (auto simp: Router_forward_def InProcessTransport_send_def inbox_put_def
      split: sum.splits option.splits)

end
