(* ===== verification/Arq.thy ===== *)
theory Arq
  imports Prelude
begin

text \<open>
  The retransmission queue that both reliable channels of the package implement: packets with a
  deadline, exponential backoff and a bound on the number of retransmissions. What the queue needs
  of a packet is the locale \<open>retransmittable\<close>; the stop-and-wait channel and the sliding-window
  channel interpret it with their own packet classes.
\<close>

section \<open>The polling loop\<close>

text \<open>
  One turn of \<^verbatim>\<open>get_retransmissions\<close>: the overdue packets to send again, the
  sequence numbers that have used up their retries, and the queue with the deadlines renewed. The
  clock is read twice for an entry, by \<^verbatim>\<open>is_due\<close> and by
  \<^verbatim>\<open>record_retransmit\<close>; \<open>clk seq\<close> is the pair of the readings.
\<close>

fun poll_items ::
  "(real \<Rightarrow> 'p \<Rightarrow> bool) \<Rightarrow> ('p \<Rightarrow> int) \<Rightarrow> (real \<Rightarrow> 'p \<Rightarrow> 'p) \<Rightarrow> ('p \<Rightarrow> bytes) \<Rightarrow> int \<Rightarrow> (int \<Rightarrow> real \<times> real)
     \<Rightarrow> (int, 'p) dict \<Rightarrow> bytes list \<times> int list \<times> (int, 'p) dict" where
  "poll_items due retries renew wire max_retries clk [] = ([], [], [])"
| "poll_items due retries renew wire max_retries clk ((seq, p) # items) =
     (case poll_items due retries renew wire max_retries clk items of (overdue, failed, rest) \<Rightarrow>
        if \<not> due (fst (clk seq)) p then (overdue, failed, (seq, p) # rest)
        else if retries p \<ge> max_retries then (overdue, seq # failed, (seq, p) # rest)
        else (wire p # overdue, failed, (seq, renew (snd (clk seq)) p) # rest))"

definition drop_failed :: "int list \<Rightarrow> (int, 'p) dict \<Rightarrow> (int, 'p) dict" where
  "drop_failed failed queue = fold dict_del failed queue"

definition poll ::
  "(real \<Rightarrow> 'p \<Rightarrow> bool) \<Rightarrow> ('p \<Rightarrow> int) \<Rightarrow> (real \<Rightarrow> 'p \<Rightarrow> 'p) \<Rightarrow> ('p \<Rightarrow> bytes) \<Rightarrow> int \<Rightarrow> (int \<Rightarrow> real \<times> real)
     \<Rightarrow> (int, 'p) dict \<Rightarrow> bytes list result \<times> (int, 'p) dict" where
  "poll due retries renew wire max_retries clk queue =
     (case poll_items due retries renew wire max_retries clk queue of (overdue, failed, queue1) \<Rightarrow>
        let queue2 = drop_failed failed queue1
        in if failed \<noteq> [] then (Inl (RetransmitError failed), queue2) else (Inr overdue, queue2))"

section \<open>Lemmas on the loop\<close>

lemma drop_failed_get:
  "dict_get (drop_failed failed queue) seq = (if seq \<in> set failed then None else dict_get queue seq)"
  unfolding drop_failed_def by (induction failed arbitrary: queue) (auto simp: dict_simps)

lemma drop_failed_ok: "dict_ok queue \<Longrightarrow> dict_ok (drop_failed failed queue)"
  unfolding drop_failed_def by (induction failed arbitrary: queue) auto

lemma drop_failed_keys: "set (dict_keys (drop_failed failed queue)) \<subseteq> set (dict_keys queue)"
  using drop_failed_get [of failed queue] by (metis dict_get_None subsetI)

lemma drop_failed_length: "length (drop_failed failed queue) \<le> length queue"
proof (unfold drop_failed_def, induction failed arbitrary: queue)
  case (Cons s failed)
  have "length (dict_del s queue) \<le> length queue" by (rule length_delete_le)
  with Cons [of "dict_del s queue"] show ?case by simp
qed simp

section \<open>The contract of a packet that can be sent again\<close>

locale retransmittable =
  fixes due :: "real \<Rightarrow> 'p \<Rightarrow> bool"
    and retries :: "'p \<Rightarrow> int"
    and renew :: "real \<Rightarrow> 'p \<Rightarrow> 'p"
    and wire :: "'p \<Rightarrow> bytes"
  assumes renew_retries: "retries (renew now p) = retries p + 1"
    and renew_wire: "wire (renew now p) = wire p"
begin

abbreviation items where "items \<equiv> poll_items due retries renew wire"

text \<open>The entries that are overdue, and those of them that have retries left.\<close>

abbreviation overdue where "overdue clk x \<equiv> due (fst (clk (fst x))) (snd x)"

lemma items_keys: "dict_keys (snd (snd (items m clk queue))) = dict_keys queue"
  by (induction queue) (auto simp: case_prod_beta)

lemma items_wires: "fst (items m clk queue) =
  map (wire \<circ> snd) (filter (\<lambda>x. overdue clk x \<and> retries (snd x) < m) queue)"
  by (induction queue) (auto simp: case_prod_beta)

lemma items_failed: "fst (snd (items m clk queue)) =
  map fst (filter (\<lambda>x. overdue clk x \<and> m \<le> retries (snd x)) queue)"
  by (induction queue) (auto simp: case_prod_beta)

text \<open>What the loop does to one entry.\<close>

lemma items_get:
  "dict_get queue seq = Some p \<Longrightarrow>
   dict_get (snd (snd (items m clk queue))) seq =
     Some (if due (fst (clk seq)) p \<and> retries p < m then renew (snd (clk seq)) p else p)"
  by (induction queue) (auto simp: case_prod_beta split: if_splits)

lemma items_fails:
  assumes "dict_ok queue" and "dict_get queue seq = Some p"
  shows "seq \<in> set (fst (snd (items m clk queue))) \<longleftrightarrow> due (fst (clk seq)) p \<and> m \<le> retries p"
proof -
  have "(seq, q) \<in> set queue \<longleftrightarrow> q = p" for q
    using assms map_of_eq_Some_iff [OF assms(1)] by (metis option.inject)
  then show ?thesis unfolding items_failed by force
qed

abbreviation polled where "polled \<equiv> poll due retries renew wire"

lemma poll_eq:
  "polled m clk queue =
     (if fst (snd (items m clk queue)) \<noteq> [] then Inl (RetransmitError (fst (snd (items m clk queue))))
      else Inr (fst (items m clk queue)),
      drop_failed (fst (snd (items m clk queue))) (snd (snd (items m clk queue))))"
  by (simp add: poll_def Let_def case_prod_beta)

text \<open>The poll in one piece, for every entry.\<close>

lemma poll_entry:
  assumes "dict_ok queue" and "dict_get queue seq = Some p"
  shows "dict_get (snd (polled m clk queue)) seq =
     (if \<not> due (fst (clk seq)) p then Some p
      else if m \<le> retries p then None else Some (renew (snd (clk seq)) p))"
  using items_get [OF assms(2), of m clk] items_fails [OF assms, of m clk]
  by (simp add: poll_eq drop_failed_get)

lemma poll_absent: "dict_get queue seq = None \<Longrightarrow> dict_get (snd (polled m clk queue)) seq = None"
  using items_keys [of m clk queue] by (simp add: poll_eq drop_failed_get dict_get_None)

lemma poll_ok: "dict_ok queue \<Longrightarrow> dict_ok (snd (polled m clk queue))"
  using items_keys [of m clk queue] by (simp add: poll_eq drop_failed_ok)

lemma poll_length: "length (snd (polled m clk queue)) \<le> length queue"
proof -
  have "length (snd (snd (items m clk queue))) = length queue"
    using items_keys [of m clk queue] by (metis length_map)
  then show ?thesis
    using drop_failed_length [of "fst (snd (items m clk queue))" "snd (snd (items m clk queue))"]
    by (simp add: poll_eq)
qed

lemma poll_result:
  "fst (polled m clk queue) =
     (let failed = map fst (filter (\<lambda>x. overdue clk x \<and> m \<le> retries (snd x)) queue)
      in if failed \<noteq> [] then Inl (RetransmitError failed)
         else Inr (map (wire \<circ> snd) (filter (overdue clk) queue)))"
proof -
  have "filter (\<lambda>x. overdue clk x \<and> retries (snd x) < m) queue = filter (overdue clk) queue"
    if "\<forall>x \<in> set queue. overdue clk x \<longrightarrow> \<not> m \<le> retries (snd x)"
    using that by (intro filter_cong) auto
  then show ?thesis
    by (auto simp: poll_eq items_wires items_failed Let_def filter_empty_conv)
qed

text \<open>
  No packet is sent more often than the bound allows: the number of retransmissions of a queued
  packet never exceeds it.
\<close>

lemma poll_retries_bound:
  assumes "dict_ok queue" and "\<forall>s p. dict_get queue s = Some p \<longrightarrow> retries p \<le> max 0 m"
    and "dict_get (snd (polled m clk queue)) seq = Some p"
  shows "retries p \<le> max 0 m"
proof -
  obtain q where q: "dict_get queue seq = Some q"
    using assms(3) poll_absent [of queue seq m clk] by (cases "dict_get queue seq") auto
  then have "retries q \<le> max 0 m" using assms(2) by blast
  then show ?thesis
    using assms(3) poll_entry [OF assms(1) q, of m clk] by (auto simp: renew_retries split: if_splits)
qed

end

end
