(* ===== verification/Session.thy ===== *)
theory Session
  imports Crypto
begin

text \<open>
  \<^verbatim>\<open>ztlnp/session.py\<close>: the state shared with a peer, its outgoing counter and its
  replay window. The main result is that the bounded window decides exactly as a filter that
  remembers every sequence number it ever accepted.
\<close>

section \<open>Definitions\<close>

definition MAX_CLOCK_SKEW_MS :: int where "MAX_CLOCK_SKEW_MS = 30000"

definition REPLAY_WINDOW :: int where "REPLAY_WINDOW = 64"

record session =
  ses_peer_id :: bytes
  ses_peer_ed25519_public :: bytes
  ses_session_key :: bytes
  ses_mac_key :: bytes
  ses_local_sequence :: int
  ses_peer_max_seq :: int
  ses_peer_seq_window :: "int set"

text \<open>The constructor with its defaults and the checks of \<^verbatim>\<open>__post_init__\<close>.\<close>

definition Session_new :: "bytes \<Rightarrow> bytes \<Rightarrow> bytes \<Rightarrow> bytes \<Rightarrow> session result" where
  "Session_new peer_id peer_ed25519_public session_key mac_key =
     (if length peer_id \<noteq> 32 then Inl ValueError
      else if length peer_ed25519_public \<noteq> 32 then Inl ValueError
      else if length session_key \<noteq> 32 then Inl ValueError
      else if length mac_key \<noteq> 64 then Inl ValueError
      else Inr \<lparr>ses_peer_id = peer_id, ses_peer_ed25519_public = peer_ed25519_public,
                ses_session_key = session_key, ses_mac_key = mac_key,
                ses_local_sequence = 0, ses_peer_max_seq = 0, ses_peer_seq_window = {}\<rparr>)"

definition Session_next_sequence :: "session \<Rightarrow> int \<times> session" where
  "Session_next_sequence s =
     (ses_local_sequence s, s\<lparr>ses_local_sequence := ses_local_sequence s + 1\<rparr>)"

text \<open>
  \<open>now_ms\<close> is the clock reading \<^verbatim>\<open>int(time.time() * 1000)\<close>. A rejected packet
  leaves the session as it was.
\<close>

definition Session_check_replay :: "int \<Rightarrow> int \<Rightarrow> int \<Rightarrow> session \<Rightarrow> unit result \<times> session" where
  "Session_check_replay now_ms sequence timestamp_ms s =
     (if \<bar>now_ms - timestamp_ms\<bar> > MAX_CLOCK_SKEW_MS then (Inl ReplayAttackError, s)
      else if sequence \<in> ses_peer_seq_window s then (Inl ReplayAttackError, s)
      else if sequence \<le> ses_peer_max_seq s - REPLAY_WINDOW then (Inl ReplayAttackError, s)
      else
        let s1 = s\<lparr>ses_peer_seq_window := insert sequence (ses_peer_seq_window s)\<rparr>
        in if sequence > ses_peer_max_seq s1
           then let s2 = s1\<lparr>ses_peer_max_seq := sequence\<rparr>
                in (Inr (), s2\<lparr>ses_peer_seq_window :=
                      Set.filter (\<lambda>x. x > ses_peer_max_seq s2 - REPLAY_WINDOW)
                                 (ses_peer_seq_window s2)\<rparr>)
           else (Inr (), s1))"

text \<open>
  The specification: a filter that keeps the set \<open>seen\<close> of every sequence number it has
  accepted, and rejects stale timestamps, numbers seen before, and numbers more than the
  window below the highest one (initially 0).
\<close>

definition replay_high :: "int set \<Rightarrow> int" where
  "replay_high seen = Max (insert 0 seen)"

definition replay_admits :: "int set \<Rightarrow> int \<Rightarrow> int \<Rightarrow> int \<Rightarrow> bool" where
  "replay_admits seen now_ms sequence timestamp_ms \<longleftrightarrow>
     \<bar>now_ms - timestamp_ms\<bar> \<le> MAX_CLOCK_SKEW_MS \<and> sequence \<notin> seen \<and>
     replay_high seen - REPLAY_WINDOW < sequence"

text \<open>The coupling between the specification's history and the session's bounded state.\<close>

definition replay_inv :: "int set \<Rightarrow> session \<Rightarrow> bool" where
  "replay_inv seen s \<longleftrightarrow>
     finite seen \<and> ses_peer_max_seq s = replay_high seen \<and>
     ses_peer_seq_window s = {x \<in> seen. replay_high seen - REPLAY_WINDOW < x}"

text \<open>
  A sequence of incoming (clock, sequence number, timestamp) triples; the result is the list of
  decisions, in order, and the final session.
\<close>

fun check_replay_run :: "(int \<times> int \<times> int) list \<Rightarrow> session \<Rightarrow> bool list \<times> session" where
  "check_replay_run [] s = ([], s)"
| "check_replay_run ((now_ms, sequence, timestamp_ms) # xs) s =
     (case Session_check_replay now_ms sequence timestamp_ms s of
        (r, s') \<Rightarrow> (case check_replay_run xs s' of (rs, s'') \<Rightarrow> ((r = Inr ()) # rs, s'')))"

fun replay_spec_run :: "(int \<times> int \<times> int) list \<Rightarrow> int set \<Rightarrow> bool list" where
  "replay_spec_run [] seen = []"
| "replay_spec_run ((now_ms, sequence, timestamp_ms) # xs) seen =
     (let ok = replay_admits seen now_ms sequence timestamp_ms
      in ok # replay_spec_run xs (if ok then insert sequence seen else seen))"

definition accepted :: "(int \<times> int \<times> int) list \<Rightarrow> bool list \<Rightarrow> int list" where
  "accepted xs rs = map (fst \<circ> snd \<circ> fst) (filter snd (zip xs rs))"

section \<open>The interface of a replay filter\<close>

text \<open>
  What a receiver relies on: a check that succeeds was for a number not yet in the history,
  which it then is; a check that fails leaves the history as it was.
\<close>

locale replay_filter =
  fixes check :: "int \<Rightarrow> int \<Rightarrow> int \<Rightarrow> 's \<Rightarrow> unit result \<times> 's"
    and coupled :: "int set \<Rightarrow> 's \<Rightarrow> bool"
  assumes check_ok: "coupled seen s \<Longrightarrow> check now q ts s = (Inr u, s') \<Longrightarrow>
      q \<notin> seen \<and> coupled (insert q seen) s'"
    and check_fail: "coupled seen s \<Longrightarrow> check now q ts s = (Inl e, s') \<Longrightarrow> coupled seen s'"
begin

lemma no_second_accept:
  assumes "coupled seen s" and "q \<in> seen"
  shows "\<exists>e. fst (check now q ts s) = Inl e"
  using assms check_ok by (metis prod.collapse sum.exhaust)

end

section \<open>Lemmas\<close>

lemma replay_high_insert:
  "finite seen \<Longrightarrow> replay_high (insert q seen) = max q (replay_high seen)"
  by (simp add: replay_high_def insert_commute [of 0 q] del: Max_insert)
     (simp add: max.left_commute)

lemma replay_high_ge: "finite seen \<Longrightarrow> q \<in> seen \<Longrightarrow> q \<le> replay_high seen"
  by (simp add: replay_high_def)

text \<open>The method in one step: what it accepts and the state it leaves.\<close>

lemma check_replay_accept:
  assumes "\<bar>now - ts\<bar> \<le> MAX_CLOCK_SKEW_MS" and "q \<notin> ses_peer_seq_window s"
    and "ses_peer_max_seq s - REPLAY_WINDOW < q"
  shows "Session_check_replay now q ts s =
     (Inr (), s\<lparr>ses_peer_max_seq := max q (ses_peer_max_seq s),
                ses_peer_seq_window :=
                  (if ses_peer_max_seq s < q
                   then {x \<in> insert q (ses_peer_seq_window s). q - REPLAY_WINDOW < x}
                   else insert q (ses_peer_seq_window s))\<rparr>)"
proof (cases "ses_peer_max_seq s < q")
  case True
  with assms show ?thesis by (simp add: Session_check_replay_def Let_def max_def)
next
  case False
  then have "max q (ses_peer_max_seq s) = ses_peer_max_seq s" by simp
  with False assms show ?thesis by (simp add: Session_check_replay_def Let_def)
qed

lemma check_replay_refuse:
  assumes "\<not> (\<bar>now - ts\<bar> \<le> MAX_CLOCK_SKEW_MS \<and> q \<notin> ses_peer_seq_window s \<and>
             ses_peer_max_seq s - REPLAY_WINDOW < q)"
  shows "Session_check_replay now q ts s = (Inl ReplayAttackError, s)"
  using assms by (simp add: Session_check_replay_def) linarith

lemma replay_inv_admits:
  assumes "replay_inv seen s"
  shows "replay_admits seen now q ts \<longleftrightarrow>
     \<bar>now - ts\<bar> \<le> MAX_CLOCK_SKEW_MS \<and> q \<notin> ses_peer_seq_window s \<and>
     ses_peer_max_seq s - REPLAY_WINDOW < q"
proof -
  have m: "ses_peer_max_seq s = replay_high seen"
    and w: "ses_peer_seq_window s = {x \<in> seen. replay_high seen - REPLAY_WINDOW < x}"
    using assms by (simp_all add: replay_inv_def)
  show ?thesis
    unfolding replay_admits_def m w mem_Collect_eq by blast
qed

lemma check_replay_admits:
  assumes "replay_inv seen s"
  shows "fst (Session_check_replay now q ts s) =
           (if replay_admits seen now q ts then Inr () else Inl ReplayAttackError)"
  by (simp add: replay_inv_admits [OF assms] check_replay_accept check_replay_refuse)

lemma check_replay_inv_ok:
  assumes inv: "replay_inv seen s" and ok: "replay_admits seen now q ts"
  shows "replay_inv (insert q seen) (snd (Session_check_replay now q ts s))"
proof -
  have acc: "\<bar>now - ts\<bar> \<le> MAX_CLOCK_SKEW_MS" "q \<notin> ses_peer_seq_window s"
    "ses_peer_max_seq s - REPLAY_WINDOW < q"
    using ok by (simp_all add: replay_inv_admits [OF inv])
  have fin: "finite seen" and m: "ses_peer_max_seq s = replay_high seen"
    and w: "ses_peer_seq_window s = {x \<in> seen. replay_high seen - REPLAY_WINDOW < x}"
    using inv by (simp_all add: replay_inv_def)
  have e: "Session_check_replay now q ts s = (Inr (), s\<lparr>ses_peer_max_seq := max q (replay_high seen),
      ses_peer_seq_window := {x \<in> insert q seen. max q (replay_high seen) - REPLAY_WINDOW < x}\<rparr>)"
  proof (cases "replay_high seen < q")
    case True
    then have "max q (replay_high seen) = q" by simp
    moreover have "{x \<in> insert q {x \<in> seen. replay_high seen - REPLAY_WINDOW < x}. q - REPLAY_WINDOW < x}
        = {x \<in> insert q seen. q - REPLAY_WINDOW < x}"
      using True by auto
    ultimately show ?thesis
      using check_replay_accept [OF acc] True by (simp add: m w)
  next
    case False
    then have "max q (replay_high seen) = replay_high seen" by simp
    moreover have "insert q {x \<in> seen. replay_high seen - REPLAY_WINDOW < x}
        = {x \<in> insert q seen. replay_high seen - REPLAY_WINDOW < x}"
      using acc m by auto
    ultimately show ?thesis
      using check_replay_accept [OF acc] False by (simp add: m w)
  qed
  show ?thesis
    unfolding e replay_inv_def using fin by (simp add: replay_high_insert)
qed

lemma check_replay_reject:
  assumes "replay_inv seen s" and "\<not> replay_admits seen now q ts"
  shows "snd (Session_check_replay now q ts s) = s"
  using assms(2) by (simp add: replay_inv_admits [OF assms(1)] check_replay_refuse)

lemma replay_inv_new: "Session_new a b c d = Inr s \<Longrightarrow> replay_inv {} s"
  by (auto simp: Session_new_def replay_inv_def replay_high_def split: if_splits)

interpretation session_filter: replay_filter Session_check_replay replay_inv
proof unfold_locales
  show "q \<notin> seen \<and> replay_inv (insert q seen) s'"
    if "replay_inv seen s" "Session_check_replay now q ts s = (Inr u, s')" for seen s now q ts u s'
  proof -
    have "replay_admits seen now q ts"
      using that check_replay_admits [OF that(1), of now q ts] by (auto split: if_splits)
    then show ?thesis
      using check_replay_inv_ok [OF that(1), of now q ts] that(2) by (simp add: replay_admits_def)
  qed
  show "replay_inv seen s'"
    if "replay_inv seen s" "Session_check_replay now q ts s = (Inl e, s')" for seen s now q ts e s'
  proof -
    have "\<not> replay_admits seen now q ts"
      using that check_replay_admits [OF that(1), of now q ts] by (auto split: if_splits)
    then show ?thesis
      using check_replay_reject [OF that(1), of now q ts] that by simp
  qed
qed

section \<open>Runs\<close>

lemma check_replay_run_refines:
  "replay_inv seen s \<Longrightarrow> fst (check_replay_run xs s) = replay_spec_run xs seen"
proof (induction xs arbitrary: seen s)
  case Nil
  then show ?case by simp
next
  case (Cons x xs)
  obtain now q ts where x: "x = (now, q, ts)" by (cases x)
  obtain r s' where c: "Session_check_replay now q ts s = (r, s')" by fastforce
  obtain rs s'' where t: "check_replay_run xs s' = (rs, s'')" by fastforce
  show ?case
  proof (cases "replay_admits seen now q ts")
    case True
    then have "r = Inr ()" and "replay_inv (insert q seen) s'"
      using check_replay_admits [OF Cons.prems, of now q ts]
        check_replay_inv_ok [OF Cons.prems, of now q ts] by (simp_all add: c)
    then show ?thesis using Cons.IH [of "insert q seen" s'] True by (simp add: x c t)
  next
    case False
    then have "r = Inl ReplayAttackError" and "s' = s"
      using check_replay_admits [OF Cons.prems, of now q ts]
        check_replay_reject [OF Cons.prems, of now q ts] by (simp_all add: c)
    then show ?thesis using Cons.IH [OF Cons.prems] False t by (simp add: x c)
  qed
qed

lemma check_replay_run_inv:
  "replay_inv seen s \<Longrightarrow> \<exists>seen'. replay_inv seen' (snd (check_replay_run xs s))"
proof (induction xs arbitrary: seen s)
  case Nil
  then show ?case by auto
next
  case (Cons x xs)
  obtain now q ts where x: "x = (now, q, ts)" by (cases x)
  obtain r s' where c: "Session_check_replay now q ts s = (r, s')" by fastforce
  have "\<exists>seen'. replay_inv seen' s'"
    using session_filter.check_ok [OF Cons.prems] session_filter.check_fail [OF Cons.prems] c
    by (cases r) blast+
  then show ?case
    using Cons.IH [of _ s'] by (auto simp: x c split: prod.splits)
qed

lemma length_replay_spec_run [simp]: "length (replay_spec_run xs seen) = length xs"
  by (induction xs seen rule: replay_spec_run.induct) (simp_all add: Let_def)

lemma accepted_spec_fresh: "set (accepted xs (replay_spec_run xs seen)) \<inter> seen = {}"
proof (induction xs seen rule: replay_spec_run.induct)
  case (2 now q ts xs seen)
  then show ?case by (fastforce simp: accepted_def Let_def replay_admits_def)
qed (simp add: accepted_def)

lemma accepted_spec_distinct: "distinct (accepted xs (replay_spec_run xs seen))"
proof (induction xs seen rule: replay_spec_run.induct)
  case (2 now q ts xs seen)
  have "q \<notin> set (accepted xs (replay_spec_run xs (insert q seen)))"
    using accepted_spec_fresh [of xs "insert q seen"] by blast
  with 2 show ?case by (simp add: accepted_def Let_def split: if_splits)
qed (simp add: accepted_def)

lemma replay_inv_window:
  assumes "replay_inv seen s"
  shows "finite (ses_peer_seq_window s)" and "card (ses_peer_seq_window s) \<le> 64"
proof -
  have fin: "finite seen"
    and w: "ses_peer_seq_window s = {x \<in> seen. replay_high seen - REPLAY_WINDOW < x}"
    using assms by (simp_all add: replay_inv_def)
  have sub: "ses_peer_seq_window s \<subseteq> {replay_high seen - REPLAY_WINDOW<..replay_high seen}"
    unfolding w using replay_high_ge [OF fin] by auto
  then show "finite (ses_peer_seq_window s)"
    by (rule finite_subset) simp
  have "card (ses_peer_seq_window s) \<le> card {replay_high seen - REPLAY_WINDOW<..replay_high seen}"
    using sub by (intro card_mono) simp_all
  then show "card (ses_peer_seq_window s) \<le> 64"
    by (simp add: REPLAY_WINDOW_def)
qed

section \<open>Properties\<close>

definition fresh_session :: session where
  "fresh_session = \<lparr>ses_peer_id = replicate 32 1, ses_peer_ed25519_public = replicate 32 2,
     ses_session_key = replicate 32 3, ses_mac_key = replicate 64 4, ses_local_sequence = 0,
     ses_peer_max_seq = 0, ses_peer_seq_window = {}\<rparr>"

lemma fresh_session_new:
  "Session_new (replicate 32 1) (replicate 32 2) (replicate 32 3) (replicate 64 4) = Inr fresh_session"
  by (simp add: Session_new_def fresh_session_def)

text \<open>C4: the bounded replay window implements the unbounded one. On every sequence of incoming
  packets, a new session accepts and rejects exactly the packets that the filter with a full
  history of accepted sequence numbers accepts and rejects.\<close>

theorem check_replay_refines_history:
  assumes "Session_new peer_id peer_pub key mac = Inr s"
  shows "fst (check_replay_run xs s) = replay_spec_run xs {}"
  using replay_inv_new [OF assms] by (rule check_replay_run_refines)

theorem check_replay_refines_history_witness:
  "fst (check_replay_run [(0, 70, 0), (0, 6, 0), (0, 7, 0), (0, 70, 0), (40000, 8, 0)] fresh_session)
     = [True, False, True, False, False]"
  using check_replay_refines_history [OF fresh_session_new,
      of "[(0, 70, 0), (0, 6, 0), (0, 7, 0), (0, 70, 0), (40000, 8, 0)]"]
  by (simp add: Let_def replay_admits_def replay_high_def MAX_CLOCK_SKEW_MS_def REPLAY_WINDOW_def)

text \<open>No replay. Over the life of a session no sequence number is accepted twice, whatever
  arrives, in whatever order, however far the window has moved in between.\<close>

theorem check_replay_never_accepts_twice:
  assumes "Session_new peer_id peer_pub key mac = Inr s"
  shows "distinct (accepted xs (fst (check_replay_run xs s)))"
  unfolding check_replay_run_refines [OF replay_inv_new [OF assms]] by (rule accepted_spec_distinct)

theorem check_replay_never_accepts_twice_witness:
  "distinct (accepted [(0, 1, 0), (0, 99, 0), (0, 1, 0), (0, 98, 0), (0, 99, 0)]
     (fst (check_replay_run [(0, 1, 0), (0, 99, 0), (0, 1, 0), (0, 98, 0), (0, 99, 0)] fresh_session)))"
  by (rule check_replay_never_accepts_twice [OF fresh_session_new])

text \<open>The window never holds more than 64 sequence numbers, so the memory of a session is
  bounded however long it lives.\<close>

theorem replay_window_bounded:
  assumes "Session_new peer_id peer_pub key mac = Inr s"
  shows "finite (ses_peer_seq_window (snd (check_replay_run xs s))) \<and>
         card (ses_peer_seq_window (snd (check_replay_run xs s))) \<le> 64"
  using check_replay_run_inv [OF replay_inv_new [OF assms], of xs] replay_inv_window by blast

theorem replay_window_bounded_witness:
  "card (ses_peer_seq_window (snd (check_replay_run [(0, 1, 0), (0, 99, 0)] fresh_session))) \<le> 64"
  using replay_window_bounded [OF fresh_session_new] by blast

end
