(* ===== verification/Identity.thy ===== *)
theory Identity
  imports Trust_Invariants
begin

text \<open>
  \<^verbatim>\<open>ztlnp/identity.py\<close>: key transitions and the rotation manager. The manager is a
  companion of a trust store that other code shares, so its operations take and return both.
  Clock readings are arguments: \<open>now_ms\<close> for the timestamp checks, \<open>now\<close> (seconds) for the
  creation time of a trust record.
\<close>

section \<open>Key transitions\<close>

definition BODY_SIZE :: nat where "BODY_SIZE = 104"

definition TRANSITION_SIZE :: nat where "TRANSITION_SIZE = BODY_SIZE + 64"

definition ROTATION_SKEW_MS :: int where "ROTATION_SKEW_MS = 30000"

record key_transition =
  kt_old_device_id :: bytes
  kt_new_device_id :: bytes
  kt_new_ed25519_public :: bytes
  kt_timestamp_ms :: int
  kt_signature :: bytes

definition KeyTransition_post_init :: "key_transition \<Rightarrow> key_transition result" where
  "KeyTransition_post_init t =
     (if length (kt_old_device_id t) \<noteq> 32 then Inl ValueError
      else if length (kt_new_device_id t) \<noteq> 32 then Inl ValueError
      else if length (kt_new_ed25519_public t) \<noteq> 32 then Inl ValueError
      else if length (kt_signature t) \<noteq> 64 then Inl ValueError
      else Inr t)"

text \<open>\<^verbatim>\<open>struct.pack("!32s32s32sQ", ...)\<close>\<close>

definition pack_transition_body :: "bytes \<Rightarrow> bytes \<Rightarrow> bytes \<Rightarrow> int \<Rightarrow> bytes result" where
  "pack_transition_body old_id new_id new_pub ts =
     bindE (pack_uint 8 ts) (\<lambda>t. Inr (pack_s 32 old_id @ pack_s 32 new_id @ pack_s 32 new_pub @ t))"

definition KeyTransition_body_bytes :: "key_transition \<Rightarrow> bytes result" where
  "KeyTransition_body_bytes t =
     pack_transition_body (kt_old_device_id t) (kt_new_device_id t) (kt_new_ed25519_public t)
       (kt_timestamp_ms t)"

definition KeyTransition_to_bytes :: "key_transition \<Rightarrow> bytes result" where
  "KeyTransition_to_bytes t = bindE (KeyTransition_body_bytes t) (\<lambda>b. Inr (b @ kt_signature t))"

definition KeyTransition_from_bytes :: "bytes \<Rightarrow> key_transition result" where
  "KeyTransition_from_bytes data =
     (if length data \<noteq> TRANSITION_SIZE then Inl KeyRotationError
      else KeyTransition_post_init
        \<lparr>kt_old_device_id = py_slice 0 32 data, kt_new_device_id = py_slice 32 64 data,
         kt_new_ed25519_public = py_slice 64 96 data,
         kt_timestamp_ms = be_int (py_slice 96 104 data), kt_signature = drop BODY_SIZE data\<rparr>)"

definition create_key_transition ::
  "'k crypto \<Rightarrow> int \<Rightarrow> 'k \<Rightarrow> bytes \<Rightarrow> bytes \<Rightarrow> key_transition result" where
  "create_key_transition C now_ms old_private_key old_device_id new_ed25519_public =
     (let new_device_id = sha256 new_ed25519_public in
      bindE (pack_transition_body old_device_id new_device_id new_ed25519_public now_ms) (\<lambda>body.
        KeyTransition_post_init
          \<lparr>kt_old_device_id = old_device_id, kt_new_device_id = new_device_id,
           kt_new_ed25519_public = new_ed25519_public, kt_timestamp_ms = now_ms,
           kt_signature = crypto_sign C old_private_key body\<rparr>))"

section \<open>The rotation manager\<close>

record rotation_record =
  rr_old_device_id :: bytes
  rr_new_device_id :: bytes
  rr_timestamp_ms :: int

record rotation_manager =
  rm_max_rotations :: int
  rm_retired :: "(bytes, bytes) dict"
  rm_history :: "(bytes, rotation_record list) dict"
  rm_rotation_count :: "(bytes, int) dict"
  rm_last_ts :: "(bytes, int) dict"

definition RotationManager_new :: "int \<Rightarrow> rotation_manager" where
  "RotationManager_new max_rotations =
     \<lparr>rm_max_rotations = max_rotations, rm_retired = [], rm_history = [], rm_rotation_count = [],
      rm_last_ts = []\<rparr>"

text \<open>Appending the endorsers of the old record that the new one does not have.\<close>

definition carry_endorsers :: "bytes list \<Rightarrow> bytes list \<Rightarrow> bytes list" where
  "carry_endorsers olds news = foldl (\<lambda>es e. if e \<notin> set es then es @ [e] else es) news olds"

definition RotationManager_apply_transition ::
  "'k crypto \<Rightarrow> int \<Rightarrow> real \<Rightarrow> key_transition \<Rightarrow> rotation_manager \<times> trust_store
     \<Rightarrow> unit result \<times> rotation_manager \<times> trust_store" where
  "RotationManager_apply_transition C now_ms now t = (\<lambda>(rm, st).
     let old_id = kt_old_device_id t; new_id = kt_new_device_id t in
     case TrustStore_get st old_id of
       None \<Rightarrow> (Inl KeyRotationError, rm, st)
     | Some old_record \<Rightarrow>
        (if new_id \<noteq> sha256 (kt_new_ed25519_public t) then (Inl KeyRotationError, rm, st)
         else if kt_timestamp_ms t > now_ms + ROTATION_SKEW_MS then (Inl KeyRotationError, rm, st)
         else if kt_timestamp_ms t \<le> dict_get_or 0 (rm_last_ts rm) old_id
              then (Inl KeyRotationError, rm, st)
         else case bindE (KeyTransition_body_bytes t) (\<lambda>body.
                     crypto_verify C (tr_ed25519_public old_record) body (kt_signature t)) of
           Inl e \<Rightarrow> (Inl e, rm, st)
         | Inr False \<Rightarrow> (Inl KeyRotationError, rm, st)
         | Inr True \<Rightarrow>
            (let count = dict_get_or 0 (rm_rotation_count rm) old_id in
             if count \<ge> rm_max_rotations rm then (Inl KeyRotationError, rm, st)
             else case TrustStore_add now (kt_new_ed25519_public t) (tr_trust_level old_record) st of
               (Inl e, st1) \<Rightarrow> (Inl e, rm, st1)
             | (Inr _, st1) \<Rightarrow>
                (case TrustStore_get st1 new_id of
                   None \<Rightarrow> (Inl AttributeError, rm, st1) \<comment> \<open>not reachable: \<open>add\<close> filed the record\<close>
                 | Some new_record \<Rightarrow>
                    (let st2 = put_record new_id
                           (new_record\<lparr>tr_endorsers :=
                              carry_endorsers (tr_endorsers old_record) (tr_endorsers new_record)\<rparr>) st1;
                         rec = \<lparr>rr_old_device_id = old_id, rr_new_device_id = new_id,
                                rr_timestamp_ms = kt_timestamp_ms t\<rparr>
                     in (Inr (),
                         rm\<lparr>rm_retired := dict_set old_id new_id (rm_retired rm),
                            rm_last_ts := dict_set old_id (kt_timestamp_ms t) (rm_last_ts rm),
                            rm_rotation_count := dict_set new_id (count + 1) (rm_rotation_count rm),
                            rm_history := dict_set new_id
                              (dict_get_or [] (rm_history rm) new_id @ [rec]) (rm_history rm)\<rparr>,
                         st2))))))"

text \<open>
  The loop of \<^verbatim>\<open>resolve\<close>: it stops at an identity that is not retired, or at one it
  has visited. It terminates because every turn visits another key of the dictionary.
\<close>

function resolve_loop :: "(bytes, bytes) dict \<Rightarrow> bytes set \<Rightarrow> bytes \<Rightarrow> bytes" where
  "resolve_loop retired visited current =
     (case dict_get retired current of
        None \<Rightarrow> current
      | Some successor \<Rightarrow>
          (if current \<in> visited then current
           else resolve_loop retired (insert current visited) successor))"
  by pat_completeness auto
termination
proof (relation "measure (\<lambda>(d, v, c). card (set (dict_keys d) - v))", goal_cases)
  case 1
  then show ?case by simp
next
  case (2 retired visited current successor)
  then have "current \<in> set (dict_keys retired) - visited"
    by (metis DiffI dict_get_None option.distinct(1))
  then have "card (set (dict_keys retired) - insert current visited)
      < card (set (dict_keys retired) - visited)"
    by (intro psubset_card_mono) auto
  then show ?case by simp
qed

declare resolve_loop.simps [simp del]

definition RotationManager_resolve :: "rotation_manager \<Rightarrow> bytes \<Rightarrow> bytes" where
  "RotationManager_resolve rm device_id = resolve_loop (rm_retired rm) {} device_id"

definition RotationManager_is_retired :: "rotation_manager \<Rightarrow> bytes \<Rightarrow> bool" where
  "RotationManager_is_retired rm device_id \<longleftrightarrow> dict_get (rm_retired rm) device_id \<noteq> None"

definition RotationManager_rotation_history :: "rotation_manager \<Rightarrow> bytes \<Rightarrow> rotation_record list" where
  "RotationManager_rotation_history rm device_id = dict_get_or [] (rm_history rm) device_id"

definition RotationManager_rotation_count :: "rotation_manager \<Rightarrow> bytes \<Rightarrow> int" where
  "RotationManager_rotation_count rm device_id = dict_get_or 0 (rm_rotation_count rm) device_id"

text \<open>A sequence of transitions with the clock readings at which they arrive.\<close>

fun rotation_run ::
  "'k crypto \<Rightarrow> (int \<times> real \<times> key_transition) list \<Rightarrow> rotation_manager \<times> trust_store
     \<Rightarrow> rotation_manager \<times> trust_store" where
  "rotation_run C [] s = s"
| "rotation_run C ((now_ms, now, t) # ts) s =
     rotation_run C ts (snd (RotationManager_apply_transition C now_ms now t s))"

section \<open>The wire format of transitions\<close>

definition transition_wf :: "key_transition \<Rightarrow> bool" where
  "transition_wf t \<longleftrightarrow>
     length (kt_old_device_id t) = 32 \<and> length (kt_new_device_id t) = 32 \<and>
     length (kt_new_ed25519_public t) = 32 \<and> length (kt_signature t) = 64 \<and>
     0 \<le> kt_timestamp_ms t \<and> kt_timestamp_ms t < 256 ^ 8"

lemma body_bytes_wf:
  "transition_wf t \<Longrightarrow> KeyTransition_body_bytes t =
     Inr (kt_old_device_id t @ kt_new_device_id t @ kt_new_ed25519_public t
          @ be_bytes 8 (kt_timestamp_ms t))"
  by (simp add: KeyTransition_body_bytes_def pack_transition_body_def transition_wf_def pack_uint_ok)

lemma transition_slices:
  assumes "length a = 32" and "length b = 32" and "length c = 32" and "length d = 8"
  shows "py_slice 0 32 (a @ b @ c @ d @ s) = a" and "py_slice 32 64 (a @ b @ c @ d @ s) = b"
    and "py_slice 64 96 (a @ b @ c @ d @ s) = c" and "py_slice 96 104 (a @ b @ c @ d @ s) = d"
    and "drop 104 (a @ b @ c @ d @ s) = s"
  using assms by (simp_all add: py_slice_def)

lemma transition_decode:
  assumes "transition_wf t" and "KeyTransition_to_bytes t = Inr bs"
  shows "KeyTransition_from_bytes bs = Inr t"
proof -
  note w = assms(1) [unfolded transition_wf_def]
  have bs: "bs = kt_old_device_id t @ kt_new_device_id t @ kt_new_ed25519_public t
      @ be_bytes 8 (kt_timestamp_ms t) @ kt_signature t"
    using assms(2) by (simp add: KeyTransition_to_bytes_def body_bytes_wf [OF assms(1)])
  have "be_int (be_bytes 8 (kt_timestamp_ms t)) = kt_timestamp_ms t"
    using w by (simp add: be_int_be_bytes del: be_bytes.simps be_int.simps)
  then show ?thesis
    using w unfolding bs
    by (simp add: KeyTransition_from_bytes_def TRANSITION_SIZE_def BODY_SIZE_def transition_slices
        KeyTransition_post_init_def)
qed

interpretation transition_codec: wire_codec transition_wf KeyTransition_to_bytes KeyTransition_from_bytes
proof unfold_locales
  show "transition_wf x \<Longrightarrow> \<exists>bs. KeyTransition_to_bytes x = Inr bs" for x
    by (simp add: KeyTransition_to_bytes_def body_bytes_wf)
  show "transition_wf x \<Longrightarrow> KeyTransition_to_bytes x = Inr bs \<Longrightarrow> KeyTransition_from_bytes bs = Inr x" for x bs
    by (rule transition_decode)
qed

section \<open>Applying a transition\<close>

text \<open>The five checks, as one condition.\<close>

definition transition_valid ::
  "'k crypto \<Rightarrow> int \<Rightarrow> key_transition \<Rightarrow> rotation_manager \<Rightarrow> trust_store \<Rightarrow> trust_record \<Rightarrow> bool" where
  "transition_valid C now_ms t rm st r \<longleftrightarrow>
     TrustStore_get st (kt_old_device_id t) = Some r \<and>
     kt_new_device_id t = sha256 (kt_new_ed25519_public t) \<and>
     kt_timestamp_ms t \<le> now_ms + ROTATION_SKEW_MS \<and>
     dict_get_or 0 (rm_last_ts rm) (kt_old_device_id t) < kt_timestamp_ms t \<and>
     bindE (KeyTransition_body_bytes t) (\<lambda>body.
        crypto_verify C (tr_ed25519_public r) body (kt_signature t)) = Inr True \<and>
     RotationManager_rotation_count rm (kt_old_device_id t) < rm_max_rotations rm"

definition rotated_manager :: "key_transition \<Rightarrow> rotation_manager \<Rightarrow> rotation_manager" where
  "rotated_manager t rm =
     rm\<lparr>rm_retired := dict_set (kt_old_device_id t) (kt_new_device_id t) (rm_retired rm),
        rm_last_ts := dict_set (kt_old_device_id t) (kt_timestamp_ms t) (rm_last_ts rm),
        rm_rotation_count := dict_set (kt_new_device_id t)
          (RotationManager_rotation_count rm (kt_old_device_id t) + 1) (rm_rotation_count rm),
        rm_history := dict_set (kt_new_device_id t)
          (RotationManager_rotation_history rm (kt_new_device_id t) @
             [\<lparr>rr_old_device_id = kt_old_device_id t, rr_new_device_id = kt_new_device_id t,
               rr_timestamp_ms = kt_timestamp_ms t\<rparr>]) (rm_history rm)\<rparr>"

definition carried_record :: "trust_record \<Rightarrow> trust_record \<Rightarrow> trust_record" where
  "carried_record r n = n\<lparr>tr_endorsers := carry_endorsers (tr_endorsers r) (tr_endorsers n)\<rparr>"

lemma apply_transition_accept:
  assumes v: "transition_valid C now_ms t rm st r" and len: "length (kt_new_ed25519_public t) = 32"
  obtains n st1 where
    "TrustStore_add now (kt_new_ed25519_public t) (tr_trust_level r) st = (Inr n, st1)"
    and "RotationManager_apply_transition C now_ms now t (rm, st) =
      (Inr (), rotated_manager t rm, put_record (kt_new_device_id t) (carried_record r n) st1)"
proof -
  obtain n st1 where a: "TrustStore_add now (kt_new_ed25519_public t) (tr_trust_level r) st = (Inr n, st1)"
    using store_keyring.add_succeeds [OF len] by blast
  have g: "TrustStore_get st1 (sha256 (kt_new_ed25519_public t)) = Some n"
    using store_keyring.add_found [OF a] by simp
  have "RotationManager_apply_transition C now_ms now t (rm, st) =
      (Inr (), rotated_manager t rm, put_record (kt_new_device_id t) (carried_record r n) st1)"
    using v a g
    by (simp add: RotationManager_apply_transition_def transition_valid_def Let_def not_less not_le
        rotated_manager_def RotationManager_rotation_count_def RotationManager_rotation_history_def
        carried_record_def)
  with a show ?thesis by (rule that)
qed

lemma apply_transition_refuse:
  assumes "\<And>r. \<not> transition_valid C now_ms t rm st r"
  shows "\<exists>e. RotationManager_apply_transition C now_ms now t (rm, st) = (Inl e, rm, st)"
proof (cases "TrustStore_get st (kt_old_device_id t)")
  case None
  then show ?thesis by (simp add: RotationManager_apply_transition_def Let_def)
next
  case (Some r)
  then show ?thesis
    using assms [of r]
    by (auto simp: RotationManager_apply_transition_def transition_valid_def Let_def not_less not_le
        RotationManager_rotation_count_def split: sum.splits bool.splits if_splits)
qed

lemma apply_transition_success:
  assumes s: "RotationManager_apply_transition C now_ms now t (rm, st) = (Inr u, rm', st')"
    and len: "length (kt_new_ed25519_public t) = 32"
  obtains r n st1 where "transition_valid C now_ms t rm st r"
    and "TrustStore_add now (kt_new_ed25519_public t) (tr_trust_level r) st = (Inr n, st1)"
    and "rm' = rotated_manager t rm" and "st' = put_record (kt_new_device_id t) (carried_record r n) st1"
proof (cases "\<exists>r. transition_valid C now_ms t rm st r")
  case True
  then obtain r where r: "transition_valid C now_ms t rm st r" by blast
  show ?thesis
    by (rule apply_transition_accept [OF r len, of now]) (use that r s in simp)
next
  case False
  then show ?thesis
    using apply_transition_refuse [of C now_ms t rm st now] s by auto
qed

section \<open>What a sequence of transitions keeps true\<close>

text \<open>Objects of the class: the constructor refuses fields of other lengths.\<close>

abbreviation constructed :: "key_transition \<Rightarrow> bool" where
  "constructed t \<equiv> KeyTransition_post_init t = Inr t"

abbreviation all_constructed :: "(int \<times> real \<times> key_transition) list \<Rightarrow> bool" where
  "all_constructed xs \<equiv> \<forall>x \<in> set xs. constructed (snd (snd x))"

lemma constructed_lengths:
  "constructed t \<longleftrightarrow> length (kt_old_device_id t) = 32 \<and> length (kt_new_device_id t) = 32 \<and>
     length (kt_new_ed25519_public t) = 32 \<and> length (kt_signature t) = 64"
  by (auto simp: KeyTransition_post_init_def)

lemma carry_endorsers_set: "set (carry_endorsers olds news) = set olds \<union> set news"
proof -
  have "set (foldl (\<lambda>es e. if e \<notin> set es then es @ [e] else es) news olds) = set olds \<union> set news"
    by (induction olds arbitrary: news) auto
  then show ?thesis by (simp add: carry_endorsers_def)
qed

lemma carry_endorsers_distinct: "distinct news \<Longrightarrow> distinct (carry_endorsers olds news)"
proof -
  have "distinct news \<Longrightarrow> distinct (foldl (\<lambda>es e. if e \<notin> set es then es @ [e] else es) news olds)"
    by (induction olds arbitrary: news) auto
  then show "distinct news \<Longrightarrow> distinct (carry_endorsers olds news)" by (simp add: carry_endorsers_def)
qed

definition rotation_inv :: "rotation_manager \<times> trust_store \<Rightarrow> bool" where
  "rotation_inv s \<longleftrightarrow>
     store_wf (snd s) \<and>
     (\<forall>i. RotationManager_rotation_count (fst s) i \<le> max 0 (rm_max_rotations (fst s))) \<and>
     (\<forall>i h. h \<in> set (RotationManager_rotation_history (fst s) i) \<longrightarrow>
        rr_new_device_id h = i \<and> RotationManager_is_retired (fst s) (rr_old_device_id h))"

lemma apply_transition_cases:
  assumes "constructed t"
  obtains (refused) e where "RotationManager_apply_transition C now_ms now t (rm, st) = (Inl e, rm, st)"
      and "\<And>r. \<not> transition_valid C now_ms t rm st r"
  | (applied) r n st1 where "transition_valid C now_ms t rm st r"
      and "TrustStore_add now (kt_new_ed25519_public t) (tr_trust_level r) st = (Inr n, st1)"
      and "RotationManager_apply_transition C now_ms now t (rm, st) =
        (Inr (), rotated_manager t rm, put_record (kt_new_device_id t) (carried_record r n) st1)"
proof (cases "\<exists>r. transition_valid C now_ms t rm st r")
  case True
  then obtain r where r: "transition_valid C now_ms t rm st r" by blast
  have len: "length (kt_new_ed25519_public t) = 32" using assms by (simp add: constructed_lengths)
  show ?thesis
    by (rule apply_transition_accept [OF r len, of now]) (use applied r in blast)
next
  case False
  then show ?thesis
    using apply_transition_refuse [of C now_ms t rm st now] refused by blast
qed

lemma migrated_store:
  assumes "transition_valid C now_ms t rm st r"
    and a: "TrustStore_add now (kt_new_ed25519_public t) (tr_trust_level r) st = (Inr n, st1)"
  shows "store_wf st \<Longrightarrow> store_wf (put_record (kt_new_device_id t) (carried_record r n) st1)"
    and "store_le st (put_record (kt_new_device_id t) (carried_record r n) st1)"
    and "ts_blacklist (put_record (kt_new_device_id t) (carried_record r n) st1) = ts_blacklist st"
proof -
  have new: "kt_new_device_id t = sha256 (kt_new_ed25519_public t)"
    using assms(1) by (simp add: transition_valid_def)
  have found: "dict_get (ts_records st1) (kt_new_device_id t) = Some n"
    using store_keyring.add_found [OF a] by (simp add: new TrustStore_get_def)
  show "store_wf (put_record (kt_new_device_id t) (carried_record r n) st1)" if "store_wf st"
  proof -
    have w: "store_wf st1" using store_keyring.add_ok [OF that a] .
    from store_wfD [OF w found] have "record_wf (ts_max_endorsement_depth st1) (kt_new_device_id t) (carried_record r n)"
      by (simp add: record_wf_def carried_record_def carry_endorsers_distinct)
    with w show ?thesis by (rule put_record_wf)
  qed
  have "store_le st1 (put_record (kt_new_device_id t) (carried_record r n) st1)"
    by (rule put_record_le) (use found in \<open>auto simp: record_le_def carried_record_def carry_endorsers_set\<close>)
  moreover have "store_le st st1"
    using TrustStore_add_le [of st now "kt_new_ed25519_public t" "tr_trust_level r"] by (simp add: a)
  ultimately show "store_le st (put_record (kt_new_device_id t) (carried_record r n) st1)"
    by (rule store_le_trans [rotated])
  show "ts_blacklist (put_record (kt_new_device_id t) (carried_record r n) st1) = ts_blacklist st"
    using TrustStore_add_blacklist [of now "kt_new_ed25519_public t" "tr_trust_level r" st]
    by (simp add: a put_record_def)
qed

lemmas rotated_defs = rotated_manager_def RotationManager_rotation_count_def
  RotationManager_rotation_history_def RotationManager_is_retired_def dict_simps

lemma rotated_manager_inv:
  assumes "rotation_inv (rm, st)" and v: "transition_valid C now_ms t rm st r" and "store_wf st'"
  shows "rotation_inv (rotated_manager t rm, st')"
proof -
  have "RotationManager_rotation_count rm (kt_old_device_id t) < rm_max_rotations rm"
    using v by (simp add: transition_valid_def)
  with assms show ?thesis
    by (auto simp: rotation_inv_def rotated_defs)
qed

lemma apply_transition_inv:
  assumes "constructed t" and inv: "rotation_inv (rm, st)"
  shows "rotation_inv (snd (RotationManager_apply_transition C now_ms now t (rm, st)))"
  using assms(1)
proof (cases rule: apply_transition_cases [where C = C and now_ms = now_ms and now = now and rm = rm and st = st])
  case (refused e)
  then show ?thesis using inv by simp
next
  case (applied r n st1)
  have "store_wf st" using inv by (simp add: rotation_inv_def)
  then have "store_wf (put_record (kt_new_device_id t) (carried_record r n) st1)"
    by (rule migrated_store(1) [OF applied(1,2)])
  with rotated_manager_inv [OF inv applied(1)] show ?thesis by (simp add: applied(3))
qed

text \<open>Timestamps per identity only grow, so a transition that was applied stays refused.\<close>

abbreviation last_ts :: "rotation_manager \<Rightarrow> bytes \<Rightarrow> int" where
  "last_ts rm i \<equiv> dict_get_or 0 (rm_last_ts rm) i"

lemma apply_transition_last_ts:
  assumes "constructed t"
  shows "last_ts rm i \<le> last_ts (fst (snd (RotationManager_apply_transition C now_ms now t (rm, st)))) i"
  using assms
proof (cases rule: apply_transition_cases [where C = C and now_ms = now_ms and now = now and rm = rm and st = st])
  case (applied r n st1)
  then show ?thesis by (auto simp: rotated_defs transition_valid_def)
qed simp

lemma rotation_run_last_ts:
  "all_constructed xs \<Longrightarrow>
   last_ts (fst s) i \<le> last_ts (fst (rotation_run C xs s)) i"
proof (induction xs arbitrary: s)
  case Nil
  then show ?case by simp
next
  case (Cons x xs)
  obtain n m t where x: "x = (n, m, t)" by (cases x)
  have "last_ts (fst s) i \<le> last_ts (fst (snd (RotationManager_apply_transition C n m t s))) i"
    using apply_transition_last_ts [of t "fst s" i C n m "snd s"] Cons.prems by (simp add: x)
  also have "\<dots> \<le> last_ts (fst (rotation_run C xs (snd (RotationManager_apply_transition C n m t s)))) i"
    using Cons.IH Cons.prems by simp
  finally show ?case by (simp add: x)
qed

lemma rotation_run_inv:
  "all_constructed xs \<Longrightarrow> rotation_inv s \<Longrightarrow>
   rotation_inv (rotation_run C xs s)"
proof (induction xs arbitrary: s)
  case Nil
  then show ?case by simp
next
  case (Cons x xs)
  obtain n m t where x: "x = (n, m, t)" by (cases x)
  have "rotation_inv (snd (RotationManager_apply_transition C n m t s))"
    using apply_transition_inv [of t "fst s" "snd s" C n m] Cons.prems by (simp add: x)
  with Cons show ?case by (simp add: x)
qed

lemma rotation_run_store:
  "all_constructed xs \<Longrightarrow>
   store_le (snd s) (snd (rotation_run C xs s)) \<and>
   ts_blacklist (snd (rotation_run C xs s)) = ts_blacklist (snd s)"
proof (induction xs arbitrary: s)
  case Nil
  then show ?case by simp
next
  case (Cons x xs)
  obtain n m t where x: "x = (n, m, t)" by (cases x)
  have t: "constructed t" using Cons.prems x by simp
  let ?s = "snd (RotationManager_apply_transition C n m t (fst s, snd s))"
  have "store_le (snd s) (snd ?s) \<and> ts_blacklist (snd ?s) = ts_blacklist (snd s)"
    using t
  proof (cases rule: apply_transition_cases [where C = C and now_ms = n and now = m and rm = "fst s" and st = "snd s"])
    case (applied r n' st1)
    then show ?thesis using migrated_store(2,3) [OF applied(1,2)] by simp
  qed simp
  moreover have "store_le (snd ?s) (snd (rotation_run C xs ?s)) \<and>
      ts_blacklist (snd (rotation_run C xs ?s)) = ts_blacklist (snd ?s)"
    by (rule Cons.IH) (use Cons.prems in auto)
  ultimately show ?case
    using store_le_trans by (auto simp: x)
qed

section \<open>resolve\<close>

abbreviation succession :: "(bytes, bytes) dict \<Rightarrow> (bytes \<times> bytes) set" where
  "succession d \<equiv> {(a, b). dict_get d a = Some b}"

lemma resolve_loop_reaches: "(current, resolve_loop retired visited current) \<in> (succession retired)\<^sup>*"
proof (induction retired visited current rule: resolve_loop.induct)
  case (1 retired visited current)
  then show ?case
    by (subst resolve_loop.simps)
       (auto split: option.split intro: converse_rtrancl_into_rtrancl)
qed

lemma resolve_loop_stops:
  "(\<And>v. v \<in> visited \<Longrightarrow> (v, current) \<in> (succession retired)\<^sup>+) \<Longrightarrow>
   dict_get retired (resolve_loop retired visited current) \<noteq> None \<Longrightarrow>
   (resolve_loop retired visited current, resolve_loop retired visited current)
     \<in> (succession retired)\<^sup>+"
proof (induction retired visited current rule: resolve_loop.induct)
  case (1 retired visited current)
  show ?case
  proof (cases "dict_get retired current")
    case None
    then show ?thesis using 1 by (simp add: resolve_loop.simps [of _ _ current])
  next
    case (Some successor)
    show ?thesis
    proof (cases "current \<in> visited")
      case True
      then show ?thesis using 1 Some by (simp add: resolve_loop.simps [of _ _ current])
    next
      case False
      have e: "resolve_loop retired visited current = resolve_loop retired (insert current visited) successor"
        using Some False by (simp add: resolve_loop.simps [of _ visited current])
      have step: "(current, successor) \<in> succession retired" using Some by simp
      have "(v, successor) \<in> (succession retired)\<^sup>+" if "v \<in> insert current visited" for v
        using that 1(2) [of v] step by (auto intro: trancl_into_trancl)
      then show ?thesis
        using 1(1) [OF Some False] 1(3) by (simp add: e)
    qed
  qed
qed

section \<open>Properties\<close>

lemma created_transition:
  assumes "ed_laws C" and "0 \<le> ts" and "ts < 256 ^ 8" and "length old_id = 32" and "length new_pub = 32"
  obtains t body where "create_key_transition C ts sk old_id new_pub = Inr t" and "transition_wf t"
    and "kt_old_device_id t = old_id" and "kt_new_device_id t = sha256 new_pub"
    and "kt_new_ed25519_public t = new_pub" and "kt_timestamp_ms t = ts"
    and "KeyTransition_body_bytes t = Inr body" and "kt_signature t = ed_sign C sk body"
proof -
  obtain body where b: "pack_transition_body old_id (sha256 new_pub) new_pub ts = Inr body"
    using assms by (simp add: pack_transition_body_def pack_uint_ok)
  let ?t = "\<lparr>kt_old_device_id = old_id, kt_new_device_id = sha256 new_pub, kt_new_ed25519_public = new_pub,
      kt_timestamp_ms = ts, kt_signature = ed_sign C sk body\<rparr>"
  have "length (ed_sign C sk body) = 64" using assms(1) by (simp add: ed_laws_def)
  then show ?thesis
    using that [of ?t body] assms b
    by (simp add: create_key_transition_def Let_def crypto_sign_def KeyTransition_post_init_def
        transition_wf_def KeyTransition_body_bytes_def)
qed

lemma created_transition_valid:
  assumes "ed_laws C" and "TrustStore_get st old_id = Some r"
    and "tr_ed25519_public r = ed_public_bytes C (ed_public_key C sk)"
    and "create_key_transition C ts sk old_id new_pub = Inr t"
    and "ts \<le> now_ms + 30000" and "last_ts rm old_id < ts"
    and "RotationManager_rotation_count rm old_id < rm_max_rotations rm"
  shows "transition_valid C now_ms t rm st r" and "constructed t"
proof -
  from assms(4) obtain body where b: "pack_transition_body old_id (sha256 new_pub) new_pub ts = Inr body"
    and t: "t = \<lparr>kt_old_device_id = old_id, kt_new_device_id = sha256 new_pub,
      kt_new_ed25519_public = new_pub, kt_timestamp_ms = ts, kt_signature = ed_sign C sk body\<rparr>"
    by (auto simp: create_key_transition_def Let_def bindE_eq_Inr crypto_sign_def
        KeyTransition_post_init_def split: if_splits)
  show "constructed t"
    using assms(4) b by (simp add: create_key_transition_def Let_def crypto_sign_def t)
  show "transition_valid C now_ms t rm st r"
    using assms b
    by (simp add: transition_valid_def t KeyTransition_body_bytes_def ROTATION_SKEW_MS_def crypto_verify_sign)
qed

definition moved_ab :: key_transition where
  "moved_ab = (case create_key_transition toy 1000 key_a id_a key_b of Inr t \<Rightarrow> t)"

lemma moved_ab_created: "create_key_transition toy 1000 key_a id_a key_b = Inr moved_ab"
proof -
  obtain t where "create_key_transition toy 1000 key_a id_a key_b = Inr t"
    by (rule created_transition [OF toy_ed_laws, of 1000 id_a key_b key_a]) simp_all
  then show ?thesis by (simp add: moved_ab_def)
qed

lemma moved_ab_fields:
  "transition_wf moved_ab" "constructed moved_ab" "kt_old_device_id moved_ab = id_a"
  "kt_new_device_id moved_ab = id_b" "kt_new_ed25519_public moved_ab = key_b"
  by (rule created_transition [OF toy_ed_laws, of 1000 id_a key_b key_a];
      simp add: moved_ab_created sha256_key_b constructed_lengths transition_wf_def)+

lemma moved_ab_valid:
  "transition_valid toy 2000 moved_ab (RotationManager_new 10) (store_a\<lparr>ts_blacklist := B\<rparr>)
     (snd (hd (ts_records store_a)))"
  by (rule created_transition_valid(1) [OF toy_ed_laws _ _ moved_ab_created])
     (simp_all add: store_a_def TrustStore_get_def toy_public_key_a RotationManager_new_def
       RotationManager_rotation_count_def)

lemma moved_ab_applied:
  obtains rm' st' where "RotationManager_apply_transition toy 2000 2 moved_ab
      (RotationManager_new 10, store_a\<lparr>ts_blacklist := B\<rparr>) = (Inr (), rm', st')"
  by (rule apply_transition_accept [OF moved_ab_valid [of B], of 2])
     (use moved_ab_fields in \<open>auto simp: transition_wf_def intro: that\<close>)

text \<open>A key transition survives its wire format: the 168 bytes that the encoder produces decode
  to the same transition, and decoding refuses every blob of another length.\<close>

theorem transition_roundtrip:
  assumes "transition_wf t"
  shows "\<exists>bs. KeyTransition_to_bytes t = Inr bs \<and> length bs = 168 \<and> KeyTransition_from_bytes bs = Inr t \<and>
           (\<forall>cs. cs \<noteq> [] \<longrightarrow> KeyTransition_from_bytes (bs @ cs) = Inl KeyRotationError)"
proof -
  obtain bs where bs: "KeyTransition_to_bytes t = Inr bs"
    using transition_codec.enc_total [OF assms] by blast
  have "length bs = 168"
    using bs assms by (auto simp: KeyTransition_to_bytes_def body_bytes_wf transition_wf_def)
  then show ?thesis
    using bs transition_codec.dec_enc [OF assms bs]
    by (simp add: KeyTransition_from_bytes_def TRANSITION_SIZE_def BODY_SIZE_def)
qed

theorem transition_roundtrip_witness:
  "\<exists>bs. KeyTransition_to_bytes moved_ab = Inr bs \<and> length bs = 168 \<and>
     KeyTransition_from_bytes bs = Inr moved_ab"
  using transition_roundtrip [OF moved_ab_fields(1)] by blast

text \<open>C21: a rotation is only applied with a valid proof, and it migrates the trust. If a transition is
  accepted, the old identity is on record, its recorded key verifies the signature over the body,
  the new identity is the hash of the new key, the timestamp is at most 30 s ahead and newer than the
  last one of the old identity, and the rotation budget is not exhausted. Afterwards the new identity
  has a record of at least the old level with all the old endorsers, every other record is as before,
  and the old identity is retired in favour of the new one, whose chain is one longer.\<close>

theorem rotation_soundness:
  assumes "RotationManager_apply_transition C now_ms now t (rm, st) = (Inr (), rm', st')"
    and "KeyTransition_post_init t = Inr t"
  shows "\<exists>r n body. TrustStore_get st (kt_old_device_id t) = Some r \<and>
     KeyTransition_body_bytes t = Inr body \<and>
     crypto_verify C (tr_ed25519_public r) body (kt_signature t) = Inr True \<and>
     kt_new_device_id t = sha256 (kt_new_ed25519_public t) \<and>
     dict_get_or 0 (rm_last_ts rm) (kt_old_device_id t) < kt_timestamp_ms t \<and>
     kt_timestamp_ms t \<le> now_ms + 30000 \<and>
     RotationManager_rotation_count rm (kt_old_device_id t) < rm_max_rotations rm \<and>
     TrustStore_get st' (kt_new_device_id t) = Some n \<and> tr_trust_level r \<le> tr_trust_level n \<and>
     set (tr_endorsers r) \<subseteq> set (tr_endorsers n) \<and>
     (\<forall>i. i \<noteq> kt_new_device_id t \<longrightarrow> TrustStore_get st' i = TrustStore_get st i) \<and>
     dict_get (rm_retired rm') (kt_old_device_id t) = Some (kt_new_device_id t) \<and>
     RotationManager_rotation_count rm' (kt_new_device_id t)
       = RotationManager_rotation_count rm (kt_old_device_id t) + 1"
proof -
  have "length (kt_new_ed25519_public t) = 32" using assms(2) by (simp add: constructed_lengths)
  with assms(1) obtain r n st1 where v: "transition_valid C now_ms t rm st r"
    and a: "TrustStore_add now (kt_new_ed25519_public t) (tr_trust_level r) st = (Inr n, st1)"
    and rm': "rm' = rotated_manager t rm"
    and st': "st' = put_record (kt_new_device_id t) (carried_record r n) st1"
    by (rule apply_transition_success)
  obtain body where body: "KeyTransition_body_bytes t = Inr body"
    and ver: "crypto_verify C (tr_ed25519_public r) body (kt_signature t) = Inr True"
    using v by (auto simp: transition_valid_def bindE_eq_Inr)
  have "TrustStore_get st' i = TrustStore_get st i" if "i \<noteq> kt_new_device_id t" for i
    using store_keyring.add_frame [OF a, of i] v that by (simp add: st' put_record_get transition_valid_def)
  moreover have "TrustStore_get st' (kt_new_device_id t) = Some (carried_record r n)"
    by (simp add: st' put_record_get)
  moreover have "tr_trust_level r \<le> tr_trust_level (carried_record r n)"
    using store_keyring.add_found [OF a] by (simp add: carried_record_def)
  ultimately show ?thesis
    using v body ver
    by (auto simp: transition_valid_def ROTATION_SKEW_MS_def carried_record_def carry_endorsers_set
        rm' rotated_defs)
qed

theorem rotation_soundness_witness:
  "\<exists>rm' st' n. RotationManager_apply_transition toy 2000 2 moved_ab (RotationManager_new 10, store_a)
       = (Inr (), rm', st') \<and> TrustStore_get st' id_b = Some n \<and> VERIFIED \<le> tr_trust_level n \<and>
     dict_get (rm_retired rm') id_a = Some id_b"
proof -
  obtain rm' st' where ap: "RotationManager_apply_transition toy 2000 2 moved_ab
      (RotationManager_new 10, store_a) = (Inr (), rm', st')"
    using moved_ab_applied [of "{}"] by (auto simp: store_a_def)
  show ?thesis
    using rotation_soundness [OF ap moved_ab_fields(2)] ap moved_ab_fields
    by (auto simp: store_a_def TrustStore_get_def)
qed

text \<open>C22: the owner of a known identity can rotate it. A transition that the holder of the recorded
  key creates is accepted when its timestamp is newer than the last one and at most 30 s ahead of
  the verifier and the chain has rotations left; this holds even when the old identity is
  blacklisted, and the new identity is then trusted unless it is blacklisted itself.\<close>

theorem rotation_completeness:
  assumes "ed_laws C" and "TrustStore_get st old_id = Some r"
    and "tr_ed25519_public r = ed_public_bytes C (ed_public_key C sk)"
    and "create_key_transition C ts sk old_id new_pub = Inr t"
    and "ts \<le> now_ms + 30000" and "dict_get_or 0 (rm_last_ts rm) old_id < ts"
    and "RotationManager_rotation_count rm old_id < rm_max_rotations rm"
    and "ts_min_trust st \<le> tr_trust_level r" and "sha256 new_pub \<notin> ts_blacklist st"
  shows "\<exists>rm' st'. RotationManager_apply_transition C now_ms now t (rm, st) = (Inr (), rm', st') \<and>
           TrustStore_is_trusted st' (sha256 new_pub)"
proof -
  note v = created_transition_valid [OF assms(1-7)]
  have len: "length (kt_new_ed25519_public t) = 32" using v(2) by (simp add: constructed_lengths)
  have new: "kt_new_device_id t = sha256 new_pub"
    using assms(4) by (auto simp: create_key_transition_def Let_def bindE_eq_Inr
        KeyTransition_post_init_def split: if_splits)
  obtain n st1 where a: "TrustStore_add now (kt_new_ed25519_public t) (tr_trust_level r) st = (Inr n, st1)"
    and ap: "RotationManager_apply_transition C now_ms now t (rm, st) =
      (Inr (), rotated_manager t rm, put_record (kt_new_device_id t) (carried_record r n) st1)"
    using apply_transition_accept [OF v(1) len] by metis
  note m = migrated_store(2,3) [OF v(1) a]
  have "ts_min_trust st \<le> tr_trust_level n"
    using store_keyring.add_found [OF a] assms(8) by (meson order_trans)
  then show ?thesis
    using ap m assms(9) put_record_get [of "kt_new_device_id t" "carried_record r n" st1 "kt_new_device_id t"]
    by (simp add: TrustStore_is_trusted_def TrustStore_get_def new store_le_def carried_record_def)
qed

theorem rotation_completeness_witness:
  "\<exists>rm' st'. RotationManager_apply_transition toy 2000 2 moved_ab
       (RotationManager_new 10, TrustStore_distrust id_a store_a) = (Inr (), rm', st') \<and>
     \<not> TrustStore_is_trusted (TrustStore_distrust id_a store_a) id_a \<and>
     TrustStore_is_trusted st' (sha256 key_b)"
proof -
  have g: "TrustStore_get (TrustStore_distrust id_a store_a) id_a = Some (snd (hd (ts_records store_a)))"
    by (simp add: store_a_def TrustStore_get_def TrustStore_distrust_def)
  have "\<not> TrustStore_is_trusted (TrustStore_distrust id_a store_a) id_a"
    by (simp add: TrustStore_is_trusted_def TrustStore_distrust_def)
  then show ?thesis
    using rotation_completeness [OF toy_ed_laws g _ moved_ab_created,
        of 2000 "RotationManager_new 10" 2] ids_differ
    by (simp add: store_a_def TrustStore_distrust_def toy_public_key_a RotationManager_new_def
        RotationManager_rotation_count_def less_eq_TrustLevel_def sha256_key_b)
qed

text \<open>C23: an applied transition cannot be replayed. After any further sequence of transitions, the
  same transition is refused and nothing changes.\<close>

theorem rotation_never_replayed:
  assumes "RotationManager_apply_transition C now_ms now t s = (Inr (), s')"
    and "KeyTransition_post_init t = Inr t"
    and "\<forall>x \<in> set xs. KeyTransition_post_init (snd (snd x)) = Inr (snd (snd x))"
  shows "\<exists>e. RotationManager_apply_transition C now_ms2 now2 t (rotation_run C xs s')
           = (Inl e, rotation_run C xs s')"
proof -
  obtain rm st rm' st' where s: "s = (rm, st)" and s': "s' = (rm', st')" by fastforce
  have len: "length (kt_new_ed25519_public t) = 32" using assms(2) by (simp add: constructed_lengths)
  have "rm' = rotated_manager t rm"
    by (rule apply_transition_success [OF assms(1) [unfolded s s'] len])
  then have "kt_timestamp_ms t \<le> last_ts (fst s') (kt_old_device_id t)"
    by (simp add: s' rotated_defs)
  also have "\<dots> \<le> last_ts (fst (rotation_run C xs s')) (kt_old_device_id t)"
    by (rule rotation_run_last_ts) (use assms(3) in simp)
  finally have "\<not> transition_valid C now_ms2 t (fst (rotation_run C xs s')) (snd (rotation_run C xs s')) r" for r
    by (simp add: transition_valid_def)
  then show ?thesis
    using apply_transition_refuse [of C now_ms2 t "fst (rotation_run C xs s')" "snd (rotation_run C xs s')" now2]
    by simp
qed

theorem rotation_never_replayed_witness:
  "\<exists>s'. RotationManager_apply_transition toy 2000 2 moved_ab (RotationManager_new 10, store_a) = (Inr (), s') \<and>
     (\<exists>e. RotationManager_apply_transition toy 9000 9 moved_ab (rotation_run toy [(3000, 3, moved_ab)] s')
        = (Inl e, rotation_run toy [(3000, 3, moved_ab)] s'))"
proof -
  obtain s' where ap: "RotationManager_apply_transition toy 2000 2 moved_ab
      (RotationManager_new 10, store_a) = (Inr (), s')"
    using moved_ab_applied [of "{}"] by (auto simp: store_a_def)
  show ?thesis
    using rotation_never_replayed [OF ap moved_ab_fields(2), of "[(3000, 3, moved_ab)]" 9000 9] ap
      moved_ab_fields(2) by auto
qed

text \<open>C24: what every sequence of transitions keeps true, starting with a new manager: the trust store
  stays well formed and never loses or lowers a record, the blacklist is untouched, no chain count
  exceeds the configured maximum, and the history of an identity lists rotations into it, whose old
  identities are retired.\<close>

theorem rotation_invariant:
  assumes "store_wf st" and "\<forall>x \<in> set xs. KeyTransition_post_init (snd (snd x)) = Inr (snd (snd x))"
    and "rotation_run C xs (RotationManager_new m, st) = (rm', st')"
  shows "store_wf st' \<and> store_le st st' \<and> ts_blacklist st' = ts_blacklist st \<and>
     (\<forall>i. RotationManager_rotation_count rm' i \<le> max 0 (rm_max_rotations rm')) \<and>
     (\<forall>i h. h \<in> set (RotationManager_rotation_history rm' i) \<longrightarrow>
        rr_new_device_id h = i \<and> RotationManager_is_retired rm' (rr_old_device_id h))"
proof -
  have "rotation_inv (RotationManager_new m, st)"
    using assms(1) by (simp add: rotation_inv_def RotationManager_new_def
        RotationManager_rotation_count_def RotationManager_rotation_history_def)
  from rotation_run_inv [OF assms(2) this, of C] rotation_run_store [OF assms(2), of "(RotationManager_new m, st)" C]
  show ?thesis by (simp add: assms(3) rotation_inv_def)
qed

theorem rotation_invariant_witness:
  "\<exists>rm' st'. rotation_run toy [(2000, 2, moved_ab)] (RotationManager_new 10, store_a) = (rm', st') \<and>
     store_wf st' \<and> store_le store_a st' \<and> RotationManager_rotation_count rm' id_b \<le> 10"
proof -
  obtain rm' st' where run: "rotation_run toy [(2000, 2, moved_ab)] (RotationManager_new 10, store_a) = (rm', st')"
    by fastforce
  have wf: "store_wf store_a"
    using TrustStore_add_wf [OF TrustStore_new_wf] by (simp add: store_a_reached)
  obtain st1 where "RotationManager_apply_transition toy 2000 2 moved_ab
      (RotationManager_new 10, store_a) = (Inr (), rotated_manager moved_ab (RotationManager_new 10), st1)"
    using apply_transition_accept [OF moved_ab_valid [of "{}"], of 2] moved_ab_fields
    by (auto simp: store_a_def transition_wf_def)
  with run have "rm_max_rotations rm' = 10"
    by (auto simp: rotated_manager_def RotationManager_new_def)
  then show ?thesis
    using rotation_invariant [OF wf _ run] run moved_ab_fields(2)
    by fastforce
qed

text \<open>C25: resolving an identity follows the chain of retirements to its end: the result is reached
  from the identity by retirement steps, and it is not retired itself unless the retirements form a
  cycle through it.\<close>

theorem resolve_follows_chain:
  "(d, RotationManager_resolve rm d) \<in> {(a, b). dict_get (rm_retired rm) a = Some b}\<^sup>* \<and>
   (\<not> RotationManager_is_retired rm (RotationManager_resolve rm d) \<or>
    (RotationManager_resolve rm d, RotationManager_resolve rm d)
      \<in> {(a, b). dict_get (rm_retired rm) a = Some b}\<^sup>+)"
  using resolve_loop_reaches [of d "rm_retired rm" "{}"] resolve_loop_stops [of "{}" d "rm_retired rm"]
  unfolding RotationManager_resolve_def RotationManager_is_retired_def by blast

theorem resolve_follows_chain_witness:
  "\<exists>rm. (id_a, RotationManager_resolve rm id_a) \<in> {(a, b). dict_get (rm_retired rm) a = Some b}\<^sup>* \<and>
     RotationManager_is_retired rm id_a \<and> RotationManager_resolve rm id_a = id_b"
proof -
  let ?rm = "rotated_manager moved_ab (RotationManager_new 10)"
  have r: "rm_retired ?rm = [(id_a, id_b)]"
    by (simp add: rotated_manager_def RotationManager_new_def moved_ab_fields)
  have "RotationManager_resolve ?rm id_a = id_b"
    using ids_differ by (simp add: RotationManager_resolve_def r resolve_loop.simps)
  moreover have "RotationManager_is_retired ?rm id_a"
    by (simp add: RotationManager_is_retired_def r)
  ultimately show ?thesis
    using resolve_follows_chain [of id_a ?rm] by blast
qed

end
