(* ===== verification/Device.thy ===== *)
theory Device
  imports Session Identity
begin

text \<open>
  \<^verbatim>\<open>ztlnp/device.py\<close>: a device with its identity key, its sessions and the key material
  of handshakes in progress. Methods that may raise and change the device return the result and the
  device. What they read from the outside is an argument: the keys that
  \<^verbatim>\<open>generate()\<close> returns, nonces, and clock readings in milliseconds.
\<close>

section \<open>State\<close>

record 'k device =
  dev_name :: string
  dev_identity_private :: 'k
  dev_identity_public_bytes :: bytes
  dev_device_id :: bytes
  dev_sessions :: "(bytes, session) dict"
  dev_ephemeral_private :: "(bytes, 'k) dict"
  dev_ephemeral_public :: "(bytes, bytes) dict"
  dev_pending_peer_keys :: "(bytes, bytes) dict"

definition Device_new :: "'k crypto \<Rightarrow> 'k \<Rightarrow> string \<Rightarrow> 'k device" where
  "Device_new C fresh name =
     (let (priv, pub) = generate_identity_keypair C fresh
      in \<lparr>dev_name = name, dev_identity_private = priv, dev_identity_public_bytes = pub,
          dev_device_id = sha256 pub, dev_sessions = [], dev_ephemeral_private = [],
          dev_ephemeral_public = [], dev_pending_peer_keys = []\<rparr>)"

definition Device_identity_public_bytes :: "'k device \<Rightarrow> bytes" where
  "Device_identity_public_bytes d = dev_identity_public_bytes d"

definition Device_rotate_key :: "'k crypto \<Rightarrow> 'k \<Rightarrow> int \<Rightarrow> ('k device, key_transition) pymethod" where
  "Device_rotate_key C fresh now_ms d =
     (let old_private = dev_identity_private d;
          old_device_id = dev_device_id d;
          (new_private, new_pub) = generate_identity_keypair C fresh
      in case create_key_transition C now_ms old_private old_device_id new_pub of
           Inl e \<Rightarrow> (Inl e, d)
         | Inr transition \<Rightarrow>
             (Inr transition,
              d\<lparr>dev_identity_private := new_private, dev_identity_public_bytes := new_pub,
                dev_device_id := sha256 new_pub\<rparr>))"

definition Device_register_pending_peer :: "bytes \<Rightarrow> bytes \<Rightarrow> 'k device \<Rightarrow> 'k device" where
  "Device_register_pending_peer peer_id peer_ed25519_public d =
     d\<lparr>dev_pending_peer_keys := dict_set peer_id peer_ed25519_public (dev_pending_peer_keys d)\<rparr>"

definition Device_generate_ephemeral_keypair ::
  "'k crypto \<Rightarrow> 'k \<Rightarrow> bytes \<Rightarrow> ('k device, bytes) pymethod" where
  "Device_generate_ephemeral_keypair C fresh peer_id d =
     (let d1 = (if dict_get (dev_ephemeral_private d) peer_id = None
                then let (priv, pub) = generate_x25519_keypair C fresh
                     in d\<lparr>dev_ephemeral_private := dict_set peer_id priv (dev_ephemeral_private d),
                          dev_ephemeral_public := dict_set peer_id pub (dev_ephemeral_public d)\<rparr>
                else d)
      in case dict_get (dev_ephemeral_public d1) peer_id of
           None \<Rightarrow> (Inl KeyError, d1)
         | Some pub \<Rightarrow> (Inr pub, d1))"

definition Device_complete_key_exchange ::
  "'k crypto \<Rightarrow> bytes \<Rightarrow> bytes \<Rightarrow> bytes \<Rightarrow> bool \<Rightarrow> ('k device, session) pymethod" where
  "Device_complete_key_exchange C peer_id peer_ed25519_public peer_x25519_public i_am_initiator d =
     (case dict_get (dev_ephemeral_private d) peer_id of
        None \<Rightarrow> (Inl ValueError, d)
      | Some priv \<Rightarrow>
         (case x25519_exchange C priv peer_x25519_public of
            Inl e \<Rightarrow> (Inl e, d)
          | Inr shared_secret \<Rightarrow>
             (let (initiator_id, responder_id) =
                    (if i_am_initiator then (dev_device_id d, peer_id) else (peer_id, dev_device_id d));
                  session_key = derive_session_key C shared_secret initiator_id responder_id;
                  mac_key = derive_mac_key C shared_secret initiator_id responder_id
              in case Session_new peer_id peer_ed25519_public session_key mac_key of
                   Inl e \<Rightarrow> (Inl e, d)
                 | Inr session \<Rightarrow>
                    (let d1 = d\<lparr>dev_sessions := dict_set peer_id session (dev_sessions d),
                                dev_ephemeral_private := dict_del peer_id (dev_ephemeral_private d)\<rparr>
                     in if dict_get (dev_ephemeral_public d1) peer_id = None then (Inl KeyError, d1)
                        else (Inr session,
                              d1\<lparr>dev_ephemeral_public := dict_del peer_id (dev_ephemeral_public d1),
                                 dev_pending_peer_keys := dict_del peer_id (dev_pending_peer_keys d1)\<rparr>)))))"

definition Device_get_session :: "'k device \<Rightarrow> bytes \<Rightarrow> session result" where
  "Device_get_session d peer_id =
     (case dict_get (dev_sessions d) peer_id of None \<Rightarrow> Inl SessionNotFoundError | Some s \<Rightarrow> Inr s)"

definition Device_has_session :: "'k device \<Rightarrow> bytes \<Rightarrow> bool" where
  "Device_has_session d peer_id \<longleftrightarrow> dict_get (dev_sessions d) peer_id \<noteq> None"

definition Device_remove_session :: "bytes \<Rightarrow> 'k device \<Rightarrow> 'k device" where
  "Device_remove_session peer_id d = d\<lparr>dev_sessions := dict_del peer_id (dev_sessions d)\<rparr>"

text \<open>The session object of a peer after one of its methods has changed it.\<close>

definition put_session :: "bytes \<Rightarrow> session \<Rightarrow> 'k device \<Rightarrow> 'k device" where
  "put_session peer_id s d = d\<lparr>dev_sessions := dict_set peer_id s (dev_sessions d)\<rparr>"

section \<open>Packet construction\<close>

text \<open>A packet with the constructor's defaults: zero nonce, timestamp and signature.\<close>

definition new_packet :: "PacketType \<Rightarrow> bytes \<Rightarrow> bytes \<Rightarrow> bytes \<Rightarrow> int \<Rightarrow> int \<Rightarrow> bytes \<Rightarrow> packet" where
  "new_packet ptype sender_id payload recipient_id flags sequence nonce =
     \<lparr>pkt_ptype = ptype, pkt_sender_id = sender_id, pkt_payload = payload,
      pkt_recipient_id = recipient_id, pkt_flags = flags, pkt_sequence = sequence,
      pkt_nonce = nonce, pkt_timestamp_ms = 0, pkt_signature = replicate SIG_SIZE 0\<rparr>"

definition Device_build_hello_packet ::
  "'k crypto \<Rightarrow> 'k \<Rightarrow> int \<Rightarrow> bytes option \<Rightarrow> ('k device, packet) pymethod" where
  "Device_build_hello_packet C fresh now_ms recipient d =
     (let recipient_id = (case recipient of None \<Rightarrow> BROADCAST_ID | Some r \<Rightarrow> r)
      in bindS (Device_generate_ephemeral_keypair C fresh recipient_id) (\<lambda>x25519_pub d1.
           (bindE (Packet_post_init now_ms
                     (new_packet HELLO (dev_device_id d1) (dev_identity_public_bytes d1 @ x25519_pub)
                        recipient_id FLAG_NONE 0 (replicate 12 0))) (\<lambda>packet.
            bindE (sign_packet C (dev_identity_private d1) packet) (\<lambda>s.
              Inr (packet\<lparr>pkt_signature := s\<rparr>))), d1)) d)"

text \<open>
  The common part of the four methods that send inside a session: look the session up, encrypt,
  draw the next sequence number, construct, authenticate. The number is drawn when the
  constructor's arguments are evaluated, so it is used up even if a later step raises.
\<close>

definition build_sealed ::
  "'k crypto \<Rightarrow> ('k device \<Rightarrow> session \<Rightarrow> packet \<Rightarrow> bytes result) \<Rightarrow> int \<Rightarrow> bytes \<Rightarrow> PacketType \<Rightarrow> int
     \<Rightarrow> bytes \<Rightarrow> bytes \<Rightarrow> ('k device, packet) pymethod" where
  "build_sealed C auth now_ms nonce ptype flags peer_id plaintext d =
     (case Device_get_session d peer_id of
        Inl e \<Rightarrow> (Inl e, d)
      | Inr session \<Rightarrow>
         (case crypto_encrypt C (ses_session_key session) nonce plaintext [] of
            Inl e \<Rightarrow> (Inl e, d)
          | Inr ciphertext \<Rightarrow>
             (let (seq, session1) = Session_next_sequence session;
                  d1 = put_session peer_id session1 d
              in (bindE (Packet_post_init now_ms
                          (new_packet ptype (dev_device_id d) ciphertext peer_id flags seq nonce)) (\<lambda>packet.
                  bindE (auth d1 session1 packet) (\<lambda>s. Inr (packet\<lparr>pkt_signature := s\<rparr>))), d1))))"

definition by_signature :: "'k crypto \<Rightarrow> 'k device \<Rightarrow> session \<Rightarrow> packet \<Rightarrow> bytes result" where
  "by_signature C d session packet = sign_packet C (dev_identity_private d) packet"

definition by_mac :: "'k crypto \<Rightarrow> 'k device \<Rightarrow> session \<Rightarrow> packet \<Rightarrow> bytes result" where
  "by_mac C d session packet = mac_packet C (ses_mac_key session) packet"

definition Device_build_data_packet ::
  "'k crypto \<Rightarrow> int \<Rightarrow> bytes \<Rightarrow> bytes \<Rightarrow> bytes \<Rightarrow> ('k device, packet) pymethod" where
  "Device_build_data_packet C now_ms nonce peer_id plaintext =
     build_sealed C (by_signature C) now_ms nonce DATA FLAG_ENCRYPTED peer_id plaintext"

definition Device_build_data_packet_mac ::
  "'k crypto \<Rightarrow> int \<Rightarrow> bytes \<Rightarrow> bytes \<Rightarrow> bytes \<Rightarrow> ('k device, packet) pymethod" where
  "Device_build_data_packet_mac C now_ms nonce peer_id plaintext =
     build_sealed C (by_mac C) now_ms nonce DATA (FLAG_ENCRYPTED OR FLAG_MAC_AUTH) peer_id plaintext"

definition Device_build_ack_packet ::
  "'k crypto \<Rightarrow> int \<Rightarrow> bytes \<Rightarrow> bytes \<Rightarrow> int \<Rightarrow> ('k device, packet) pymethod" where
  "Device_build_ack_packet C now_ms nonce peer_id acked_sequence d =
     (case Device_get_session d peer_id of
        Inl e \<Rightarrow> (Inl e, d)
      | Inr _ \<Rightarrow>
         (case pack_uint 4 acked_sequence of
            Inl e \<Rightarrow> (Inl e, d)
          | Inr ack_payload \<Rightarrow>
              build_sealed C (by_signature C) now_ms nonce ACK FLAG_ENCRYPTED peer_id ack_payload d))"

definition Device_build_bye_packet ::
  "'k crypto \<Rightarrow> int \<Rightarrow> bytes \<Rightarrow> bytes \<Rightarrow> ('k device, packet) pymethod" where
  "Device_build_bye_packet C now_ms nonce peer_id =
     build_sealed C (by_signature C) now_ms nonce BYE FLAG_ENCRYPTED peer_id (ascii ''BYE'')"

section \<open>Reception\<close>

text \<open>
  \<open>now_parse\<close> is the clock reading of the parser (used only for a zero timestamp field) and
  \<open>now_ms\<close> that of the replay check.
\<close>

definition Device_receive_packet ::
  "'k crypto \<Rightarrow> int \<Rightarrow> int \<Rightarrow> bytes \<Rightarrow> ('k device, packet) pymethod" where
  "Device_receive_packet C now_parse now_ms raw d =
     (case Packet_from_bytes now_parse raw of
        Inl e \<Rightarrow> (Inl e, d)
      | Inr packet \<Rightarrow>
         (if pkt_ptype packet = HELLO
          then (case verify_packet C (take 32 (pkt_payload packet)) packet of
                  Inl e \<Rightarrow> (Inl e, d)
                | Inr False \<Rightarrow> (Inl SignatureVerificationError, d)
                | Inr True \<Rightarrow> (Inr packet, d))
          else case dict_get (dev_sessions d) (pkt_sender_id packet) of
            Some session \<Rightarrow>
              (case (if pkt_flags packet AND FLAG_MAC_AUTH \<noteq> 0
                     then verify_packet_mac C (ses_mac_key session) packet
                     else verify_packet C (ses_peer_ed25519_public session) packet) of
                 Inl e \<Rightarrow> (Inl e, d)
               | Inr False \<Rightarrow> (Inl SignatureVerificationError, d)
               | Inr True \<Rightarrow>
                   (case Session_check_replay now_ms (pkt_sequence packet) (pkt_timestamp_ms packet) session of
                      (r, session1) \<Rightarrow>
                        (bindE r (\<lambda>_. Inr packet), put_session (pkt_sender_id packet) session1 d)))
          | None \<Rightarrow>
              (case dict_get (dev_pending_peer_keys d) (pkt_sender_id packet) of
                 None \<Rightarrow> (Inl SessionNotFoundError, d)
               | Some sender_ed25519_pub \<Rightarrow>
                   (case verify_packet C sender_ed25519_pub packet of
                      Inl e \<Rightarrow> (Inl e, d)
                    | Inr False \<Rightarrow> (Inl SignatureVerificationError, d)
                    | Inr True \<Rightarrow> (Inr packet, d)))))"

definition Device_decrypt_packet :: "'k crypto \<Rightarrow> 'k device \<Rightarrow> packet \<Rightarrow> bytes result" where
  "Device_decrypt_packet C d packet =
     bindE (Device_get_session d (pkt_sender_id packet)) (\<lambda>session.
       crypto_decrypt C (ses_session_key session) (pkt_nonce packet) (pkt_payload packet) [])"

end
