(* ===== verification/Device_Lemmas.thy ===== *)
theory Device_Lemmas
  imports Device
begin

text \<open>
  What the methods of a device do: the invariant of its dictionaries, the packets it builds, and
  what its reception accepts. The interface between the construction and the reception of packets is
  the locale \<open>packet_auth\<close>: an authenticator whose tags the receiver's check accepts. Ed25519
  signatures and HMAC tags are its two instances.
\<close>

section \<open>Well-formed devices\<close>

definition session_wf :: "bytes \<Rightarrow> session \<Rightarrow> bool" where
  "session_wf k s \<longleftrightarrow> ses_peer_id s = k \<and> length k = 32 \<and> length (ses_peer_ed25519_public s) = 32 \<and>
     length (ses_session_key s) = 32 \<and> length (ses_mac_key s) = 64 \<and> 0 \<le> ses_local_sequence s \<and>
     (\<exists>seen. replay_inv seen s)"

definition device_wf :: "'k crypto \<Rightarrow> 'k device \<Rightarrow> bool" where
  "device_wf C d \<longleftrightarrow>
     dev_identity_public_bytes d = ed_public_bytes C (ed_public_key C (dev_identity_private d)) \<and>
     dev_device_id d = sha256 (dev_identity_public_bytes d) \<and>
     (\<forall>k s. dict_get (dev_sessions d) k = Some s \<longrightarrow> session_wf k s) \<and>
     (\<forall>k. dict_get (dev_ephemeral_public d) k =
            map_option (\<lambda>x. x_public_bytes C (x_public_key C x)) (dict_get (dev_ephemeral_private d) k))"

datatype 'k device_op =
    Dev_rotate 'k int
  | Dev_pending bytes bytes
  | Dev_ephemeral 'k bytes
  | Dev_complete bytes bytes bytes bool
  | Dev_remove bytes
  | Dev_hello 'k int "bytes option"
  | Dev_data int bytes bytes bytes
  | Dev_data_mac int bytes bytes bytes
  | Dev_ack int bytes bytes int
  | Dev_bye int bytes bytes
  | Dev_receive int int bytes

fun device_exec :: "'k crypto \<Rightarrow> 'k device_op \<Rightarrow> 'k device \<Rightarrow> 'k device" where
  "device_exec C (Dev_rotate k n) d = snd (Device_rotate_key C k n d)"
| "device_exec C (Dev_pending p k) d = Device_register_pending_peer p k d"
| "device_exec C (Dev_ephemeral k p) d = snd (Device_generate_ephemeral_keypair C k p d)"
| "device_exec C (Dev_complete p e x i) d = snd (Device_complete_key_exchange C p e x i d)"
| "device_exec C (Dev_remove p) d = Device_remove_session p d"
| "device_exec C (Dev_hello k n r) d = snd (Device_build_hello_packet C k n r d)"
| "device_exec C (Dev_data n nonce p t) d = snd (Device_build_data_packet C n nonce p t d)"
| "device_exec C (Dev_data_mac n nonce p t) d = snd (Device_build_data_packet_mac C n nonce p t d)"
| "device_exec C (Dev_ack n nonce p q) d = snd (Device_build_ack_packet C n nonce p q d)"
| "device_exec C (Dev_bye n nonce p) d = snd (Device_build_bye_packet C n nonce p d)"
| "device_exec C (Dev_receive n m raw) d = snd (Device_receive_packet C n m raw d)"

fun device_run :: "'k crypto \<Rightarrow> 'k device_op list \<Rightarrow> 'k device \<Rightarrow> 'k device" where
  "device_run C [] d = d"
| "device_run C (x # xs) d = device_run C xs (device_exec C x d)"

lemma Device_new_wf: "device_wf C (Device_new C k name)"
  by (simp add: device_wf_def Device_new_def crypto_engine_defs)

lemma put_session_wf: "device_wf C d \<Longrightarrow> session_wf k s \<Longrightarrow> device_wf C (put_session k s d)"
  by (simp add: device_wf_def put_session_def dict_simps)

lemma get_session_wf: "device_wf C d \<Longrightarrow> Device_get_session d k = Inr s \<Longrightarrow> session_wf k s"
  by (auto simp: device_wf_def Device_get_session_def split: option.splits)

lemma device_session_wf: "device_wf C d \<Longrightarrow> dict_get (dev_sessions d) k = Some s \<Longrightarrow> session_wf k s"
  by (simp add: device_wf_def)

lemma next_sequence_wf: "session_wf k s \<Longrightarrow> session_wf k (snd (Session_next_sequence s))"
  by (simp add: session_wf_def Session_next_sequence_def replay_inv_def)

lemma check_replay_frame [simp]:
  "ses_peer_id (snd (Session_check_replay now q ts s)) = ses_peer_id s"
  "ses_peer_ed25519_public (snd (Session_check_replay now q ts s)) = ses_peer_ed25519_public s"
  "ses_session_key (snd (Session_check_replay now q ts s)) = ses_session_key s"
  "ses_mac_key (snd (Session_check_replay now q ts s)) = ses_mac_key s"
  "ses_local_sequence (snd (Session_check_replay now q ts s)) = ses_local_sequence s"
  by (simp_all add: Session_check_replay_def Let_def)

lemma check_replay_wf: "session_wf k s \<Longrightarrow> session_wf k (snd (Session_check_replay now q ts s))"
proof -
  assume wf: "session_wf k s"
  then obtain seen where inv: "replay_inv seen s" by (auto simp: session_wf_def)
  have "\<exists>seen. replay_inv seen (snd (Session_check_replay now q ts s))"
    using check_replay_inv_ok [OF inv] check_replay_reject [OF inv] inv by metis
  then show ?thesis
    using wf by (simp add: session_wf_def)
qed

lemma build_sealed_wf: "device_wf C d \<Longrightarrow> device_wf C (snd (build_sealed C auth n nonce pt fl p t d))"
proof -
  assume wf: "device_wf C d"
  show ?thesis
  proof (cases "Device_get_session d p")
    case (Inr s)
    have "session_wf p (snd (Session_next_sequence s))"
      by (rule next_sequence_wf [OF get_session_wf [OF wf Inr]])
    then show ?thesis
      using wf Inr
      by (cases "crypto_encrypt C (ses_session_key s) nonce t []")
         (auto simp: build_sealed_def put_session_wf Let_def split: prod.splits)
  qed (use wf in \<open>simp add: build_sealed_def\<close>)
qed

lemma generate_ephemeral_wf:
  "device_wf C d \<Longrightarrow> device_wf C (snd (Device_generate_ephemeral_keypair C k p d))"
  by (auto simp: device_wf_def Device_generate_ephemeral_keypair_def crypto_engine_defs dict_simps Let_def
      split: option.splits)

lemma build_hello_state:
  "snd (Device_build_hello_packet C k n r d) =
     snd (Device_generate_ephemeral_keypair C k (case r of None \<Rightarrow> BROADCAST_ID | Some r \<Rightarrow> r) d)"
  by (simp add: Device_build_hello_packet_def Let_def bindS_def split: prod.splits sum.splits)

text \<open>The check of a packet from a peer with a session: HMAC tag or Ed25519 signature.\<close>

definition session_authentic :: "'k crypto \<Rightarrow> session \<Rightarrow> packet \<Rightarrow> bool result" where
  "session_authentic C s p =
     (if pkt_flags p AND FLAG_MAC_AUTH \<noteq> 0 then verify_packet_mac C (ses_mac_key s) p
      else verify_packet C (ses_peer_ed25519_public s) p)"

abbreviation replay_checked :: "int \<Rightarrow> packet \<Rightarrow> session \<Rightarrow> unit result \<times> session" where
  "replay_checked now p s \<equiv> Session_check_replay now (pkt_sequence p) (pkt_timestamp_ms p) s"

lemma receive_packet_cases:
  obtains (failed) e where "Device_receive_packet C n m raw d = (Inl e, d)"
  | (hello) p where "Packet_from_bytes n raw = Inr p" and "pkt_ptype p = HELLO"
      and "verify_packet C (take 32 (pkt_payload p)) p = Inr True"
      and "Device_receive_packet C n m raw d = (Inr p, d)"
  | (session) p s where "Packet_from_bytes n raw = Inr p" and "pkt_ptype p \<noteq> HELLO"
      and "dict_get (dev_sessions d) (pkt_sender_id p) = Some s" and "session_authentic C s p = Inr True"
      and "Device_receive_packet C n m raw d =
        (bindE (fst (replay_checked m p s)) (\<lambda>_. Inr p),
         put_session (pkt_sender_id p) (snd (replay_checked m p s)) d)"
  | (pending) p k where "Packet_from_bytes n raw = Inr p" and "pkt_ptype p \<noteq> HELLO"
      and "dict_get (dev_sessions d) (pkt_sender_id p) = None"
      and "dict_get (dev_pending_peer_keys d) (pkt_sender_id p) = Some k"
      and "verify_packet C k p = Inr True" and "Device_receive_packet C n m raw d = (Inr p, d)"
proof (cases "Packet_from_bytes n raw")
  case (Inl e)
  then show ?thesis using failed by (simp add: Device_receive_packet_def)
next
  case p: (Inr p)
  have three: "(\<exists>e. r = Inl e) \<or> r = Inr False \<or> r = Inr True" for r :: "bool result"
    by (cases r) auto
  show ?thesis
  proof (cases "pkt_ptype p = HELLO")
    case True
    with p show ?thesis
      using three [of "verify_packet C (take 32 (pkt_payload p)) p"] failed hello
      by (fastforce simp: Device_receive_packet_def)
  next
    case nh: False
    show ?thesis
    proof (cases "dict_get (dev_sessions d) (pkt_sender_id p)")
      case (Some s)
      have e: "Device_receive_packet C n m raw d =
          (case session_authentic C s p of Inl e \<Rightarrow> (Inl e, d)
           | Inr False \<Rightarrow> (Inl SignatureVerificationError, d)
           | Inr True \<Rightarrow> (bindE (fst (replay_checked m p s)) (\<lambda>_. Inr p),
               put_session (pkt_sender_id p) (snd (replay_checked m p s)) d))"
        unfolding Device_receive_packet_def session_authentic_def p sum.case if_not_P [OF nh] Some
          option.case case_prod_beta ..
      from three [of "session_authentic C s p"] show ?thesis
        by (elim disjE exE) (use p nh Some e failed session in simp_all)
    next
      case None
      show ?thesis
      proof (cases "dict_get (dev_pending_peer_keys d) (pkt_sender_id p)")
        case None': None
        with p nh None failed show ?thesis by (simp add: Device_receive_packet_def)
      next
        case (Some k)
        with p nh None show ?thesis
          using three [of "verify_packet C k p"] failed pending
          by (fastforce simp: Device_receive_packet_def)
      qed
    qed
  qed
qed

lemma receive_packet_wf:
  assumes wf: "device_wf C d"
  shows "device_wf C (snd (Device_receive_packet C n m raw d))"
proof (cases rule: receive_packet_cases [where C = C and n = n and m = m and raw = raw and d = d])
  case (session p s)
  then show ?thesis
    using put_session_wf [OF wf check_replay_wf [OF device_session_wf [OF wf session(3)]]] by simp
qed (use wf in simp_all)

lemma complete_key_exchange_wf:
  assumes wf: "device_wf C d"
  shows "device_wf C (snd (Device_complete_key_exchange C p e x i d))"
proof (cases "dict_get (dev_ephemeral_private d) p")
  case None
  then show ?thesis using wf by (simp add: Device_complete_key_exchange_def)
next
  case (Some priv)
  have pub: "dict_get (dev_ephemeral_public d) p \<noteq> None"
    using wf Some by (simp add: device_wf_def)
  have new: "session_wf p s" if "Session_new p e k m = Inr s" for k m s
    using that replay_inv_new [OF that] by (auto simp: session_wf_def Session_new_def split: if_splits)
  show ?thesis
    using wf Some pub new
    by (auto simp: Device_complete_key_exchange_def Let_def device_wf_def dict_simps
        split: sum.splits if_splits)
qed

lemma device_exec_wf: "device_wf C d \<Longrightarrow> device_wf C (device_exec C x d)"
proof (cases x)
  case (Dev_rotate k n)
  then show "device_wf C d \<Longrightarrow> ?thesis"
    by (auto simp: Device_rotate_key_def device_wf_def crypto_engine_defs Let_def split: sum.splits)
next
  case (Dev_ack n nonce p q)
  then show "device_wf C d \<Longrightarrow> ?thesis"
    by (simp add: Device_build_ack_packet_def build_sealed_wf split: sum.splits)
qed (simp_all add: Device_register_pending_peer_def Device_remove_session_def build_hello_state
      generate_ephemeral_wf complete_key_exchange_wf receive_packet_wf build_sealed_wf
      Device_build_data_packet_def Device_build_data_packet_mac_def Device_build_bye_packet_def,
      simp_all add: device_wf_def dict_simps)

lemma device_run_wf: "device_wf C d \<Longrightarrow> device_wf C (device_run C xs d)"
  by (induction xs arbitrary: d) (simp_all add: device_exec_wf)

section \<open>Authenticated packets\<close>

text \<open>
  The contract between the two ends: when the primitive is sound (\<open>ok\<close>), the sender's
  authenticator produces a 64-byte tag for every packet whose integers fit, and the receiver's check
  accepts the tagged packet.
\<close>

locale packet_auth =
  fixes ok :: bool
    and auth :: "packet \<Rightarrow> bytes result"
    and check :: "packet \<Rightarrow> bool result"
  assumes auth_total: "ok \<Longrightarrow> Packet_signed_bytes p = Inr b \<Longrightarrow> \<exists>t. auth p = Inr t \<and> length t = 64"
    and auth_check: "ok \<Longrightarrow> auth p = Inr t \<Longrightarrow> check (p\<lparr>pkt_signature := t\<rparr>) = Inr True"
begin

lemma tagged:
  assumes "ok" and "packet_wf p"
  shows "\<exists>t. auth p = Inr t \<and> packet_wf (p\<lparr>pkt_signature := t\<rparr>) \<and> check (p\<lparr>pkt_signature := t\<rparr>) = Inr True"
proof -
  obtain t where "auth p = Inr t" and "length t = 64"
    using auth_total [OF assms(1) Packet_signed_bytes_wf [OF assms(2)]] by blast
  with auth_check [OF assms(1), of p t] assms show ?thesis by (auto simp: packet_wf_def)
qed

end

interpretation signature_auth:
  packet_auth "ed_laws C" "sign_packet C sk" "verify_packet C (ed_public_bytes C (ed_public_key C sk))"
  for C :: "'k crypto" and sk
proof unfold_locales
  show "\<exists>t. sign_packet C sk p = Inr t \<and> length t = 64"
    if "ed_laws C" "Packet_signed_bytes p = Inr b" for p b
    using that by (simp add: sign_packet_def crypto_sign_def ed_laws_def)
  show "verify_packet C (ed_public_bytes C (ed_public_key C sk)) (p\<lparr>pkt_signature := t\<rparr>) = Inr True"
    if "ed_laws C" "sign_packet C sk p = Inr t" for p t
    using verify_packet_sign [OF that] .
qed

interpretation mac_auth: packet_auth "mac_laws C" "mac_packet C k" "verify_packet_mac C k"
  for C :: "'k crypto" and k
proof unfold_locales
  show "\<exists>t. mac_packet C k p = Inr t \<and> length t = 64"
    if "mac_laws C" "Packet_signed_bytes p = Inr b" for p b
    using that by (simp add: mac_packet_def compute_mac_def mac_laws_def)
  show "verify_packet_mac C k (p\<lparr>pkt_signature := t\<rparr>) = Inr True"
    if "mac_laws C" "mac_packet C k p = Inr t" for p t
    using verify_packet_mac_tag [OF that] .
qed

text \<open>A constructed packet with a clock reading in range.\<close>

abbreviation clock_ok :: "int \<Rightarrow> bool" where
  "clock_ok now \<equiv> 0 < now \<and> now < 256 ^ 8"

lemma new_packet_wf:
  assumes "length sender = 32" and "length recipient = 32" and "length nonce = 12" and "clock_ok now"
    and "0 \<le> flags" and "flags < 256 ^ 2" and "0 \<le> seq" and "seq < 256 ^ 4"
    and "int (length payload) < 256 ^ 4"
  shows "Packet_post_init now (new_packet pt sender payload recipient flags seq nonce)
           = Inr ((new_packet pt sender payload recipient flags seq nonce)\<lparr>pkt_timestamp_ms := now\<rparr>)"
    and "packet_wf ((new_packet pt sender payload recipient flags seq nonce)\<lparr>pkt_timestamp_ms := now\<rparr>)"
  using assms by (simp_all add: Packet_post_init_def new_packet_def packet_wf_def SIG_SIZE_def)

text \<open>The packet that a session's owner sends, in one piece.\<close>

definition sealed_packet ::
  "PacketType \<Rightarrow> int \<Rightarrow> bytes \<Rightarrow> bytes \<Rightarrow> int \<Rightarrow> bytes \<Rightarrow> int \<Rightarrow> bytes \<Rightarrow> bytes \<Rightarrow> packet" where
  "sealed_packet pt flags sender recipient seq nonce now payload tag =
     (new_packet pt sender payload recipient flags seq nonce)\<lparr>pkt_timestamp_ms := now, pkt_signature := tag\<rparr>"

lemma sealed_fields [simp]:
  "pkt_ptype (sealed_packet pt fl a b q nonce now c t) = pt"
  "pkt_flags (sealed_packet pt fl a b q nonce now c t) = fl"
  "pkt_sender_id (sealed_packet pt fl a b q nonce now c t) = a"
  "pkt_recipient_id (sealed_packet pt fl a b q nonce now c t) = b"
  "pkt_sequence (sealed_packet pt fl a b q nonce now c t) = q"
  "pkt_nonce (sealed_packet pt fl a b q nonce now c t) = nonce"
  "pkt_timestamp_ms (sealed_packet pt fl a b q nonce now c t) = now"
  "pkt_payload (sealed_packet pt fl a b q nonce now c t) = c"
  "pkt_signature (sealed_packet pt fl a b q nonce now c t) = t"
  by (simp_all add: sealed_packet_def new_packet_def)

lemma sealed_exists:
  assumes "packet_auth ok auth check" and "ok" and "aead_laws C" and "length key = 32" and "length nonce = 12"
    and "int (length plain) < 2 ^ 31" and "length sender = 32" and "length recipient = 32" and "clock_ok now"
    and "0 \<le> flags" and "flags < 256 ^ 2" and "0 \<le> seq" and "seq < 256 ^ 4"
  shows "\<exists>c t. crypto_encrypt C key nonce plain [] = Inr c \<and> crypto_decrypt C key nonce c [] = Inr plain \<and>
     Packet_post_init now (new_packet pt sender c recipient flags seq nonce)
       = Inr ((new_packet pt sender c recipient flags seq nonce)\<lparr>pkt_timestamp_ms := now\<rparr>) \<and>
     auth ((new_packet pt sender c recipient flags seq nonce)\<lparr>pkt_timestamp_ms := now\<rparr>) = Inr t \<and>
     packet_wf (sealed_packet pt flags sender recipient seq nonce now c t) \<and>
     check (sealed_packet pt flags sender recipient seq nonce now c t) = Inr True"
proof -
  obtain c where c: "crypto_encrypt C key nonce plain [] = Inr c" "length c = length plain + 16"
    "crypto_decrypt C key nonce c [] = Inr plain"
    using decrypt_encrypt [OF assms(3-6)] by blast
  have "int (length c) < 256 ^ 4" using c(2) assms(6) by simp
  note p = new_packet_wf [OF assms(7,8,5,9-13) this, of pt]
  obtain t where t: "auth ((new_packet pt sender c recipient flags seq nonce)\<lparr>pkt_timestamp_ms := now\<rparr>) = Inr t"
    "packet_wf (sealed_packet pt flags sender recipient seq nonce now c t)"
    "check (sealed_packet pt flags sender recipient seq nonce now c t) = Inr True"
    using packet_auth.tagged [OF assms(1,2) p(2)] by (auto simp: sealed_packet_def)
  with c p(1) show ?thesis by blast
qed

lemma build_sealed_ok:
  assumes auth: "packet_auth ok (auth d1 s1) check" "ok" and laws: "aead_laws C"
    and s: "dict_get (dev_sessions d) peer = Some s" "session_wf peer s" "ses_local_sequence s < 256 ^ 4"
    and d1: "s1 = s\<lparr>ses_local_sequence := ses_local_sequence s + 1\<rparr>" "d1 = put_session peer s1 d"
    and args: "length nonce = 12" "int (length plain) < 2 ^ 31" "length (dev_device_id d) = 32"
      "clock_ok now" "0 \<le> flags" "flags < 256 ^ 2"
  shows "\<exists>c t p. p = sealed_packet pt flags (dev_device_id d) peer (ses_local_sequence s) nonce now c t \<and>
     build_sealed C auth now nonce pt flags peer plain d = (Inr p, d1) \<and>
     crypto_decrypt C (ses_session_key s) nonce c [] = Inr plain \<and> packet_wf p \<and> check p = Inr True"
proof -
  have wf: "length (ses_session_key s) = 32" "length peer = 32" "0 \<le> ses_local_sequence s"
    using s(2) by (simp_all add: session_wf_def)
  obtain c t where ct: "crypto_encrypt C (ses_session_key s) nonce plain [] = Inr c"
    "crypto_decrypt C (ses_session_key s) nonce c [] = Inr plain"
    "Packet_post_init now (new_packet pt (dev_device_id d) c peer flags (ses_local_sequence s) nonce)
       = Inr ((new_packet pt (dev_device_id d) c peer flags (ses_local_sequence s) nonce)\<lparr>pkt_timestamp_ms := now\<rparr>)"
    "auth d1 s1 ((new_packet pt (dev_device_id d) c peer flags (ses_local_sequence s) nonce)\<lparr>pkt_timestamp_ms := now\<rparr>) = Inr t"
    and p: "packet_wf (sealed_packet pt flags (dev_device_id d) peer (ses_local_sequence s) nonce now c t)"
    "check (sealed_packet pt flags (dev_device_id d) peer (ses_local_sequence s) nonce now c t) = Inr True"
    using sealed_exists [OF auth laws wf(1) args(1,2,3) wf(2) args(4-6) wf(3) s(3), of pt] by blast
  have "build_sealed C auth now nonce pt flags peer plain d =
      (Inr (sealed_packet pt flags (dev_device_id d) peer (ses_local_sequence s) nonce now c t), d1)"
    using ct by (simp add: build_sealed_def Device_get_session_def s(1) Session_next_sequence_def
        d1 [symmetric] sealed_packet_def)
  with ct(2) p show ?thesis by blast
qed

lemma receive_sealed:
  assumes "packet_wf p" and "Packet_to_bytes p = Inr wire" and "pkt_ptype p \<noteq> HELLO"
    and "dict_get (dev_sessions d) (pkt_sender_id p) = Some s" and "session_authentic C s p = Inr True"
    and "replay_checked m p s = (Inr (), s')"
  shows "Device_receive_packet C n m wire d = (Inr p, put_session (pkt_sender_id p) s' d)"
proof -
  have "Packet_from_bytes n wire = Inr p"
    using packet_codec.dec_enc [OF assms(1,2)] .
  moreover have "(if pkt_flags p AND FLAG_MAC_AUTH \<noteq> 0 then verify_packet_mac C (ses_mac_key s) p
      else verify_packet C (ses_peer_ed25519_public s) p) = Inr True"
    using assms(5) by (simp only: session_authentic_def)
  ultimately show ?thesis
    using assms(3,4,6) unfolding Device_receive_packet_def by (simp only: sum.case if_False option.case
        bool.case prod.case bindE_simps)
qed

lemma device_id_length: "device_wf C d \<Longrightarrow> length (dev_device_id d) = 32"
  by (simp add: device_wf_def)

end
