(* ===== verification/Device_Properties.thy ===== *)
theory Device_Properties
  imports Device_Lemmas
begin

text \<open>
  The properties of a device: its invariant, the authenticity of what it accepts, the delivery of
  data between two devices that share a session, protection against replays for the life of a
  session, and what a key rotation does to sessions.
\<close>

section \<open>Lemmas\<close>

lemma parsed_authentic:
  assumes "Packet_from_bytes n raw = Inr p"
  shows "verify_packet C k p = Inr True \<Longrightarrow>
      crypto_verify C k (take (100 + length (pkt_payload p)) (seen_bytes n raw)) (pkt_signature p) = Inr True"
    and "verify_packet_mac C m p = Inr True \<Longrightarrow>
      verify_mac C m (take (100 + length (pkt_payload p)) (seen_bytes n raw)) (pkt_signature p) = Inr True"
  using signed_bytes_seen [OF assms] by (auto simp: verify_packet_def verify_packet_mac_def bindE_eq_Inr)

text \<open>The operations that neither replace nor remove the session of a peer.\<close>

fun keeps_session :: "bytes \<Rightarrow> 'k device_op \<Rightarrow> bool" where
  "keeps_session k (Dev_complete p e x i) \<longleftrightarrow> p \<noteq> k"
| "keeps_session k (Dev_remove p) \<longleftrightarrow> p \<noteq> k"
| "keeps_session k _ \<longleftrightarrow> True"

definition has_seen :: "bytes \<Rightarrow> int \<Rightarrow> 'k device \<Rightarrow> bool" where
  "has_seen k q d \<longleftrightarrow> (\<exists>s seen. dict_get (dev_sessions d) k = Some s \<and> replay_inv seen s \<and> q \<in> seen)"

lemma has_seen_put:
  assumes "has_seen k q d" and "dict_get (dev_sessions d) k' = Some s"
    and "\<And>seen. replay_inv seen s \<Longrightarrow> \<exists>seen'. replay_inv seen' s' \<and> seen \<subseteq> seen'"
  shows "has_seen k q (put_session k' s' d)"
  using assms by (force simp: has_seen_def put_session_def dict_simps)

lemma check_replay_grows:
  "replay_inv seen s \<Longrightarrow> \<exists>seen'. replay_inv seen' (snd (Session_check_replay now q ts s)) \<and> seen \<subseteq> seen'"
  by (metis check_replay_inv_ok check_replay_reject subset_insertI subset_refl)

lemma has_seen_sealed: "has_seen k q d \<Longrightarrow> has_seen k q (snd (build_sealed C auth n nonce pt fl p t d))"
proof -
  assume seen: "has_seen k q d"
  show ?thesis
  proof (cases "dict_get (dev_sessions d) p")
    case None
    then show ?thesis using seen by (simp add: build_sealed_def Device_get_session_def)
  next
    case (Some s)
    have "has_seen k q (put_session p (s\<lparr>ses_local_sequence := ses_local_sequence s + 1\<rparr>) d)"
      by (rule has_seen_put [OF seen Some]) (auto simp: replay_inv_def)
    then show ?thesis
      using seen Some
      by (simp add: build_sealed_def Device_get_session_def Session_next_sequence_def Let_def split: sum.splits)
  qed
qed

lemma has_seen_receive: "has_seen k q d \<Longrightarrow> has_seen k q (snd (Device_receive_packet C n m raw d))"
proof (cases rule: receive_packet_cases [where C = C and n = n and m = m and raw = raw and d = d])
  case (session p s)
  assume "has_seen k q d"
  then have "has_seen k q (put_session (pkt_sender_id p) (snd (replay_checked m p s)) d)"
    by (rule has_seen_put [OF _ session(3)]) (rule check_replay_grows)
  then show ?thesis by (simp add: session(5))
qed simp_all

lemma has_seen_ephemeral:
  "has_seen k q d \<Longrightarrow> has_seen k q (snd (Device_generate_ephemeral_keypair C x p d))"
  by (simp add: has_seen_def Device_generate_ephemeral_keypair_def Let_def split: option.splits prod.splits)

lemma has_seen_complete:
  assumes "has_seen k q d" and "p \<noteq> k"
  shows "has_seen k q (snd (Device_complete_key_exchange C p e x i d))"
proof -
  have "dict_get (dev_sessions (snd (Device_complete_key_exchange C p e x i d))) k
      = dict_get (dev_sessions d) k"
    using assms(2)
    by (auto simp: Device_complete_key_exchange_def dict_simps Let_def split: option.splits sum.splits prod.splits)
  with assms(1) show ?thesis by (simp add: has_seen_def)
qed

lemma has_seen_exec: "has_seen k q d \<Longrightarrow> keeps_session k x \<Longrightarrow> has_seen k q (device_exec C x d)"
proof (cases x)
  case (Dev_rotate y n)
  then show "has_seen k q d \<Longrightarrow> ?thesis"
    by (simp add: Device_rotate_key_def has_seen_def Let_def split: sum.splits prod.splits)
next
  case (Dev_ack n nonce p y)
  then show "has_seen k q d \<Longrightarrow> ?thesis"
    by (simp add: Device_build_ack_packet_def has_seen_sealed split: sum.splits)
next
  case (Dev_remove p)
  then show "has_seen k q d \<Longrightarrow> keeps_session k x \<Longrightarrow> ?thesis"
    by (simp add: Device_remove_session_def has_seen_def dict_simps)
next
  case (Dev_pending p y)
  then show "has_seen k q d \<Longrightarrow> ?thesis"
    by (simp add: Device_register_pending_peer_def has_seen_def)
qed (simp_all add: has_seen_sealed has_seen_receive has_seen_ephemeral has_seen_complete build_hello_state
      Device_build_data_packet_def Device_build_data_packet_mac_def Device_build_bye_packet_def)

lemma has_seen_run:
  "has_seen k q d \<Longrightarrow> (\<forall>x \<in> set xs. keeps_session k x) \<Longrightarrow> has_seen k q (device_run C xs d)"
  by (induction xs arbitrary: d) (simp_all add: has_seen_exec)

lemma has_seen_refused:
  assumes "has_seen (pkt_sender_id p) (pkt_sequence p) d" and "Packet_from_bytes n raw = Inr p"
    and "pkt_ptype p \<noteq> HELLO"
  shows "\<exists>e. fst (Device_receive_packet C n m raw d) = Inl e"
proof (cases rule: receive_packet_cases [where C = C and n = n and m = m and raw = raw and d = d])
  case (session p' s)
  with assms(2) have p: "p' = p" by simp
  obtain seen where "replay_inv seen s" and "pkt_sequence p \<in> seen"
    using assms(1) session(3) by (auto simp: has_seen_def p)
  then obtain e where "fst (replay_checked m p s) = Inl e"
    using session_filter.no_second_accept by blast
  then show ?thesis by (simp add: session(5) p)
qed (use assms in \<open>auto simp: has_seen_def\<close>)

text \<open>The fields a parsed packet has from the wire do not depend on the parser's clock.\<close>

lemma parse_clock:
  assumes "Packet_from_bytes n raw = Inr p"
  shows "\<exists>p'. Packet_from_bytes n' raw = Inr p' \<and> pkt_sender_id p' = pkt_sender_id p \<and>
     pkt_sequence p' = pkt_sequence p \<and> pkt_ptype p' = pkt_ptype p"
  using assms by (auto simp: from_bytes_Inr)

lemma receive_marks_seen:
  assumes "device_wf C d" and "Device_receive_packet C n m raw d = (Inr p, d')" and "pkt_ptype p \<noteq> HELLO"
    and "dict_get (dev_sessions d) (pkt_sender_id p) \<noteq> None"
  shows "has_seen (pkt_sender_id p) (pkt_sequence p) d'" and "Packet_from_bytes n raw = Inr p"
proof -
  have "has_seen (pkt_sender_id p) (pkt_sequence p) d' \<and> Packet_from_bytes n raw = Inr p"
  proof (cases rule: receive_packet_cases [where C = C and n = n and m = m and raw = raw and d = d])
    case (session p' s)
    obtain seen where seen: "replay_inv seen s"
      using device_session_wf [OF assms(1) session(3)] by (auto simp: session_wf_def)
    obtain u where u: "fst (replay_checked m p' s) = Inr u"
      using assms(2) session(5) by (cases "fst (replay_checked m p' s)") auto
    have p: "p' = p" and d': "d' = put_session (pkt_sender_id p) (snd (replay_checked m p s)) d"
      using assms(2) session(5) u by auto
    have "replay_inv (insert (pkt_sequence p) seen) (snd (replay_checked m p s))"
      using session_filter.check_ok [OF seen] u p by (metis prod.collapse)
    then show ?thesis
      using session(1) by (auto simp: has_seen_def d' put_session_def dict_simps p)
  qed (use assms in auto)
  then show "has_seen (pkt_sender_id p) (pkt_sequence p) d'" and "Packet_from_bytes n raw = Inr p" by simp_all
qed

section \<open>Two devices with a session\<close>

text \<open>\<open>da\<close> and \<open>db\<close> hold the two ends \<open>sa\<close> and \<open>sb\<close> of a session.\<close>

definition share_session :: "'k device \<Rightarrow> session \<Rightarrow> 'k device \<Rightarrow> session \<Rightarrow> bool" where
  "share_session da sa db sb \<longleftrightarrow>
     dict_get (dev_sessions da) (dev_device_id db) = Some sa \<and>
     dict_get (dev_sessions db) (dev_device_id da) = Some sb \<and>
     ses_session_key sb = ses_session_key sa \<and> ses_mac_key sb = ses_mac_key sa \<and>
     ses_peer_ed25519_public sa = dev_identity_public_bytes db \<and>
     ses_peer_ed25519_public sb = dev_identity_public_bytes da"

abbreviation replay_fresh :: "int \<Rightarrow> session \<Rightarrow> bool" where
  "replay_fresh q s \<equiv> q \<notin> ses_peer_seq_window s \<and> ses_peer_max_seq s - 64 < q"

lemma check_replay_fresh:
  assumes "replay_fresh q s" and "\<bar>now - ts\<bar> \<le> 30000"
  shows "\<exists>s'. Session_check_replay now q ts s = (Inr (), s') \<and> ses_session_key s' = ses_session_key s"
proof -
  obtain s' where s': "Session_check_replay now q ts s = (Inr (), s')"
    using check_replay_accept [of now ts q s] assms by (auto simp: MAX_CLOCK_SKEW_MS_def REPLAY_WINDOW_def)
  then show ?thesis using check_replay_frame(3) [of now q ts s] by simp
qed

lemma sealed_delivered:
  assumes "packet_wf p" and "share_session da sa db sb" and "pkt_ptype p \<noteq> HELLO"
    and "pkt_sender_id p = dev_device_id da" and "session_authentic C sb p = Inr True"
    and "replay_fresh (pkt_sequence p) sb" and "\<bar>now - pkt_timestamp_ms p\<bar> \<le> 30000"
    and "crypto_decrypt C (ses_session_key sa) (pkt_nonce p) (pkt_payload p) [] = Inr plain"
  shows "\<exists>wire db'. Packet_to_bytes p = Inr wire \<and> Device_receive_packet C n now wire db = (Inr p, db') \<and>
           Device_decrypt_packet C db' p = Inr plain"
proof -
  obtain wire where w: "Packet_to_bytes p = Inr wire"
    using packet_codec.enc_total [OF assms(1)] by blast
  obtain s' where s': "replay_checked now p sb = (Inr (), s')" "ses_session_key s' = ses_session_key sb"
    using check_replay_fresh [OF assms(6,7)] by blast
  have sb: "dict_get (dev_sessions db) (pkt_sender_id p) = Some sb"
    using assms(2,4) by (simp add: share_session_def)
  have r: "Device_receive_packet C n now wire db = (Inr p, put_session (pkt_sender_id p) s' db)"
    by (rule receive_sealed [OF assms(1) w assms(3) sb assms(5) s'(1)])
  moreover have "Device_decrypt_packet C (put_session (pkt_sender_id p) s' db) p = Inr plain"
    using assms(2,8) s'(2)
    by (simp add: Device_decrypt_packet_def Device_get_session_def put_session_def dict_simps share_session_def)
  ultimately show ?thesis using w by blast
qed

lemma sealed_built:
  assumes laws: "crypto_laws C" and wf: "device_wf C da" and share: "share_session da sa db sb"
    and args: "length nonce = 12" "int (length plain) < 2 ^ 31" "clock_ok now" "ses_local_sequence sa < 256 ^ 4"
  obtains p c t where
    "build_sealed C (if mac then by_mac C else by_signature C) now nonce pt (if mac then 5 else 1) (dev_device_id db) plain da
       = (Inr p, put_session (dev_device_id db) (sa\<lparr>ses_local_sequence := ses_local_sequence sa + 1\<rparr>) da)"
    and "p = sealed_packet pt (if mac then 5 else 1) (dev_device_id da) (dev_device_id db)
       (ses_local_sequence sa) nonce now c t"
    and "packet_wf p" and "crypto_decrypt C (ses_session_key sa) nonce c [] = Inr plain"
    and "session_authentic C sb p = Inr True"
proof -
  have laws': "aead_laws C" "ed_laws C" "mac_laws C" using laws by (simp_all add: crypto_laws_def)
  have sa: "dict_get (dev_sessions da) (dev_device_id db) = Some sa"
    and key: "ses_peer_ed25519_public sb = ed_public_bytes C (ed_public_key C (dev_identity_private da))"
    and mk: "ses_mac_key sb = ses_mac_key sa"
    using share wf by (simp_all add: share_session_def device_wf_def)
  have swf: "session_wf (dev_device_id db) sa" by (rule device_session_wf [OF wf sa])
  let ?s1 = "sa\<lparr>ses_local_sequence := ses_local_sequence sa + 1\<rparr>"
  let ?d1 = "put_session (dev_device_id db) ?s1 da"
  have sig: "packet_auth (ed_laws C) (by_signature C ?d1 ?s1) (verify_packet C (ses_peer_ed25519_public sb))"
    using signature_auth.packet_auth_axioms [of C "dev_identity_private da"]
    by (simp add: by_signature_def [abs_def] put_session_def key)
  have tag: "packet_auth (mac_laws C) (by_mac C ?d1 ?s1) (verify_packet_mac C (ses_mac_key sb))"
    using mac_auth.packet_auth_axioms [of C "ses_mac_key sa"] by (simp add: by_mac_def [abs_def] mk)
  have flag: "(1 :: int) AND FLAG_MAC_AUTH = 0" "(5 :: int) AND FLAG_MAC_AUTH \<noteq> 0"
    by (simp_all add: FLAG_MAC_AUTH_def)
  show ?thesis
  proof (cases mac)
    case True
    then show ?thesis
      using build_sealed_ok [where auth = "by_mac C", OF tag laws'(3,1) sa swf args(4) refl refl args(1,2) device_id_length [OF wf] args(3), of 5 pt]
        that flag
      by (auto simp: session_authentic_def)
  next
    case False
    then show ?thesis
      using build_sealed_ok [where auth = "by_signature C", OF sig laws'(2,1) sa swf args(4) refl refl args(1,2) device_id_length [OF wf] args(3), of 1 pt]
        that flag
      by (auto simp: session_authentic_def)
  qed
qed

lemma data_packet_built:
  assumes "crypto_laws C" and "device_wf C da" and "share_session da sa db sb"
    and "length nonce = 12" "int (length plain) < 2 ^ 31" "clock_ok now" "ses_local_sequence sa < 256 ^ 4"
  obtains p c t da' where
    "(if mac then Device_build_data_packet_mac else Device_build_data_packet) C now nonce (dev_device_id db) plain da
       = (Inr p, da')"
    and "p = sealed_packet DATA (if mac then 5 else 1) (dev_device_id da) (dev_device_id db)
       (ses_local_sequence sa) nonce now c t"
    and "packet_wf p" and "crypto_decrypt C (ses_session_key sa) nonce c [] = Inr plain"
    and "session_authentic C sb p = Inr True"
proof (rule sealed_built [OF assms, where mac = mac and pt = DATA], goal_cases)
  case (1 p c t)
  then show ?thesis
    using that by (cases mac) (auto simp: Device_build_data_packet_def Device_build_data_packet_mac_def
        FLAG_ENCRYPTED_def FLAG_MAC_AUTH_def)
qed

text \<open>A concrete pair for the witnesses.\<close>

definition end_ab :: "bytes \<Rightarrow> bytes \<Rightarrow> session" where
  "end_ab peer pub = \<lparr>ses_peer_id = peer, ses_peer_ed25519_public = pub, ses_session_key = replicate 32 3,
     ses_mac_key = replicate 64 4, ses_local_sequence = 0, ses_peer_max_seq = 0, ses_peer_seq_window = {}\<rparr>"

definition dev_a :: "bytes device" where
  "dev_a = put_session id_b (end_ab id_b key_b) (Device_new toy key_a ''a'')"

definition dev_b :: "bytes device" where
  "dev_b = put_session id_a (end_ab id_a key_a) (Device_new toy key_b ''b'')"

lemma toy_public_key: "length k = 32 \<Longrightarrow> ed_public_bytes toy (ed_public_key toy k) = k"
  by (simp add: toy_def)

lemma end_ab_wf:
  assumes "length p = 32" and "length k = 32"
  shows "session_wf p (end_ab p k)"
proof -
  have "Session_new p k (replicate 32 3) (replicate 64 4) = Inr (end_ab p k)"
    using assms by (simp add: Session_new_def end_ab_def)
  then have "replay_inv {} (end_ab p k)" by (rule replay_inv_new)
  then have "\<exists>seen. replay_inv seen (end_ab p k)" ..
  with assms show ?thesis unfolding session_wf_def by (simp add: end_ab_def)
qed

lemma dev_ids: "dev_device_id dev_a = id_a" "dev_device_id dev_b = id_b"
  "dev_identity_public_bytes dev_a = key_a" "dev_identity_public_bytes dev_b = key_b"
  by (simp_all add: dev_a_def dev_b_def put_session_def Device_new_def crypto_engine_defs
      toy_public_key sha256_key_a sha256_key_b)

lemma dev_a_wf: "device_wf toy dev_a"
  unfolding dev_a_def by (rule put_session_wf [OF Device_new_wf]) (simp add: end_ab_wf)

lemma dev_b_wf: "device_wf toy dev_b"
  unfolding dev_b_def by (rule put_session_wf [OF Device_new_wf]) (simp add: end_ab_wf)

lemma dev_sessions_ab: "dev_sessions dev_a = [(id_b, end_ab id_b key_b)]"
  "dev_sessions dev_b = [(id_a, end_ab id_a key_a)]"
  by (simp_all add: dev_a_def dev_b_def put_session_def Device_new_def crypto_engine_defs)

lemma dev_ab_share: "share_session dev_a (end_ab id_b key_b) dev_b (end_ab id_a key_a)"
  by (simp add: share_session_def dev_ids dev_sessions_ab) (simp add: end_ab_def)

lemma received_packet_authentic:
  assumes "Device_receive_packet C n m raw d = (Inr p, d')"
  shows "Packet_from_bytes n raw = Inr p \<and>
    (if pkt_ptype p = HELLO
     then d' = d \<and> crypto_verify C (take 32 (pkt_payload p)) (take (100 + length (pkt_payload p)) (seen_bytes n raw)) (pkt_signature p) = Inr True
     else case dict_get (dev_sessions d) (pkt_sender_id p) of
       Some s \<Rightarrow> (\<exists>s'. Session_check_replay m (pkt_sequence p) (pkt_timestamp_ms p) s = (Inr (), s') \<and>
           d' = put_session (pkt_sender_id p) s' d \<and>
           (if pkt_flags p AND FLAG_MAC_AUTH \<noteq> 0
            then verify_mac C (ses_mac_key s) (take (100 + length (pkt_payload p)) (seen_bytes n raw)) (pkt_signature p) = Inr True
            else crypto_verify C (ses_peer_ed25519_public s) (take (100 + length (pkt_payload p)) (seen_bytes n raw)) (pkt_signature p) = Inr True))
     | None \<Rightarrow> d' = d \<and> (\<exists>k. dict_get (dev_pending_peer_keys d) (pkt_sender_id p) = Some k \<and>
           crypto_verify C k (take (100 + length (pkt_payload p)) (seen_bytes n raw)) (pkt_signature p) = Inr True))"
proof (cases rule: receive_packet_cases [where C = C and n = n and m = m and raw = raw and d = d])
  case (session p' s)
  obtain u where u: "fst (replay_checked m p' s) = Inr u"
    using assms(1) session(5) by (cases "fst (replay_checked m p' s)") auto
  then have p: "p' = p" and d': "d' = put_session (pkt_sender_id p) (snd (replay_checked m p s)) d"
    using assms(1) session(5) by auto
  have c: "replay_checked m p s = (Inr (), snd (replay_checked m p s))"
    using u p by (metis prod.collapse unit.exhaust)
  show ?thesis
    using session(1-4) c d' parsed_authentic [OF session(1) [unfolded p]]
    by (auto simp: p session_authentic_def split: if_splits intro!: exI [of _ "snd (replay_checked m p s)"])
next
  case (hello p')
  then show ?thesis using assms(1) parsed_authentic(1) [OF hello(1), of C "take 32 (pkt_payload p')"]
    by auto
next
  case (pending p' k)
  then show ?thesis using assms(1) parsed_authentic(1) [OF pending(1), of C k] by auto
qed (use assms in simp)

section \<open>Properties\<close>

text \<open>C13: a device stays well formed. Along every sequence of its operations, whether they raise or
  not, its identity is the hash of its public key, which belongs to its private key; every session is
  stored under the identity of its peer, has keys of the right sizes and a replay window that
  remembers exactly the recent accepted numbers; and the ephemeral public keys are those of the
  ephemeral private keys.\<close>

theorem device_invariant: "device_wf C (device_run C xs (Device_new C k name))"
  by (rule device_run_wf [OF Device_new_wf])

text \<open>C9: what a device accepts is authentic. A packet returned by reception was parsed from the
  received bytes, and its last 64 bytes authenticate its header and payload as the parser saw them: exactly
  the received ones when the timestamp field (bytes 72 to 80) is not zero, and the received ones with
  the parser's clock reading in that field when it is zero. They do so, for a
  HELLO, under the key in its own payload; for a peer with a session, under the MAC key or the Ed25519 key
  of that session, and the replay check has passed; for a peer in a handshake, under the key of its HELLO.
  Nothing but the replay window of the sender's session changes.\<close>

theorem receive_authentic:
  assumes "Device_receive_packet C n m raw d = (Inr p, d')"
  shows "Packet_from_bytes n raw = Inr p \<and>
    (let seen = take (100 + length (pkt_payload p))
       (if be_int (py_slice 72 80 raw) = 0 then take 72 raw @ be_bytes 8 n @ drop 80 raw else raw) in
     if pkt_ptype p = HELLO
     then d' = d \<and> crypto_verify C (take 32 (pkt_payload p)) seen (pkt_signature p) = Inr True
     else case dict_get (dev_sessions d) (pkt_sender_id p) of
       Some s \<Rightarrow> (\<exists>s'. Session_check_replay m (pkt_sequence p) (pkt_timestamp_ms p) s = (Inr (), s') \<and>
           d' = put_session (pkt_sender_id p) s' d \<and>
           (if pkt_flags p AND FLAG_MAC_AUTH \<noteq> 0
            then verify_mac C (ses_mac_key s) seen (pkt_signature p) = Inr True
            else crypto_verify C (ses_peer_ed25519_public s) seen (pkt_signature p) = Inr True))
     | None \<Rightarrow> d' = d \<and> (\<exists>k. dict_get (dev_pending_peer_keys d) (pkt_sender_id p) = Some k \<and>
           crypto_verify C k seen (pkt_signature p) = Inr True))"
  using received_packet_authentic [OF assms] unfolding seen_bytes_def Let_def .

text \<open>A packet whose timestamp was zeroed in transit is received. When the parser's clock shows the
  timestamp that the sender had signed, reception of the altered bytes does whatever reception of the
  sender's bytes does: it accepts bytes that nobody authenticated.\<close>

theorem zeroed_timestamp_received:
  assumes "packet_wf p" and "Packet_to_bytes p = Inr wire"
  shows "Device_receive_packet C (pkt_timestamp_ms p) m (take 72 wire @ replicate 8 0 @ drop 80 wire) d =
     Device_receive_packet C (pkt_timestamp_ms p) m wire d"
proof -
  have "Packet_from_bytes (pkt_timestamp_ms p) (take 72 wire @ replicate 8 0 @ drop 80 wire) =
      Packet_from_bytes (pkt_timestamp_ms p) wire"
    using zeroed_timestamp_parsed [OF assms, of "[]"] packet_codec.dec_enc [OF assms] by simp
  then show ?thesis by (simp add: Device_receive_packet_def)
qed

text \<open>Data is delivered. Between two devices with a session, a DATA packet that one builds, signed
  or with a MAC, is serialised, received and decrypted to the plaintext by the other, when their clocks
  differ by at most 30 s, the sequence number fits 32 bits and the receiver has not seen it.\<close>

theorem data_delivered:
  assumes "crypto_laws C" and "device_wf C da" and "share_session da sa db sb"
    and "length nonce = 12" and "int (length plain) < 2 ^ 31" and "0 < now_a \<and> now_a < 256 ^ 8"
    and "ses_local_sequence sa < 2 ^ 32" and "\<bar>now_b - now_a\<bar> \<le> 30000"
    and "ses_local_sequence sa \<notin> ses_peer_seq_window sb" and "ses_peer_max_seq sb - 64 < ses_local_sequence sa"
  shows "\<exists>p da' wire db'.
     (if mac then Device_build_data_packet_mac else Device_build_data_packet) C now_a nonce (dev_device_id db) plain da
        = (Inr p, da') \<and> Packet_to_bytes p = Inr wire \<and>
     Device_receive_packet C now_b now_b wire db = (Inr p, db') \<and> Device_decrypt_packet C db' p = Inr plain"
proof -
  have "ses_local_sequence sa < 256 ^ 4" using assms(7) by simp
  then obtain p c t da' where b: "(if mac then Device_build_data_packet_mac else Device_build_data_packet) C
      now_a nonce (dev_device_id db) plain da = (Inr p, da')"
    and p: "p = sealed_packet DATA (if mac then 5 else 1) (dev_device_id da) (dev_device_id db)
      (ses_local_sequence sa) nonce now_a c t"
    and w: "packet_wf p" and dec: "crypto_decrypt C (ses_session_key sa) nonce c [] = Inr plain"
    and au: "session_authentic C sb p = Inr True"
    by (rule data_packet_built [OF assms(1-6)])
  show ?thesis
    using sealed_delivered [OF w assms(3), of C now_b plain now_b] au assms(8-10) dec b
    by (simp add: p)
qed

theorem data_delivered_witness:
  "\<exists>p da' wire db'. Device_build_data_packet_mac toy 1000 (replicate 12 9) id_b [1, 2, 3] dev_a = (Inr p, da') \<and>
     Packet_to_bytes p = Inr wire \<and> Device_receive_packet toy 1500 1500 wire dev_b = (Inr p, db') \<and>
     Device_decrypt_packet toy db' p = Inr [1, 2, 3]"
  using data_delivered [OF toy_laws dev_a_wf dev_ab_share, of "replicate 12 9" "[1, 2, 3]" 1000 1500 True]
  by (simp add: dev_ids end_ab_def)

text \<open>C10: no packet is accepted twice. Once a device has accepted a packet in a session, it refuses the same
  bytes for the rest of the session, whatever it does in between.\<close>

theorem device_rejects_replays:
  assumes "device_wf C d" and "Device_receive_packet C n m raw d = (Inr p, d')"
    and "pkt_ptype p \<noteq> HELLO" and "dict_get (dev_sessions d) (pkt_sender_id p) \<noteq> None"
    and "\<forall>x \<in> set xs. keeps_session (pkt_sender_id p) x"
  shows "\<exists>e. fst (Device_receive_packet C n2 m2 raw (device_run C xs d')) = Inl e"
proof -
  note r = receive_marks_seen [OF assms(1-4)]
  obtain p' where "Packet_from_bytes n2 raw = Inr p'" and "pkt_sender_id p' = pkt_sender_id p"
    and "pkt_sequence p' = pkt_sequence p" and "pkt_ptype p' = pkt_ptype p"
    using parse_clock [OF r(2)] by blast
  moreover have "has_seen (pkt_sender_id p) (pkt_sequence p) (device_run C xs d')"
    by (rule has_seen_run [OF r(1) assms(5)])
  ultimately show ?thesis
    using has_seen_refused [of p' "device_run C xs d'"] assms(3) by simp
qed

lemma dev_ab_data:
  obtains p da' wire db' where
    "Device_build_data_packet toy 1000 (replicate 12 9) id_b [1, 2, 3] dev_a = (Inr p, da')"
    and "Packet_to_bytes p = Inr wire" and "Device_receive_packet toy 1500 1500 wire dev_b = (Inr p, db')"
    and "pkt_ptype p = DATA" and "pkt_sender_id p = id_a" and "pkt_timestamp_ms p = 1000"
    and "packet_wf p"
proof -
  have seq: "ses_local_sequence (end_ab id_b key_b) < 256 ^ 4" by (simp add: end_ab_def)
  obtain p c t da' where b: "(if False then Device_build_data_packet_mac else Device_build_data_packet) toy
      1000 (replicate 12 9) (dev_device_id dev_b) [1, 2, 3] dev_a = (Inr p, da')"
    and p: "p = sealed_packet DATA (if False then 5 else 1) (dev_device_id dev_a) (dev_device_id dev_b)
      (ses_local_sequence (end_ab id_b key_b)) (replicate 12 9) 1000 c t"
    and w: "packet_wf p" and dec: "crypto_decrypt toy (ses_session_key (end_ab id_b key_b)) (replicate 12 9) c []
      = Inr [1, 2, 3]"
    and au: "session_authentic toy (end_ab id_a key_a) p = Inr True"
    by (rule data_packet_built [OF toy_laws dev_a_wf dev_ab_share _ _ _ seq, of "replicate 12 9" "[1, 2, 3]" 1000 False])
       simp_all
  obtain wire db' where "Packet_to_bytes p = Inr wire"
    and "Device_receive_packet toy 1500 1500 wire dev_b = (Inr p, db')"
    using sealed_delivered [OF w dev_ab_share, of toy 1500 "[1, 2, 3]" 1500] au dec
    by (auto simp: p end_ab_def)
  then show ?thesis
    using that b w by (simp add: p dev_ids)
qed

theorem device_rejects_replays_witness:
  "\<exists>wire p db'. Device_receive_packet toy 1500 1500 wire dev_b = (Inr p, db') \<and>
     (\<exists>e. fst (Device_receive_packet toy 1600 1600 wire
        (device_run toy [Dev_data 1550 (replicate 12 1) id_a [5], Dev_receive 1560 1560 []] db')) = Inl e)"
proof (rule dev_ab_data)
  fix p da' wire db'
  assume r: "Device_receive_packet toy 1500 1500 wire dev_b = (Inr p, db')" and p: "pkt_ptype p = DATA"
    "pkt_sender_id p = id_a"
  show ?thesis
    using device_rejects_replays [OF dev_b_wf r, of "[Dev_data 1550 (replicate 12 1) id_a [5], Dev_receive 1560 1560 []]"
        1600 1600] r p
    by (simp add: dev_sessions_ab) blast
qed

theorem receive_authentic_witness:
  "\<exists>wire p db'. Device_receive_packet toy 1500 1500 wire dev_b = (Inr p, db') \<and> pkt_ptype p = DATA \<and>
     (\<exists>s. Session_check_replay 1500 (pkt_sequence p) 1000 (end_ab id_a key_a) = (Inr (), s) \<and> db' = put_session id_a s dev_b)"
proof (rule dev_ab_data)
  fix p da' wire db'
  assume w: "Packet_to_bytes p = Inr wire" "packet_wf p"
    and r: "Device_receive_packet toy 1500 1500 wire dev_b = (Inr p, db')" and p: "pkt_ptype p = DATA"
    "pkt_sender_id p = id_a" "pkt_timestamp_ms p = 1000"
  show ?thesis
    using receive_authentic [OF r] r p by (auto simp: dev_sessions_ab Let_def)
qed

text \<open>A key rotation cuts the device off from its sessions. After a rotation, a packet that the device
  builds in an existing session is sent under the new identity, and a peer that has neither a session
  nor a handshake with the new identity refuses it with \<open>SessionNotFoundError\<close>.\<close>

theorem rotation_breaks_sessions:
  assumes "crypto_laws C" and "device_wf C da" and "share_session da sa db sb"
    and "Device_rotate_key C k now da = (Inr t, da')"
    and "length nonce = 12" and "int (length plain) < 2 ^ 31" and "0 < now_a \<and> now_a < 256 ^ 8"
    and "ses_local_sequence sa < 2 ^ 32"
    and "dict_get (dev_sessions db) (dev_device_id da') = None"
    and "dict_get (dev_pending_peer_keys db) (dev_device_id da') = None"
  shows "\<exists>p da'' wire. Device_build_data_packet C now_a nonce (dev_device_id db) plain da' = (Inr p, da'') \<and>
     Packet_to_bytes p = Inr wire \<and>
     Device_receive_packet C now_b now_b wire db = (Inl SessionNotFoundError, db)"
proof -
  let ?sb = "sb\<lparr>ses_peer_ed25519_public := dev_identity_public_bytes da'\<rparr>"
  let ?db = "put_session (dev_device_id da') ?sb db"
  have sess: "dev_sessions da' = dev_sessions da"
    using assms(4) by (auto simp: Device_rotate_key_def Let_def split: prod.splits sum.splits)
  have wf: "device_wf C da'"
    using device_exec_wf [OF assms(2), of "Dev_rotate k now"] assms(4) by simp
  have share: "share_session da' sa ?db ?sb" if "ses_peer_ed25519_public sa = dev_identity_public_bytes ?db"
    using assms(3) that by (simp add: share_session_def sess put_session_def dict_simps)
  have "ses_peer_ed25519_public sa = dev_identity_public_bytes ?db"
    using assms(3) by (simp add: share_session_def put_session_def)
  note share = share [OF this]
  have "ses_local_sequence sa < 256 ^ 4" using assms(8) by simp
  then obtain p c tg da'' where b: "(if False then Device_build_data_packet_mac else Device_build_data_packet) C
      now_a nonce (dev_device_id ?db) plain da' = (Inr p, da'')"
    and p: "p = sealed_packet DATA (if False then 5 else 1) (dev_device_id da') (dev_device_id ?db)
      (ses_local_sequence sa) nonce now_a c tg"
    and w: "packet_wf p"
    by (rule data_packet_built [OF assms(1) wf share assms(5-7), where mac = False])
  obtain wire where wire: "Packet_to_bytes p = Inr wire"
    using packet_codec.enc_total [OF w] by blast
  have "Packet_from_bytes now_b wire = Inr p"
    by (rule packet_codec.dec_enc [OF w wire])
  then have "Device_receive_packet C now_b now_b wire db = (Inl SessionNotFoundError, db)"
    using assms(9,10) by (simp add: Device_receive_packet_def p)
  with b wire show ?thesis by (auto simp: put_session_def)
qed

theorem rotation_breaks_sessions_witness:
  "\<exists>da db t da' p da'' wire. Device_rotate_key toy key_b 1000 da = (Inr t, da') \<and>
     dict_get (dev_sessions db) (dev_device_id da) \<noteq> None \<and>
     Device_build_data_packet toy 2000 (replicate 12 9) (dev_device_id db) [1, 2, 3] da' = (Inr p, da'') \<and>
     Packet_to_bytes p = Inr wire \<and>
     Device_receive_packet toy 2000 2000 wire db = (Inl SessionNotFoundError, db)"
proof -
  let ?k = "replicate 32 7 :: bytes"
  let ?da = "put_session (sha256 ?k) (end_ab (sha256 ?k) ?k) (Device_new toy key_a ''a'')"
  let ?db = "put_session id_a (end_ab id_a key_a) (Device_new toy ?k ''c'')"
  have ids: "dev_device_id ?da = id_a" "dev_device_id ?db = sha256 ?k" "dev_identity_public_bytes ?da = key_a"
    "dev_identity_public_bytes ?db = ?k" "dev_sessions ?da = [(sha256 ?k, end_ab (sha256 ?k) ?k)]"
    "dev_sessions ?db = [(id_a, end_ab id_a key_a)]" "dev_pending_peer_keys ?db = []"
    by (simp_all add: put_session_def Device_new_def crypto_engine_defs toy_public_key sha256_key_a)
  have wf: "device_wf toy ?da" by (rule put_session_wf [OF Device_new_wf]) (simp add: end_ab_wf)
  have share: "share_session ?da (end_ab (sha256 ?k) ?k) ?db (end_ab id_a key_a)"
    by (simp add: share_session_def ids) (simp add: end_ab_def)
  obtain t where "create_key_transition toy 1000 (dev_identity_private ?da) id_a key_b = Inr t"
    by (rule created_transition [OF toy_ed_laws, of 1000 id_a key_b]) simp_all
  then obtain t da' where rot: "Device_rotate_key toy key_b 1000 ?da = (Inr t, da')" "dev_device_id da' = id_b"
    by (simp add: Device_rotate_key_def ids crypto_engine_defs toy_public_key sha256_key_b)
  have seq: "ses_local_sequence (end_ab (sha256 ?k) ?k) < 2 ^ 32" by (simp add: end_ab_def)
  obtain p da'' wire where
    "Device_build_data_packet toy 2000 (replicate 12 9) (dev_device_id ?db) [1, 2, 3] da' = (Inr p, da'')"
    and "Packet_to_bytes p = Inr wire"
    and "Device_receive_packet toy 2000 2000 wire ?db = (Inl SessionNotFoundError, ?db)"
    using rotation_breaks_sessions [OF toy_laws wf share rot(1) _ _ _ seq, of "replicate 12 9" "[1, 2, 3]" 2000 2000]
      rot(2) ids(6,7) by auto
  then show ?thesis
    using rot(1) ids(1,6) by (intro exI [of _ ?da] exI [of _ ?db] exI conjI) simp_all
qed

end
