(* ===== verification/Protocol.thy ===== *)
theory Protocol
  imports Device_Properties
begin

text \<open>
  \<^verbatim>\<open>ztlnp/protocol.py\<close>: the handshake state machine. A protocol object refers to a
  device that other protocol objects may share, so every method works on the pair of the two. What
  one call reads from the outside (clock readings, a nonce, the keys that
  \<^verbatim>\<open>generate()\<close> returns) is a record \<open>env\<close>.
\<close>

section \<open>State\<close>

datatype ProtocolState =
  IDLE | HELLO_SENT | HELLO_RECEIVED | KEY_EXCHANGE_SENT | ESTABLISHED | CLOSED | ERROR_STATE

record protocol =
  pr_state :: ProtocolState
  pr_peer_id :: "bytes option"
  pr_peer_ed25519_pub :: "bytes option"
  pr_peer_x25519_pub :: "bytes option"
  pr_i_am_initiator :: bool

record 'k env =
  env_parse :: int \<comment> \<open>the parser's clock, for a zero timestamp field\<close>
  env_replay :: int \<comment> \<open>the clock of the replay check in \<open>receive_packet\<close>\<close>
  env_confirm :: int \<comment> \<open>the clock of the replay check in \<open>_handle_key_exchange\<close>\<close>
  env_stamp :: int \<comment> \<open>the timestamp of the packet that is built\<close>
  env_nonce :: bytes
  env_fresh :: 'k

definition Protocol_new :: protocol where
  "Protocol_new = \<lparr>pr_state = IDLE, pr_peer_id = None, pr_peer_ed25519_pub = None,
     pr_peer_x25519_pub = None, pr_i_am_initiator = False\<rparr>"

text \<open>A method of the local device, a result without effect, and an assignment to an attribute.\<close>

definition on_device :: "('k device, 'a) pymethod \<Rightarrow> (protocol \<times> 'k device, 'a) pymethod" where
  "on_device m = (\<lambda>(p, d). case m d of (r, d') \<Rightarrow> (r, (p, d')))"

definition pure :: "(protocol \<Rightarrow> 'k device \<Rightarrow> 'a result) \<Rightarrow> (protocol \<times> 'k device, 'a) pymethod" where
  "pure f = (\<lambda>(p, d). (f p d, (p, d)))"

definition assign :: "(protocol \<Rightarrow> protocol) \<Rightarrow> (protocol \<times> 'k device, unit) pymethod" where
  "assign f = (\<lambda>(p, d). (Inr (), (f p, d)))"

definition get_state :: "(protocol \<times> 'k device, ProtocolState) pymethod" where
  "get_state = pure (\<lambda>p d. Inr (pr_state p))"

definition Protocol_peer_id :: "protocol \<Rightarrow> bytes option" where
  "Protocol_peer_id p = pr_peer_id p"

section \<open>initiate\<close>

definition Protocol_initiate :: "'k crypto \<Rightarrow> 'k env \<Rightarrow> bytes \<Rightarrow> (protocol \<times> 'k device, bytes) pymethod" where
  "Protocol_initiate C v peer_id =
     bindS get_state (\<lambda>st.
       if st \<noteq> IDLE then pure (\<lambda>p d. Inl HandshakeError)
       else
         bindS (assign (\<lambda>p. p\<lparr>pr_peer_id := Some peer_id, pr_i_am_initiator := True\<rparr>)) (\<lambda>_.
         bindS (on_device (Device_build_hello_packet C (env_fresh v) (env_stamp v) (Some peer_id))) (\<lambda>hello.
         bindS (assign (\<lambda>p. p\<lparr>pr_state := HELLO_SENT\<rparr>)) (\<lambda>_.
           pure (\<lambda>p d. Packet_to_bytes hello)))))"

section \<open>Handlers\<close>

text \<open>\<^verbatim>\<open>session.next_sequence()\<close> and \<^verbatim>\<open>session.check_replay(...)\<close> on the
  session object of a peer.\<close>

definition session_next :: "bytes \<Rightarrow> ('k device, int) pymethod" where
  "session_next peer_id d =
     (case Device_get_session d peer_id of
        Inl e \<Rightarrow> (Inl e, d)
      | Inr s \<Rightarrow> (case Session_next_sequence s of (seq, s') \<Rightarrow> (Inr seq, put_session peer_id s' d)))"

definition session_check :: "int \<Rightarrow> int \<Rightarrow> int \<Rightarrow> bytes \<Rightarrow> ('k device, unit) pymethod" where
  "session_check now_ms sequence timestamp_ms peer_id d =
     (case Device_get_session d peer_id of
        Inl e \<Rightarrow> (Inl e, d)
      | Inr s \<Rightarrow> (case Session_check_replay now_ms sequence timestamp_ms s of
                    (r, s') \<Rightarrow> (r, put_session peer_id s' d)))"

definition KEY_EXCHANGE_OK :: bytes where "KEY_EXCHANGE_OK = ascii ''KEY_EXCHANGE_OK''"

definition Protocol_build_key_exchange_packet ::
  "'k crypto \<Rightarrow> 'k env \<Rightarrow> bytes \<Rightarrow> int \<Rightarrow> 'k device \<Rightarrow> bytes result" where
  "Protocol_build_key_exchange_packet C v peer_id seq d =
     bindE (Device_get_session d peer_id) (\<lambda>session.
     bindE (crypto_encrypt C (ses_session_key session) (env_nonce v) KEY_EXCHANGE_OK []) (\<lambda>ciphertext.
     bindE (Packet_post_init (env_stamp v)
              (new_packet KEY_EXCHANGE (dev_device_id d) ciphertext peer_id FLAG_ENCRYPTED seq (env_nonce v))) (\<lambda>packet.
     bindE (sign_packet C (dev_identity_private d) packet) (\<lambda>s.
       Packet_to_bytes (packet\<lparr>pkt_signature := s\<rparr>)))))"

definition Protocol_handle_hello ::
  "'k crypto \<Rightarrow> 'k env \<Rightarrow> packet \<Rightarrow> (protocol \<times> 'k device, bytes option) pymethod" where
  "Protocol_handle_hello C v packet =
     (if length (pkt_payload packet) < 64 then pure (\<lambda>p d. Inl HandshakeError)
      else
        let peer_ed25519_pub = take 32 (pkt_payload packet);
            peer_x25519_pub = py_slice 32 64 (pkt_payload packet);
            peer_id = pkt_sender_id packet
        in
        bindS (assign (\<lambda>p. p\<lparr>pr_peer_id := Some peer_id, pr_peer_ed25519_pub := Some peer_ed25519_pub,
                             pr_peer_x25519_pub := Some peer_x25519_pub\<rparr>)) (\<lambda>_.
        bindS get_state (\<lambda>st.
          if st = IDLE then
            bindS (assign (\<lambda>p. p\<lparr>pr_i_am_initiator := False\<rparr>)) (\<lambda>_.
            bindS (on_device (Device_generate_ephemeral_keypair C (env_fresh v) peer_id)) (\<lambda>_.
            bindS (on_device (\<lambda>d. (Inr (), Device_register_pending_peer peer_id peer_ed25519_pub d))) (\<lambda>_.
            bindS (on_device (Device_build_hello_packet C (env_fresh v) (env_stamp v) (Some peer_id))) (\<lambda>hello.
            bindS (assign (\<lambda>p. p\<lparr>pr_state := HELLO_RECEIVED\<rparr>)) (\<lambda>_.
              pure (\<lambda>p d. bindE (Packet_to_bytes hello) (\<lambda>b. Inr (Some b))))))))
          else if st = HELLO_SENT then
            bindS (on_device (Device_complete_key_exchange C peer_id peer_ed25519_pub peer_x25519_pub True)) (\<lambda>_.
            bindS (on_device (session_next peer_id)) (\<lambda>seq.
            bindS (pure (\<lambda>p d. Protocol_build_key_exchange_packet C v peer_id seq d)) (\<lambda>ke_packet.
            bindS (assign (\<lambda>p. p\<lparr>pr_state := KEY_EXCHANGE_SENT\<rparr>)) (\<lambda>_.
              pure (\<lambda>p d. Inr (Some ke_packet))))))
          else pure (\<lambda>p d. Inl HandshakeError))))"

text \<open>
  The attributes are set whenever the state is \<open>HELLO_RECEIVED\<close> or \<open>KEY_EXCHANGE_SENT\<close>
  (\<open>keys_known\<close> in \<open>Protocol_Invariants\<close>), so that the branches for an attribute that is still
  \<^verbatim>\<open>None\<close> are never taken.
\<close>

definition Protocol_handle_key_exchange ::
  "'k crypto \<Rightarrow> 'k env \<Rightarrow> packet \<Rightarrow> (protocol \<times> 'k device, bytes option) pymethod" where
  "Protocol_handle_key_exchange C v packet = (\<lambda>(p, d).
     if pr_state p = HELLO_RECEIVED then
       (case (pr_peer_id p, pr_peer_ed25519_pub p, pr_peer_x25519_pub p) of
          (Some peer_id, Some peer_ed25519_pub, Some peer_x25519_pub) \<Rightarrow>
            bindS (on_device (Device_complete_key_exchange C peer_id peer_ed25519_pub peer_x25519_pub False)) (\<lambda>_.
            bindS (on_device (session_check (env_confirm v) (pkt_sequence packet) (pkt_timestamp_ms packet) peer_id)) (\<lambda>_.
            bindS (pure (\<lambda>p d. Device_decrypt_packet C d packet)) (\<lambda>plaintext.
              if plaintext \<noteq> KEY_EXCHANGE_OK then pure (\<lambda>p d. Inl HandshakeError)
              else
                bindS (assign (\<lambda>p. p\<lparr>pr_state := ESTABLISHED\<rparr>)) (\<lambda>_.
                bindS (on_device (session_next peer_id)) (\<lambda>seq.
                bindS (pure (\<lambda>p d. Protocol_build_key_exchange_packet C v peer_id seq d)) (\<lambda>ke_packet.
                  pure (\<lambda>p d. Inr (Some ke_packet)))))))) (p, d)
        | _ \<Rightarrow> (Inl ValueError, (p, d)))
     else if pr_state p = KEY_EXCHANGE_SENT then
       (case pr_peer_id p of
          Some peer_id \<Rightarrow>
            bindS (pure (\<lambda>p d. Device_get_session d peer_id)) (\<lambda>_.
            bindS (pure (\<lambda>p d. Device_decrypt_packet C d packet)) (\<lambda>plaintext.
              if plaintext \<noteq> KEY_EXCHANGE_OK then pure (\<lambda>p d. Inl HandshakeError)
              else
                bindS (assign (\<lambda>p. p\<lparr>pr_state := ESTABLISHED\<rparr>)) (\<lambda>_.
                  pure (\<lambda>p d. Inr None)))) (p, d)
        | None \<Rightarrow> (Inl AttributeError, (p, d)))
     else (Inl HandshakeError, (p, d)))"

definition Protocol_require_established :: "(protocol \<times> 'k device, unit) pymethod" where
  "Protocol_require_established =
     pure (\<lambda>p d. if pr_state p \<noteq> ESTABLISHED then Inl HandshakeError else Inr ())"

definition Protocol_handle_data :: "packet \<Rightarrow> (protocol \<times> 'k device, bytes option) pymethod" where
  "Protocol_handle_data packet = bindS Protocol_require_established (\<lambda>_. pure (\<lambda>p d. Inr None))"

definition Protocol_handle_ack :: "packet \<Rightarrow> (protocol \<times> 'k device, bytes option) pymethod" where
  "Protocol_handle_ack packet = bindS Protocol_require_established (\<lambda>_. pure (\<lambda>p d. Inr None))"

definition Protocol_handle_bye :: "packet \<Rightarrow> (protocol \<times> 'k device, bytes option) pymethod" where
  "Protocol_handle_bye packet = (\<lambda>(p, d).
     if pr_state p = ESTABLISHED
     then (Inr None, (p\<lparr>pr_state := CLOSED\<rparr>,
             case pr_peer_id p of None \<Rightarrow> d | Some peer_id \<Rightarrow> Device_remove_session peer_id d))
     else (Inr None, (p, d)))"

section \<open>process\_incoming and the data helpers\<close>

definition Protocol_dispatch ::
  "'k crypto \<Rightarrow> 'k env \<Rightarrow> packet \<Rightarrow> (protocol \<times> 'k device, bytes option) pymethod" where
  "Protocol_dispatch C v packet =
     (case pkt_ptype packet of
        HELLO \<Rightarrow> Protocol_handle_hello C v packet
      | KEY_EXCHANGE \<Rightarrow> Protocol_handle_key_exchange C v packet
      | DATA \<Rightarrow> Protocol_handle_data packet
      | ACK \<Rightarrow> Protocol_handle_ack packet
      | BYE \<Rightarrow> Protocol_handle_bye packet
      | ERROR \<Rightarrow> bindS (assign (\<lambda>p. p\<lparr>pr_state := ERROR_STATE\<rparr>)) (\<lambda>_. pure (\<lambda>p d. Inr None))
      | _ \<Rightarrow> pure (\<lambda>p d. Inl HandshakeError))"

definition Protocol_process_incoming ::
  "'k crypto \<Rightarrow> 'k env \<Rightarrow> bytes \<Rightarrow> (protocol \<times> 'k device, bytes option) pymethod" where
  "Protocol_process_incoming C v raw =
     bindS get_state (\<lambda>st.
       if st = CLOSED \<or> st = ERROR_STATE then pure (\<lambda>p d. Inl HandshakeError)
       else bindS (on_device (Device_receive_packet C (env_parse v) (env_replay v) raw))
              (Protocol_dispatch C v))"

definition Protocol_send_data :: "'k crypto \<Rightarrow> 'k env \<Rightarrow> bytes \<Rightarrow> (protocol \<times> 'k device, bytes) pymethod" where
  "Protocol_send_data C v plaintext =
     bindS Protocol_require_established (\<lambda>_ (p, d).
       case pr_peer_id p of
         None \<Rightarrow> (Inl AttributeError, (p, d))
       | Some peer_id \<Rightarrow>
           bindS (on_device (Device_build_data_packet C (env_stamp v) (env_nonce v) peer_id plaintext)) (\<lambda>packet.
             pure (\<lambda>p d. Packet_to_bytes packet)) (p, d))"

definition Protocol_receive_data :: "'k crypto \<Rightarrow> 'k env \<Rightarrow> bytes \<Rightarrow> (protocol \<times> 'k device, bytes) pymethod" where
  "Protocol_receive_data C v raw =
     bindS Protocol_require_established (\<lambda>_.
     bindS (on_device (Device_receive_packet C (env_parse v) (env_replay v) raw)) (\<lambda>packet.
       pure (\<lambda>p d. if pkt_ptype packet \<noteq> DATA then Inl HandshakeError else Device_decrypt_packet C d packet)))"

end
