(* ===== verification/Protocol_Invariants.thy ===== *)
theory Protocol_Invariants
  imports Protocol
begin

text \<open>
  The state machine as a step relation, with the invariants of every reachable state. Methods are
  analysed through \<open>after\<close>: the condition that a method, started in a given state, ends with a
  result and a state that satisfy a predicate, whether it returned or raised.
\<close>

section \<open>Conditions after a method\<close>

definition after :: "('s, 'a) pymethod \<Rightarrow> ('a result \<Rightarrow> 's \<Rightarrow> bool) \<Rightarrow> 's \<Rightarrow> bool" where
  "after m Q s \<longleftrightarrow> Q (fst (m s)) (snd (m s))"

named_theorems after_simps "conditions after the elements of methods"

lemma after_bindS [after_simps]:
  "after (bindS m k) Q s \<longleftrightarrow>
     after m (\<lambda>r s'. case r of Inl e \<Rightarrow> Q (Inl e) s' | Inr x \<Rightarrow> after (k x) Q s') s"
  by (cases "m s"; cases "fst (m s)") (auto simp: after_def)

lemma after_pure [after_simps]: "after (pure f) Q (p, d) \<longleftrightarrow> Q (f p d) (p, d)"
  by (simp add: after_def pure_def)

lemma after_assign [after_simps]: "after (assign f) Q (p, d) \<longleftrightarrow> Q (Inr ()) (f p, d)"
  by (simp add: after_def assign_def)

lemma after_get_state [after_simps]: "after get_state Q (p, d) \<longleftrightarrow> Q (Inr (pr_state p)) (p, d)"
  by (simp add: get_state_def after_simps)

lemma after_on_device [after_simps]: "after (on_device m) Q (p, d) \<longleftrightarrow> after m (\<lambda>r d'. Q r (p, d')) d"
  by (simp add: after_def on_device_def split: prod.splits)

lemma after_if [after_simps]: "after (if b then m else m') Q s \<longleftrightarrow> (if b then after m Q s else after m' Q s)"
  by simp

lemma after_eq: "m s = m' s \<Longrightarrow> after m' Q s \<Longrightarrow> after m Q s"
  by (simp add: after_def)

lemma after_mono:
  assumes "after m Q s" and "\<And>r s'. Q r s' \<Longrightarrow> R r s'"
  shows "after m R s"
  using assms by (simp add: after_def)

lemma after_any: "(\<And>r d'. Q r d') \<Longrightarrow> after m Q d"
  by (simp add: after_def)

section \<open>Steps\<close>

text \<open>
  One call of a method of the protocol object, with whatever arguments and readings, or one
  operation that other code performs on the shared device.
\<close>

inductive proto_step :: "'k crypto \<Rightarrow> protocol \<times> 'k device \<Rightarrow> protocol \<times> 'k device \<Rightarrow> bool" for C where
  initiate: "proto_step C s (snd (Protocol_initiate C v peer s))"
| incoming: "proto_step C s (snd (Protocol_process_incoming C v raw s))"
| send: "proto_step C s (snd (Protocol_send_data C v plaintext s))"
| receive: "proto_step C s (snd (Protocol_receive_data C v raw s))"
| other: "proto_step C (p, d) (p, device_exec C x d)"

text \<open>
  The changes of the state that the methods of \<^verbatim>\<open>protocol.py\<close> make, as read off its assignments to
  \<^verbatim>\<open>self.state\<close> and their guards. They are not the diagram of section 6 of
  \<^verbatim>\<open>SPEC.md\<close>, which has an edge from CLOSED to IDLE, takes the responder through HELLO\_SENT and
  has neither HELLO\_RECEIVED nor ERROR.
\<close>

definition protocol_edges :: "(ProtocolState \<times> ProtocolState) set" where
  "protocol_edges =
     {(IDLE, HELLO_SENT), (IDLE, HELLO_RECEIVED), (HELLO_SENT, KEY_EXCHANGE_SENT),
      (HELLO_RECEIVED, ESTABLISHED), (KEY_EXCHANGE_SENT, ESTABLISHED), (ESTABLISHED, CLOSED)}
     \<union> {IDLE, HELLO_SENT, HELLO_RECEIVED, KEY_EXCHANGE_SENT, ESTABLISHED} \<times> {ERROR_STATE}"

text \<open>The changes that an accepted packet makes, with the type of the packet.\<close>

definition packet_edges :: "(PacketType \<times> ProtocolState \<times> ProtocolState) set" where
  "packet_edges =
     {(HELLO, IDLE, HELLO_RECEIVED), (HELLO, HELLO_SENT, KEY_EXCHANGE_SENT),
      (KEY_EXCHANGE, HELLO_RECEIVED, ESTABLISHED), (KEY_EXCHANGE, KEY_EXCHANGE_SENT, ESTABLISHED),
      (BYE, ESTABLISHED, CLOSED)}
     \<union> {ERROR} \<times> {IDLE, HELLO_SENT, HELLO_RECEIVED, KEY_EXCHANGE_SENT, ESTABLISHED} \<times> {ERROR_STATE}"

text \<open>
  What a call promises when it starts in a state where \<open>protocol_inv\<close> holds: an edge or no
  change of the state, and the invariant again.
\<close>

definition keys_known :: "protocol \<Rightarrow> bool" where
  "keys_known p \<longleftrightarrow>
     (pr_state p \<noteq> IDLE \<longrightarrow> pr_peer_id p \<noteq> None \<or> pr_state p = ERROR_STATE) \<and>
     (pr_state p \<in> {HELLO_RECEIVED, KEY_EXCHANGE_SENT} \<longrightarrow>
        pr_peer_ed25519_pub p \<noteq> None \<and> pr_peer_x25519_pub p \<noteq> None)"

definition protocol_inv :: "'k crypto \<Rightarrow> protocol \<times> 'k device \<Rightarrow> bool" where
  "protocol_inv C s \<longleftrightarrow> keys_known (fst s) \<and> device_wf C (snd s)"

definition good_step :: "'k crypto \<Rightarrow> protocol \<Rightarrow> 'a result \<Rightarrow> protocol \<times> 'k device \<Rightarrow> bool" where
  "good_step C p r s' \<longleftrightarrow> protocol_inv C s' \<and>
     (pr_state (fst s') = pr_state p \<or> (pr_state p, pr_state (fst s')) \<in> protocol_edges)"

text \<open>The device's methods keep the device well formed.\<close>

lemma session_next_wf:
  assumes "device_wf C d"
  shows "device_wf C (snd (session_next peer d))"
proof (cases "Device_get_session d peer")
  case (Inr s)
  have "device_wf C (put_session peer (snd (Session_next_sequence s)) d)"
    by (rule put_session_wf [OF assms next_sequence_wf [OF get_session_wf [OF assms Inr]]])
  then show ?thesis by (simp add: session_next_def Inr case_prod_beta)
qed (use assms in \<open>simp add: session_next_def\<close>)

lemma session_check_wf:
  assumes "device_wf C d"
  shows "device_wf C (snd (session_check now q ts peer d))"
proof (cases "Device_get_session d peer")
  case (Inr s)
  have "device_wf C (put_session peer (snd (Session_check_replay now q ts s)) d)"
    by (rule put_session_wf [OF assms check_replay_wf [OF get_session_wf [OF assms Inr]]])
  then show ?thesis by (simp add: session_check_def Inr case_prod_beta)
qed (use assms in \<open>simp add: session_check_def\<close>)

lemma after_device:
  assumes "device_wf C d"
  shows "\<And>Q. (\<And>r d'. device_wf C d' \<Longrightarrow> Q r d') \<Longrightarrow> after (Device_generate_ephemeral_keypair C k peer) Q d"
    and "\<And>Q. (\<And>r d'. device_wf C d' \<Longrightarrow> Q r d') \<Longrightarrow> after (Device_build_hello_packet C k n r) Q d"
    and "\<And>Q. (\<And>r d'. device_wf C d' \<Longrightarrow> Q r d') \<Longrightarrow> after (Device_complete_key_exchange C peer e x i) Q d"
    and "\<And>Q. (\<And>r d'. device_wf C d' \<Longrightarrow> Q r d') \<Longrightarrow> after (session_next peer) Q d"
    and "\<And>Q. (\<And>r d'. device_wf C d' \<Longrightarrow> Q r d') \<Longrightarrow> after (session_check n q ts peer) Q d"
    and "\<And>Q. (\<And>r d'. device_wf C d' \<Longrightarrow> Q r d') \<Longrightarrow> after (Device_receive_packet C n m raw) Q d"
    and "\<And>Q. (\<And>r d'. device_wf C d' \<Longrightarrow> Q r d') \<Longrightarrow> after (Device_build_data_packet C n nonce peer t) Q d"
    and "\<And>Q. (\<And>r d'. device_wf C d' \<Longrightarrow> Q r d') \<Longrightarrow>
      after (\<lambda>d. (Inr (), Device_register_pending_peer peer k' d)) Q d"
  using assms device_exec_wf [OF assms, of "Dev_pending peer k'"]
  by (simp_all add: after_def generate_ephemeral_wf build_hello_state complete_key_exchange_wf session_next_wf
      session_check_wf receive_packet_wf Device_build_data_packet_def build_sealed_wf)

section \<open>The handlers\<close>

lemma handle_hello_good:
  assumes "protocol_inv C (p, d)"
  shows "after (Protocol_handle_hello C v packet) (good_step C p) (p, d)"
proof -
  have wf: "device_wf C d" and k: "keys_known p" using assms by (simp_all add: protocol_inv_def)
  show ?thesis
    unfolding Protocol_handle_hello_def Let_def
    using wf k
    by (auto simp: after_simps good_step_def protocol_inv_def keys_known_def protocol_edges_def
        split: sum.split intro!: after_device(1-5,8))
qed

lemma handle_key_exchange_good:
  assumes "protocol_inv C (p, d)"
  shows "after (Protocol_handle_key_exchange C v packet) (good_step C p) (p, d)"
proof -
  have wf: "device_wf C d" and k: "keys_known p" using assms by (simp_all add: protocol_inv_def)
  consider (received) a b c where "pr_state p = HELLO_RECEIVED" "pr_peer_id p = Some a"
      "pr_peer_ed25519_pub p = Some b" "pr_peer_x25519_pub p = Some c"
    | (sent) a where "pr_state p = KEY_EXCHANGE_SENT" "pr_peer_id p = Some a"
    | (bad) "pr_state p \<notin> {HELLO_RECEIVED, KEY_EXCHANGE_SENT}"
    using k by (cases "pr_state p") (auto simp: keys_known_def)
  then show ?thesis
  proof cases
    case received
    have "after (bindS (on_device (Device_complete_key_exchange C a b c False)) (\<lambda>_.
            bindS (on_device (session_check (env_confirm v) (pkt_sequence packet) (pkt_timestamp_ms packet) a)) (\<lambda>_.
            bindS (pure (\<lambda>p d. Device_decrypt_packet C d packet)) (\<lambda>plaintext.
              if plaintext \<noteq> KEY_EXCHANGE_OK then pure (\<lambda>p d. Inl HandshakeError)
              else
                bindS (assign (\<lambda>p. p\<lparr>pr_state := ESTABLISHED\<rparr>)) (\<lambda>_.
                bindS (on_device (session_next a)) (\<lambda>seq.
                bindS (pure (\<lambda>p d. Protocol_build_key_exchange_packet C v a seq d)) (\<lambda>ke_packet.
                  pure (\<lambda>p d. Inr (Some ke_packet))))))))) (good_step C p) (p, d)"
      using wf k received
      by (auto simp: after_simps good_step_def protocol_inv_def keys_known_def protocol_edges_def
          split: sum.split intro!: after_device(3-5))
    then show ?thesis
      by (rule after_eq [rotated]) (simp add: Protocol_handle_key_exchange_def received)
  next
    case sent
    have "after (bindS (pure (\<lambda>p d. Device_get_session d a)) (\<lambda>_.
            bindS (pure (\<lambda>p d. Device_decrypt_packet C d packet)) (\<lambda>plaintext.
              if plaintext \<noteq> KEY_EXCHANGE_OK then pure (\<lambda>p d. Inl HandshakeError)
              else
                bindS (assign (\<lambda>p. p\<lparr>pr_state := ESTABLISHED\<rparr>)) (\<lambda>_.
                  pure (\<lambda>p d. Inr (None :: bytes option)))))) (good_step C p) (p, d)"
      using wf k sent
      by (auto simp: after_simps good_step_def protocol_inv_def keys_known_def protocol_edges_def split: sum.split)
    then show ?thesis
      by (rule after_eq [rotated]) (simp add: Protocol_handle_key_exchange_def sent)
  next
    case bad
    then show ?thesis
      using assms by (simp add: after_def Protocol_handle_key_exchange_def good_step_def)
  qed
qed

lemma handle_bye_good:
  assumes "protocol_inv C (p, d)"
  shows "after (Protocol_handle_bye packet) (good_step C p) (p, d)"
proof -
  have "device_wf C (case pr_peer_id p of None \<Rightarrow> d | Some x \<Rightarrow> Device_remove_session x d)"
    using assms device_exec_wf [of C d "Dev_remove _"]
    by (simp add: protocol_inv_def split: option.splits)
  then show ?thesis
    using assms
    by (auto simp: after_def Protocol_handle_bye_def good_step_def protocol_inv_def keys_known_def protocol_edges_def)
qed

lemma dispatch_good:
  assumes inv: "protocol_inv C (p, d)" and st: "pr_state p \<notin> {CLOSED, ERROR_STATE}"
  shows "after (Protocol_dispatch C v packet) (good_step C p) (p, d)"
proof -
  have "(pr_state p, ERROR_STATE) \<in> protocol_edges"
    using st by (cases "pr_state p") (simp_all add: protocol_edges_def)
  then show ?thesis
    using inv handle_hello_good [OF inv] handle_key_exchange_good [OF inv] handle_bye_good [OF inv]
    by (cases "pkt_ptype packet")
       (auto simp: Protocol_dispatch_def Protocol_handle_data_def Protocol_handle_ack_def
         Protocol_require_established_def after_simps good_step_def protocol_inv_def keys_known_def split: sum.split)
qed

lemma process_incoming_good:
  assumes "protocol_inv C (p, d)"
  shows "after (Protocol_process_incoming C v raw) (good_step C p) (p, d)"
proof -
  have "good_step C p r (p, d')" if "device_wf C d'" for r :: "bytes option result" and d'
    using assms that by (simp add: good_step_def protocol_inv_def)
  then show ?thesis
    using assms dispatch_good [of C p]
    by (auto simp: Protocol_process_incoming_def after_simps protocol_inv_def split: sum.split intro!: after_device(6))
qed

lemma initiate_good:
  assumes "protocol_inv C (p, d)"
  shows "after (Protocol_initiate C v peer) (good_step C p) (p, d)"
  using assms
  by (auto simp: Protocol_initiate_def after_simps good_step_def protocol_inv_def keys_known_def protocol_edges_def
      split: sum.split intro!: after_device(2))

lemma send_data_good:
  assumes "protocol_inv C (p, d)"
  shows "after (Protocol_send_data C v plaintext) (good_step C p) (p, d)"
proof (cases "pr_state p = ESTABLISHED")
  case False
  then show ?thesis
    using assms by (simp add: Protocol_send_data_def Protocol_require_established_def after_simps good_step_def)
next
  case True
  then obtain peer where peer: "pr_peer_id p = Some peer"
    using assms by (auto simp: protocol_inv_def keys_known_def)
  have "after (bindS (on_device (Device_build_data_packet C (env_stamp v) (env_nonce v) peer plaintext)) (\<lambda>packet.
             pure (\<lambda>p d. Packet_to_bytes packet))) (good_step C p) (p, d)"
    using assms
    by (auto simp: after_simps good_step_def protocol_inv_def split: sum.split intro!: after_device(7))
  then show ?thesis
    by (rule after_eq [rotated])
       (simp add: Protocol_send_data_def Protocol_require_established_def pure_def bindS_def True peer)
qed

lemma receive_data_good:
  assumes "protocol_inv C (p, d)"
  shows "after (Protocol_receive_data C v raw) (good_step C p) (p, d)"
  using assms
  by (auto simp: Protocol_receive_data_def Protocol_require_established_def after_simps good_step_def protocol_inv_def
      split: sum.split intro!: after_device(6))

section \<open>Which packet makes which change\<close>

abbreviation caused :: "PacketType \<Rightarrow> protocol \<Rightarrow> 'a result \<Rightarrow> protocol \<times> 'k device \<Rightarrow> bool" where
  "caused t p r s' \<equiv> pr_state (fst s') = pr_state p \<or> (t, pr_state p, pr_state (fst s')) \<in> packet_edges"

lemma handle_hello_caused: "after (Protocol_handle_hello C v packet) (caused HELLO p) (p, d)"
  unfolding Protocol_handle_hello_def Let_def
  by (auto simp: after_simps packet_edges_def split: sum.split intro!: after_any)

lemma handle_key_exchange_caused:
  "after (Protocol_handle_key_exchange C v packet) (caused KEY_EXCHANGE p) (p, d)"
  by (auto simp: after_def Protocol_handle_key_exchange_def bindS_def pure_def assign_def on_device_def packet_edges_def
      split: option.splits sum.splits prod.splits if_splits)

lemma handle_bye_caused: "after (Protocol_handle_bye packet) (caused BYE p) (p, d)"
  by (auto simp: after_def Protocol_handle_bye_def packet_edges_def)

lemma dispatch_caused:
  assumes "pr_state p \<notin> {CLOSED, ERROR_STATE}"
  shows "after (Protocol_dispatch C v packet) (caused (pkt_ptype packet) p) (p, d)"
proof -
  have "(ERROR, pr_state p, ERROR_STATE) \<in> packet_edges"
    using assms by (cases "pr_state p") (simp_all add: packet_edges_def)
  then show ?thesis
    using handle_hello_caused handle_key_exchange_caused handle_bye_caused
    by (cases "pkt_ptype packet")
       (auto simp: Protocol_dispatch_def Protocol_handle_data_def Protocol_handle_ack_def
         Protocol_require_established_def after_simps split: sum.split)
qed

lemma process_incoming_caused:
  assumes "pr_state (fst (snd (Protocol_process_incoming C v raw (p, d)))) \<noteq> pr_state p"
  shows "\<exists>q d1. Device_receive_packet C (env_parse v) (env_replay v) raw d = (Inr q, d1) \<and>
     (pkt_ptype q, pr_state p, pr_state (fst (snd (Protocol_process_incoming C v raw (p, d))))) \<in> packet_edges"
proof -
  have live: "pr_state p \<notin> {CLOSED, ERROR_STATE}"
    using assms by (auto simp: Protocol_process_incoming_def bindS_def get_state_def pure_def split: if_splits)
  obtain x d1 where rec: "Device_receive_packet C (env_parse v) (env_replay v) raw d = (x, d1)" by fastforce
  obtain q where x: "x = Inr q"
    using assms live rec
    by (cases x) (auto simp: Protocol_process_incoming_def bindS_def get_state_def pure_def on_device_def)
  have "Protocol_process_incoming C v raw (p, d) = Protocol_dispatch C v q (p, d1)"
    using live rec x by (simp add: Protocol_process_incoming_def bindS_def get_state_def pure_def on_device_def)
  then show ?thesis
    using assms rec x dispatch_caused [OF live, of C v q d1] by (auto simp: after_def)
qed

lemma initiate_caused:
  assumes "pr_state (fst (snd (Protocol_initiate C v peer (p, d)))) \<noteq> pr_state p"
  shows "pr_state p = IDLE \<and> pr_state (fst (snd (Protocol_initiate C v peer (p, d)))) = HELLO_SENT"
proof -
  have "after (Protocol_initiate C v peer)
     (\<lambda>r s'. pr_state (fst s') = pr_state p \<or> pr_state p = IDLE \<and> pr_state (fst s') = HELLO_SENT) (p, d)"
    by (auto simp: Protocol_initiate_def after_simps split: sum.split intro!: after_any)
  then show ?thesis using assms by (auto simp: after_def)
qed

lemma send_receive_state:
  "pr_state (fst (snd (Protocol_send_data C v plaintext (p, d)))) = pr_state p"
  "pr_state (fst (snd (Protocol_receive_data C v raw (p, d)))) = pr_state p"
proof -
  have "after (Protocol_send_data C v plaintext) (\<lambda>r s'. pr_state (fst s') = pr_state p) (p, d)"
    by (auto simp: after_def Protocol_send_data_def Protocol_require_established_def bindS_def pure_def on_device_def
        split: option.splits sum.splits prod.splits if_splits)
  then show "pr_state (fst (snd (Protocol_send_data C v plaintext (p, d)))) = pr_state p" by (simp add: after_def)
  have "after (Protocol_receive_data C v raw) (\<lambda>r s'. pr_state (fst s') = pr_state p) (p, d)"
    by (auto simp: Protocol_receive_data_def Protocol_require_established_def after_simps split: sum.split
        intro!: after_any)
  then show "pr_state (fst (snd (Protocol_receive_data C v raw (p, d)))) = pr_state p" by (simp add: after_def)
qed

text \<open>Every change of the state has its cause.\<close>

lemma proto_step_caused:
  assumes "proto_step C s s'" and "pr_state (fst s') \<noteq> pr_state (fst s)"
  shows "(pr_state (fst s) = IDLE \<and> pr_state (fst s') = HELLO_SENT \<and> (\<exists>v peer. s' = snd (Protocol_initiate C v peer s))) \<or>
     (\<exists>v raw q d1. s' = snd (Protocol_process_incoming C v raw s) \<and>
        Device_receive_packet C (env_parse v) (env_replay v) raw (snd s) = (Inr q, d1) \<and>
        (pkt_ptype q, pr_state (fst s), pr_state (fst s')) \<in> packet_edges)"
proof -
  obtain p d where s: "s = (p, d)" by fastforce
  from assms(1) [unfolded s] show ?thesis
  proof (cases rule: proto_step.cases)
    case (initiate v peer)
    then show ?thesis using initiate_caused [of C v peer p d] assms(2) s by auto
  next
    case (incoming v raw)
    then obtain q d1 where "Device_receive_packet C (env_parse v) (env_replay v) raw d = (Inr q, d1)"
      "(pkt_ptype q, pr_state p, pr_state (fst s')) \<in> packet_edges"
      using process_incoming_caused [of C v raw p d] assms(2) s by auto
    then show ?thesis using incoming s by (metis fst_conv snd_conv)
  qed (use assms(2) s in \<open>simp_all add: send_receive_state\<close>)
qed

section \<open>Steps and reachable states\<close>

lemma proto_step_good:
  assumes "proto_step C s s'" and "protocol_inv C s"
  shows "protocol_inv C s'"
    and "pr_state (fst s') = pr_state (fst s) \<or> (pr_state (fst s), pr_state (fst s')) \<in> protocol_edges"
proof -
  obtain p d where s: "s = (p, d)" by fastforce
  have inv: "protocol_inv C (p, d)" using assms(2) by (simp add: s)
  have "good_step C p (Inr ()) s'"
    using assms(1) unfolding s
  proof (cases rule: proto_step.cases)
    case (initiate v peer)
    then show ?thesis using initiate_good [OF inv, of v peer] by (simp add: after_def good_step_def)
  next
    case (incoming v raw)
    then show ?thesis using process_incoming_good [OF inv, of v raw] by (simp add: after_def good_step_def)
  next
    case (send v plaintext)
    then show ?thesis using send_data_good [OF inv, of v plaintext] by (simp add: after_def good_step_def)
  next
    case (receive v raw)
    then show ?thesis using receive_data_good [OF inv, of v raw] by (simp add: after_def good_step_def)
  next
    case (other x)
    then show ?thesis using inv by (simp add: good_step_def protocol_inv_def device_exec_wf)
  qed
  then show "protocol_inv C s'"
    and "pr_state (fst s') = pr_state (fst s) \<or> (pr_state (fst s), pr_state (fst s')) \<in> protocol_edges"
    by (simp_all add: good_step_def s)
qed

lemma proto_steps_inv: "(proto_step C)\<^sup>*\<^sup>* s s' \<Longrightarrow> protocol_inv C s \<Longrightarrow> protocol_inv C s'"
  by (induction rule: rtranclp_induct) (auto intro: proto_step_good(1))

lemma proto_steps_edges:
  "(proto_step C)\<^sup>*\<^sup>* s s' \<Longrightarrow> protocol_inv C s \<Longrightarrow>
   (pr_state (fst s), pr_state (fst s')) \<in> protocol_edges\<^sup>*"
proof (induction rule: rtranclp_induct)
  case (step y z)
  then have "protocol_inv C y" using proto_steps_inv by blast
  with step proto_step_good(2) [OF step(2)] show ?case by (auto intro: rtrancl_into_rtrancl)
qed simp

lemma new_protocol_inv: "device_wf C d \<Longrightarrow> protocol_inv C (Protocol_new, d)"
  by (simp add: protocol_inv_def keys_known_def Protocol_new_def)

section \<open>Properties\<close>

text \<open>C11: the transitions of the protocol object. From a new protocol object on a well-formed device,
  whatever bytes arrive, whatever the application calls and whatever else happens on the shared device,
  every step keeps the state or is one of the transitions of the code: \<open>initiate\<close> takes IDLE to
  HELLO\_SENT; a packet that the device accepts takes IDLE to HELLO\_RECEIVED and HELLO\_SENT to
  KEY\_EXCHANGE\_SENT (a HELLO), HELLO\_RECEIVED and KEY\_EXCHANGE\_SENT to ESTABLISHED (a KEY\_EXCHANGE),
  ESTABLISHED to CLOSED (a BYE) and every live state to ERROR (an ERROR packet); nothing else changes the
  state, and nothing leaves CLOSED or ERROR. The
  device stays well formed, and the peer's identity and keys are known whenever a handler needs them.\<close>

theorem protocol_transitions:
  assumes "device_wf C d" and "(proto_step C)\<^sup>*\<^sup>* (Protocol_new, d) s" and "proto_step C s s'"
  shows "(pr_state (fst s') = pr_state (fst s) \<or>
          (pr_state (fst s) = IDLE \<and> pr_state (fst s') = HELLO_SENT \<and>
             (\<exists>v peer. s' = snd (Protocol_initiate C v peer s))) \<or>
          (\<exists>v raw q d1. s' = snd (Protocol_process_incoming C v raw s) \<and>
             Device_receive_packet C (env_parse v) (env_replay v) raw (snd s) = (Inr q, d1) \<and>
             (pkt_ptype q, pr_state (fst s), pr_state (fst s')) \<in> packet_edges)) \<and>
         device_wf C (snd s') \<and> keys_known (fst s')"
  using proto_step_good(1) [OF assms(3) proto_steps_inv [OF assms(2) new_protocol_inv [OF assms(1)]]]
    proto_step_caused [OF assms(3)]
  by (auto simp: protocol_inv_def)

definition quiet :: "bytes env" where
  "quiet = \<lparr>env_parse = 1000, env_replay = 1000, env_confirm = 1000, env_stamp = 1000,
     env_nonce = replicate 12 5, env_fresh = replicate 32 6\<rparr>"

theorem protocol_transitions_witness:
  "\<exists>s s'. proto_step toy (Protocol_new, dev_a) s \<and> proto_step toy s s' \<and>
     (pr_state (fst s') \<noteq> pr_state (fst s) \<longrightarrow> pr_state (fst s) = IDLE \<or>
        (\<exists>t. (t, pr_state (fst s), pr_state (fst s')) \<in> packet_edges)) \<and>
     device_wf toy (snd s') \<and> keys_known (fst s')"
proof -
  let ?s = "snd (Protocol_initiate toy quiet id_b (Protocol_new, dev_a))"
  let ?s' = "snd (Protocol_process_incoming toy quiet [1, 2, 3] ?s)"
  have 1: "proto_step toy (Protocol_new, dev_a) ?s" and 2: "proto_step toy ?s ?s'"
    by (rule proto_step.intros)+
  have "(proto_step toy)\<^sup>*\<^sup>* (Protocol_new, dev_a) ?s" using 1 by (rule r_into_rtranclp)
  then show ?thesis
    using protocol_transitions [OF dev_a_wf _ 2] 1 2 by blast
qed

text \<open>Closed and failed protocols stay so: once the state is CLOSED or ERROR, it never changes again
  and no incoming packet is even parsed.\<close>

theorem protocol_terminal_states:
  assumes "device_wf C d" and "keys_known p" and "pr_state p \<in> {CLOSED, ERROR_STATE}"
    and "(proto_step C)\<^sup>*\<^sup>* (p, d) s"
  shows "pr_state (fst s) = pr_state p \<and> Protocol_process_incoming C v raw s = (Inl HandshakeError, s)"
proof -
  have inv: "protocol_inv C (p, d)" using assms(1,2) by (simp add: protocol_inv_def)
  have "x = pr_state p" if "(pr_state p, x) \<in> protocol_edges\<^sup>*" for x
    using that
  proof (induction rule: rtrancl_induct)
    case (step y z)
    then have "(pr_state p, z) \<in> protocol_edges" by simp
    then show ?case using assms(3) by (auto simp: protocol_edges_def)
  qed simp
  then have st: "pr_state (fst s) = pr_state p"
    using proto_steps_edges [OF assms(4) inv] by simp
  obtain q e where "s = (q, e)" by fastforce
  with st assms(3) show ?thesis
    by (auto simp: Protocol_process_incoming_def bindS_def get_state_def pure_def)
qed

theorem protocol_terminal_states_witness:
  "Protocol_process_incoming toy quiet [1, 2, 3] (Protocol_new\<lparr>pr_state := ERROR_STATE\<rparr>, dev_a)
     = (Inl HandshakeError, (Protocol_new\<lparr>pr_state := ERROR_STATE\<rparr>, dev_a))"
  using protocol_terminal_states [OF dev_a_wf, of "Protocol_new\<lparr>pr_state := ERROR_STATE\<rparr>"
      "(Protocol_new\<lparr>pr_state := ERROR_STATE\<rparr>, dev_a)" quiet "[1, 2, 3]"]
  by (simp add: keys_known_def)

end
