(* ===== verification/Handshake.thy ===== *)
theory Handshake
  imports Protocol_Invariants
begin

text \<open>
  The four-packet handshake, end to end: two devices that start idle end with the same keys, over
  the methods of \<open>Protocol\<close> and the bytes they exchange. Each section treats one step.
\<close>

section \<open>Ephemeral keys\<close>

abbreviation x_pub :: "'k crypto \<Rightarrow> 'k \<Rightarrow> bytes" where
  "x_pub C k \<equiv> x_public_bytes C (x_public_key C k)"

abbreviation ed_pub :: "'k crypto \<Rightarrow> 'k \<Rightarrow> bytes" where
  "ed_pub C k \<equiv> ed_public_bytes C (ed_public_key C k)"

definition with_ephemeral :: "'k crypto \<Rightarrow> 'k \<Rightarrow> bytes \<Rightarrow> 'k device \<Rightarrow> 'k device" where
  "with_ephemeral C k peer d =
     d\<lparr>dev_ephemeral_private := dict_set peer k (dev_ephemeral_private d),
       dev_ephemeral_public := dict_set peer (x_pub C k) (dev_ephemeral_public d)\<rparr>"

lemma with_ephemeral_simps [simp]:
  "dev_device_id (with_ephemeral C k peer d) = dev_device_id d"
  "dev_identity_private (with_ephemeral C k peer d) = dev_identity_private d"
  "dev_identity_public_bytes (with_ephemeral C k peer d) = dev_identity_public_bytes d"
  "dev_sessions (with_ephemeral C k peer d) = dev_sessions d"
  "dev_pending_peer_keys (with_ephemeral C k peer d) = dev_pending_peer_keys d"
  "dict_get (dev_ephemeral_private (with_ephemeral C k peer d)) peer = Some k"
  "dict_get (dev_ephemeral_public (with_ephemeral C k peer d)) peer = Some (x_pub C k)"
  by (simp_all add: with_ephemeral_def dict_simps)

lemma generate_new:
  "dict_get (dev_ephemeral_private d) peer = None \<Longrightarrow>
   Device_generate_ephemeral_keypair C k peer d = (Inr (x_pub C k), with_ephemeral C k peer d)"
  by (simp add: Device_generate_ephemeral_keypair_def crypto_engine_defs with_ephemeral_def dict_simps)

lemma generate_again:
  "dict_get (dev_ephemeral_private d) peer = Some k \<Longrightarrow> dict_get (dev_ephemeral_public d) peer = Some x \<Longrightarrow>
   Device_generate_ephemeral_keypair C k' peer d = (Inr x, d)"
  by (simp add: Device_generate_ephemeral_keypair_def)

section \<open>HELLO\<close>

lemma build_hello_ok:
  assumes laws: "ed_laws C" and wf: "device_wf C d" "length (dev_device_id d1) = 32"
    and d1: "dev_identity_private d1 = dev_identity_private d" "dev_device_id d1 = dev_device_id d"
      "dev_identity_public_bytes d1 = dev_identity_public_bytes d"
    and g: "Device_generate_ephemeral_keypair C k r d = (Inr x, d1)"
    and args: "length r = 32" "length x = 32" "clock_ok now"
  shows "\<exists>t hello wire. hello = sealed_packet HELLO 0 (dev_device_id d) r 0 (replicate 12 0) now
       (dev_identity_public_bytes d @ x) t \<and>
     Device_build_hello_packet C k now (Some r) d = (Inr hello, d1) \<and> packet_wf hello \<and>
     verify_packet C (dev_identity_public_bytes d) hello = Inr True \<and> Packet_to_bytes hello = Inr wire"
proof -
  have pub: "dev_identity_public_bytes d = ed_pub C (dev_identity_private d)"
    using wf by (simp add: device_wf_def)
  have len: "length (dev_identity_public_bytes d) = 32"
    using laws by (simp add: pub ed_laws_def)
  let ?p = "new_packet HELLO (dev_device_id d) (dev_identity_public_bytes d @ x) r 0 0 (replicate 12 0)"
  have p: "Packet_post_init now ?p = Inr (?p\<lparr>pkt_timestamp_ms := now\<rparr>)" "packet_wf (?p\<lparr>pkt_timestamp_ms := now\<rparr>)"
    by (rule new_packet_wf; use args wf(2) d1 len in simp)+
  obtain t where t: "sign_packet C (dev_identity_private d) (?p\<lparr>pkt_timestamp_ms := now\<rparr>) = Inr t"
    "packet_wf (?p\<lparr>pkt_timestamp_ms := now, pkt_signature := t\<rparr>)"
    "verify_packet C (ed_pub C (dev_identity_private d)) (?p\<lparr>pkt_timestamp_ms := now, pkt_signature := t\<rparr>) = Inr True"
    using signature_auth.tagged [OF laws p(2)] by blast
  obtain wire where wire: "Packet_to_bytes (?p\<lparr>pkt_timestamp_ms := now, pkt_signature := t\<rparr>) = Inr wire"
    using packet_codec.enc_total [OF t(2)] by blast
  have "Device_build_hello_packet C k now (Some r) d = (Inr (?p\<lparr>pkt_timestamp_ms := now, pkt_signature := t\<rparr>), d1)"
    using p(1) t(1) g by (simp add: Device_build_hello_packet_def d1 FLAG_NONE_def)
  with t wire show ?thesis unfolding pub sealed_packet_def by blast
qed

lemma receive_hello:
  assumes "packet_wf p" and "Packet_to_bytes p = Inr wire" and "pkt_ptype p = HELLO"
    and "verify_packet C (take 32 (pkt_payload p)) p = Inr True"
  shows "Device_receive_packet C n m wire d = (Inr p, d)"
  using packet_codec.dec_enc [OF assms(1,2), of n] assms(3,4) by (simp add: Device_receive_packet_def)

section \<open>Completing the exchange\<close>

definition exchanged :: "bytes \<Rightarrow> session \<Rightarrow> 'k device \<Rightarrow> 'k device" where
  "exchanged peer s d =
     d\<lparr>dev_sessions := dict_set peer s (dev_sessions d),
       dev_ephemeral_private := dict_del peer (dev_ephemeral_private d),
       dev_ephemeral_public := dict_del peer (dev_ephemeral_public d),
       dev_pending_peer_keys := dict_del peer (dev_pending_peer_keys d)\<rparr>"

lemma exchanged_simps [simp]:
  "dev_device_id (exchanged peer s d) = dev_device_id d"
  "dev_identity_private (exchanged peer s d) = dev_identity_private d"
  "dev_identity_public_bytes (exchanged peer s d) = dev_identity_public_bytes d"
  "dict_get (dev_sessions (exchanged peer s d)) peer = Some s"
  by (simp_all add: exchanged_def dict_simps)

definition new_end :: "'k crypto \<Rightarrow> bytes \<Rightarrow> bytes \<Rightarrow> bytes \<Rightarrow> bytes \<Rightarrow> bytes \<Rightarrow> session" where
  "new_end C peer pub secret initiator responder =
     \<lparr>ses_peer_id = peer, ses_peer_ed25519_public = pub,
      ses_session_key = derive_session_key C secret initiator responder,
      ses_mac_key = derive_mac_key C secret initiator responder,
      ses_local_sequence = 0, ses_peer_max_seq = 0, ses_peer_seq_window = {}\<rparr>"

lemma new_end_session:
  assumes "mac_laws C" and "length peer = 32" and "length pub = 32"
  shows "Session_new peer pub (derive_session_key C secret i r) (derive_mac_key C secret i r)
           = Inr (new_end C peer pub secret i r)"
    and "session_wf peer (new_end C peer pub secret i r)"
proof -
  show s: "Session_new peer pub (derive_session_key C secret i r) (derive_mac_key C secret i r)
      = Inr (new_end C peer pub secret i r)"
    using assms by (simp add: Session_new_def new_end_def derive_session_key_def derive_mac_key_def mac_laws_def)
  show "session_wf peer (new_end C peer pub secret i r)"
    using assms replay_inv_new [OF s] unfolding session_wf_def
    by (auto simp: new_end_def derive_session_key_def derive_mac_key_def mac_laws_def)
qed

lemma complete_ok:
  assumes "mac_laws C" and "length peer = 32" and "length pub = 32"
    and "dict_get (dev_ephemeral_private d) peer = Some k" and "dict_get (dev_ephemeral_public d) peer = Some y"
    and "x25519_exchange C k x = Inr secret"
  shows "Device_complete_key_exchange C peer pub x i d =
     (Inr (if i then new_end C peer pub secret (dev_device_id d) peer
           else new_end C peer pub secret peer (dev_device_id d)),
      exchanged peer (if i then new_end C peer pub secret (dev_device_id d) peer
           else new_end C peer pub secret peer (dev_device_id d)) d)"
  using assms(4-6)
  by (cases i) (simp_all add: Device_complete_key_exchange_def new_end_session(1) [OF assms(1-3)] Let_def
      exchanged_def)

section \<open>KEY\_EXCHANGE\<close>

abbreviation env_ok :: "'k env \<Rightarrow> bool" where
  "env_ok v \<equiv> clock_ok (env_stamp v) \<and> length (env_nonce v) = 12"

lemma build_key_exchange_ok:
  assumes laws: "crypto_laws C" and s: "dict_get (dev_sessions d) peer = Some s" "session_wf peer s"
    and args: "env_ok v" "0 \<le> seq" "seq < 256 ^ 4" "length (dev_device_id d) = 32"
  shows "\<exists>c t p wire. p = sealed_packet KEY_EXCHANGE 1 (dev_device_id d) peer seq (env_nonce v) (env_stamp v) c t \<and>
     Protocol_build_key_exchange_packet C v peer seq d = Inr wire \<and> Packet_to_bytes p = Inr wire \<and>
     packet_wf p \<and> verify_packet C (ed_pub C (dev_identity_private d)) p = Inr True \<and>
     crypto_decrypt C (ses_session_key s) (env_nonce v) c [] = Inr KEY_EXCHANGE_OK"
proof -
  have laws': "ed_laws C" "aead_laws C" using laws by (simp_all add: crypto_laws_def)
  have len: "length (ses_session_key s) = 32" "length peer = 32" using s(2) by (simp_all add: session_wf_def)
  have ok: "int (length KEY_EXCHANGE_OK) < 2 ^ 31" by (simp add: KEY_EXCHANGE_OK_def)
  obtain c t where ct: "crypto_encrypt C (ses_session_key s) (env_nonce v) KEY_EXCHANGE_OK [] = Inr c"
    "crypto_decrypt C (ses_session_key s) (env_nonce v) c [] = Inr KEY_EXCHANGE_OK"
    "Packet_post_init (env_stamp v) (new_packet KEY_EXCHANGE (dev_device_id d) c peer 1 seq (env_nonce v))
       = Inr ((new_packet KEY_EXCHANGE (dev_device_id d) c peer 1 seq (env_nonce v))\<lparr>pkt_timestamp_ms := env_stamp v\<rparr>)"
    "sign_packet C (dev_identity_private d)
       ((new_packet KEY_EXCHANGE (dev_device_id d) c peer 1 seq (env_nonce v))\<lparr>pkt_timestamp_ms := env_stamp v\<rparr>) = Inr t"
    and p: "packet_wf (sealed_packet KEY_EXCHANGE 1 (dev_device_id d) peer seq (env_nonce v) (env_stamp v) c t)"
    "verify_packet C (ed_pub C (dev_identity_private d))
       (sealed_packet KEY_EXCHANGE 1 (dev_device_id d) peer seq (env_nonce v) (env_stamp v) c t) = Inr True"
    using sealed_exists [OF signature_auth.packet_auth_axioms laws' len(1) _ ok args(4) len(2) _ _ _ args(2,3),
        of "env_nonce v" "env_stamp v" 1 KEY_EXCHANGE "dev_identity_private d"] args(1) by auto
  obtain wire where "Packet_to_bytes
      (sealed_packet KEY_EXCHANGE 1 (dev_device_id d) peer seq (env_nonce v) (env_stamp v) c t) = Inr wire"
    using packet_codec.enc_total [OF p(1)] by blast
  then show ?thesis
    using ct p by (auto simp: Protocol_build_key_exchange_packet_def Device_get_session_def s(1)
        FLAG_ENCRYPTED_def sealed_packet_def)
qed

section \<open>Running the methods\<close>

lemma method_runs [simp]:
  "m d = (r, d') \<Longrightarrow> on_device m (p, d) = (r, (p, d'))"
  "pure f (p, d) = (f p d, (p, d))"
  "assign g (p, d) = (Inr (), (g p, d))"
  "get_state (p, d) = (Inr (pr_state p), (p, d))"
  by (simp_all add: on_device_def pure_def assign_def get_state_def)

text \<open>The bytes of a HELLO from \<open>d\<close> to \<open>peer\<close> with the ephemeral key \<open>x\<close>.\<close>

definition hello_wire :: "'k crypto \<Rightarrow> 'k device \<Rightarrow> bytes \<Rightarrow> bytes \<Rightarrow> packet \<Rightarrow> bytes \<Rightarrow> bool" where
  "hello_wire C d peer x hello wire \<longleftrightarrow>
     pkt_ptype hello = HELLO \<and> pkt_sender_id hello = dev_device_id d \<and>
     pkt_payload hello = dev_identity_public_bytes d @ x \<and> length (dev_identity_public_bytes d) = 32 \<and>
     length x = 32 \<and> packet_wf hello \<and>
     verify_packet C (dev_identity_public_bytes d) hello = Inr True \<and> Packet_to_bytes hello = Inr wire"

lemma hello_built:
  assumes laws: "crypto_laws C" and wf: "device_wf C d"
    and d1: "dev_identity_private d1 = dev_identity_private d" "dev_device_id d1 = dev_device_id d"
      "dev_identity_public_bytes d1 = dev_identity_public_bytes d"
    and g: "Device_generate_ephemeral_keypair C k r d = (Inr (x_pub C y), d1)"
    and args: "length r = 32" "clock_ok now"
  shows "\<exists>hello wire. Device_build_hello_packet C k now (Some r) d = (Inr hello, d1) \<and>
     hello_wire C d r (x_pub C y) hello wire"
proof -
  have "ed_laws C" "x_laws C" using laws by (simp_all add: crypto_laws_def)
  moreover have "length (dev_identity_public_bytes d) = 32"
    using wf \<open>ed_laws C\<close> by (simp add: device_wf_def ed_laws_def)
  moreover have "length (x_pub C y) = 32" using \<open>x_laws C\<close> by (simp add: x_laws_def)
  moreover have "length (dev_device_id d1) = 32" using device_id_length [OF wf] d1 by simp
  ultimately show ?thesis
    using build_hello_ok [OF \<open>ed_laws C\<close> wf _ d1 g args(1) _ args(2)]
    unfolding hello_wire_def by fastforce
qed

lemma hello_received:
  "hello_wire C d peer x hello wire \<Longrightarrow> Device_receive_packet C n m wire e = (Inr hello, e)"
  by (rule receive_hello) (simp_all add: hello_wire_def)

text \<open>Step 1: the initiator greets.\<close>

lemma initiate_ok:
  assumes "crypto_laws C" and "device_wf C d" and "pr_state p = IDLE"
    and "dict_get (dev_ephemeral_private d) peer = None" and "length peer = 32" and "env_ok v"
  shows "\<exists>hello wire. Protocol_initiate C v peer (p, d) =
       (Inr wire, (p\<lparr>pr_state := HELLO_SENT, pr_peer_id := Some peer, pr_i_am_initiator := True\<rparr>,
                   with_ephemeral C (env_fresh v) peer d)) \<and>
     hello_wire C d peer (x_pub C (env_fresh v)) hello wire"
proof -
  obtain hello wire where h: "Device_build_hello_packet C (env_fresh v) (env_stamp v) (Some peer) d
      = (Inr hello, with_ephemeral C (env_fresh v) peer d)"
    and w: "hello_wire C d peer (x_pub C (env_fresh v)) hello wire"
    using hello_built [OF assms(1,2) _ _ _ generate_new [OF assms(4)] assms(5), where k = "env_fresh v" and now = "env_stamp v"]
      assms(6) by auto
  have "Packet_to_bytes hello = Inr wire" using w by (simp add: hello_wire_def)
  then show ?thesis
    using h w assms(3) by (auto simp: Protocol_initiate_def)
qed

text \<open>Step 2: the responder greets back.\<close>

lemma respond_ok:
  assumes "crypto_laws C" and "device_wf C db" and "pr_state p = IDLE" and "env_ok v"
    and ida: "dev_device_id da = ida" "length ida = 32"
    and "dict_get (dev_ephemeral_private db) ida = None"
    and h: "hello_wire C da (dev_device_id db) xa hello wire"
  shows "\<exists>hello2 wire2. Protocol_process_incoming C v wire (p, db) =
       (Inr (Some wire2),
        (p\<lparr>pr_state := HELLO_RECEIVED, pr_peer_id := Some ida,
           pr_peer_ed25519_pub := Some (dev_identity_public_bytes da), pr_peer_x25519_pub := Some xa,
           pr_i_am_initiator := False\<rparr>,
         Device_register_pending_peer ida (dev_identity_public_bytes da) (with_ephemeral C (env_fresh v) ida db))) \<and>
     hello_wire C db ida (x_pub C (env_fresh v)) hello2 wire2"
proof -
  let ?d1 = "with_ephemeral C (env_fresh v) ida db"
  let ?d2 = "Device_register_pending_peer ida (dev_identity_public_bytes da) ?d1"
  have g: "Device_generate_ephemeral_keypair C (env_fresh v) ida db = (Inr (x_pub C (env_fresh v)), ?d1)"
    by (rule generate_new [OF assms(7)])
  have same: "dev_identity_private ?d2 = dev_identity_private db" "dev_device_id ?d2 = dev_device_id db"
    "dev_identity_public_bytes ?d2 = dev_identity_public_bytes db" "dev_ephemeral_private ?d2 = dev_ephemeral_private ?d1"
    "dev_ephemeral_public ?d2 = dev_ephemeral_public ?d1"
    by (simp_all add: Device_register_pending_peer_def)
  have wf: "device_wf C ?d2"
    using device_run_wf [OF assms(2), of "[Dev_ephemeral (env_fresh v) ida, Dev_pending ida (dev_identity_public_bytes da)]"]
    by (simp add: g)
  have g2: "Device_generate_ephemeral_keypair C (env_fresh v) ida ?d2 = (Inr (x_pub C (env_fresh v)), ?d2)"
    by (rule generate_again) (simp_all only: same with_ephemeral_simps)
  obtain hello2 wire2 where b: "Device_build_hello_packet C (env_fresh v) (env_stamp v) (Some ida) ?d2 = (Inr hello2, ?d2)"
    and w2: "hello_wire C ?d2 ida (x_pub C (env_fresh v)) hello2 wire2"
    using hello_built [OF assms(1) wf _ _ _ g2 ida(2), where now = "env_stamp v"] assms(4) by auto
  have f: "pkt_ptype hello = HELLO" "pkt_sender_id hello = ida" "64 \<le> length (pkt_payload hello)"
    "take 32 (pkt_payload hello) = dev_identity_public_bytes da" "py_slice 32 64 (pkt_payload hello) = xa"
    using h ida(1) by (auto simp: hello_wire_def py_slice_def)
  have "Packet_to_bytes hello2 = Inr wire2" using w2 by (simp add: hello_wire_def)
  then have "Protocol_process_incoming C v wire (p, db) =
      (Inr (Some wire2),
        (p\<lparr>pr_state := HELLO_RECEIVED, pr_peer_id := Some ida,
           pr_peer_ed25519_pub := Some (dev_identity_public_bytes da), pr_peer_x25519_pub := Some xa,
           pr_i_am_initiator := False\<rparr>, ?d2))"
    using hello_received [OF h, of "env_parse v" "env_replay v" db] assms(3) f g b
    by (simp add: Protocol_process_incoming_def Protocol_dispatch_def Protocol_handle_hello_def Let_def)
  moreover have "hello_wire C db ida (x_pub C (env_fresh v)) hello2 wire2"
    using w2 by (simp add: hello_wire_def same)
  ultimately show ?thesis by blast
qed

text \<open>
  The bytes of a KEY\_EXCHANGE packet with sequence number 0 from \<open>d\<close>, encrypted under \<open>key\<close>
  and stamped \<open>now\<close>.
\<close>

definition exchange_wire :: "'k crypto \<Rightarrow> 'k device \<Rightarrow> bytes \<Rightarrow> int \<Rightarrow> packet \<Rightarrow> bytes \<Rightarrow> bool" where
  "exchange_wire C d key now p wire \<longleftrightarrow>
     pkt_ptype p = KEY_EXCHANGE \<and> pkt_sender_id p = dev_device_id d \<and> pkt_sequence p = 0 \<and>
     pkt_flags p = 1 \<and> pkt_timestamp_ms p = now \<and> packet_wf p \<and> Packet_to_bytes p = Inr wire \<and>
     verify_packet C (dev_identity_public_bytes d) p = Inr True \<and>
     crypto_decrypt C key (pkt_nonce p) (pkt_payload p) [] = Inr KEY_EXCHANGE_OK"

lemma exchange_built:
  assumes "crypto_laws C" and "dict_get (dev_sessions d) peer = Some s" and "session_wf peer s" and "env_ok v"
    and "length (dev_device_id d) = 32" and "dev_identity_public_bytes d = ed_pub C (dev_identity_private d)"
  shows "\<exists>p wire. Protocol_build_key_exchange_packet C v peer 0 d = Inr wire \<and>
     exchange_wire C d (ses_session_key s) (env_stamp v) p wire"
proof -
  obtain c t p wire where p: "p = sealed_packet KEY_EXCHANGE 1 (dev_device_id d) peer 0 (env_nonce v) (env_stamp v) c t"
    and b: "Protocol_build_key_exchange_packet C v peer 0 d = Inr wire"
    and w: "Packet_to_bytes p = Inr wire" "packet_wf p" "verify_packet C (ed_pub C (dev_identity_private d)) p = Inr True"
    and c: "crypto_decrypt C (ses_session_key s) (env_nonce v) c [] = Inr KEY_EXCHANGE_OK"
    using build_key_exchange_ok [OF assms(1-4) _ _ assms(5), of 0] by auto
  have "exchange_wire C d (ses_session_key s) (env_stamp v) p wire"
    unfolding exchange_wire_def using w c assms(6) by (simp add: p)
  with b show ?thesis by blast
qed

abbreviation drawn :: "session \<Rightarrow> session" where
  "drawn s \<equiv> s\<lparr>ses_local_sequence := ses_local_sequence s + 1\<rparr>"

abbreviation confirmed :: "session \<Rightarrow> session" where
  "confirmed s \<equiv> s\<lparr>ses_peer_seq_window := {0}\<rparr>"

lemma check_replay_first:
  assumes "\<bar>now - ts\<bar> \<le> 30000" and "ses_peer_max_seq s = 0" and "ses_peer_seq_window s = {}"
  shows "Session_check_replay now 0 ts s = (Inr (), confirmed s)"
  using assms by (simp add: Session_check_replay_def MAX_CLOCK_SKEW_MS_def REPLAY_WINDOW_def)

lemma session_next_ok:
  assumes "dict_get (dev_sessions d) peer = Some s"
  shows "session_next peer d = (Inr (ses_local_sequence s), put_session peer (drawn s) d)"
  using assms by (simp add: session_next_def Device_get_session_def Session_next_sequence_def)

lemma put_session_simps [simp]:
  "dict_get (dev_sessions (put_session peer s d)) k = (if k = peer then Some s else dict_get (dev_sessions d) k)"
  "dev_device_id (put_session peer s d) = dev_device_id d"
  "dev_identity_private (put_session peer s d) = dev_identity_private d"
  "dev_identity_public_bytes (put_session peer s d) = dev_identity_public_bytes d"
  by (simp_all add: put_session_def dict_simps)

lemma new_end_simps [simp]:
  "ses_local_sequence (new_end C peer pub z i r) = 0" "ses_peer_max_seq (new_end C peer pub z i r) = 0"
  "ses_peer_seq_window (new_end C peer pub z i r) = {}" "ses_peer_ed25519_public (new_end C peer pub z i r) = pub"
  "ses_session_key (new_end C peer pub z i r) = derive_session_key C z i r"
  "ses_mac_key (new_end C peer pub z i r) = derive_mac_key C z i r"
  by (simp_all add: new_end_def)

text \<open>Step 3: the initiator derives the keys and confirms.\<close>

lemma initiator_confirms:
  assumes laws: "crypto_laws C" and wf: "device_wf C da" and st: "pr_state p = HELLO_SENT" and v: "env_ok v"
    and idb: "dev_device_id db = idb" "length idb = 32"
    and eph: "dict_get (dev_ephemeral_private da) idb = Some xa" "dict_get (dev_ephemeral_public da) idb = Some ya"
    and secret: "x25519_exchange C xa xb = Inr z"
    and h: "hello_wire C db (dev_device_id da) xb hello wire"
  defines "sa \<equiv> new_end C idb (dev_identity_public_bytes db) z (dev_device_id da) idb"
  shows "\<exists>q wire2. Protocol_process_incoming C v wire (p, da) =
       (Inr (Some wire2),
        (p\<lparr>pr_state := KEY_EXCHANGE_SENT, pr_peer_id := Some idb,
           pr_peer_ed25519_pub := Some (dev_identity_public_bytes db), pr_peer_x25519_pub := Some xb\<rparr>,
         put_session idb (drawn sa) (exchanged idb sa da))) \<and>
     exchange_wire C da (ses_session_key sa) (env_stamp v) q wire2"
proof -
  let ?d1 = "exchanged idb sa da"
  let ?d2 = "put_session idb (drawn sa) ?d1"
  have mac: "mac_laws C" and pub: "length (dev_identity_public_bytes db) = 32"
    using laws h by (simp_all add: crypto_laws_def hello_wire_def)
  have c: "Device_complete_key_exchange C idb (dev_identity_public_bytes db) xb True da = (Inr sa, ?d1)"
    using complete_ok [OF mac idb(2) pub eph secret, of True] by (simp add: sa_def)
  have n: "session_next idb ?d1 = (Inr 0, ?d2)"
    using session_next_ok [of ?d1 idb sa] by (simp add: sa_def)
  have s: "session_wf idb (drawn sa)"
    using next_sequence_wf [OF new_end_session(2) [OF mac idb(2) pub]] by (simp add: sa_def Session_next_sequence_def)
  obtain q wire2 where k: "Protocol_build_key_exchange_packet C v idb 0 ?d2 = Inr wire2"
    "exchange_wire C ?d2 (ses_session_key (drawn sa)) (env_stamp v) q wire2"
    using exchange_built [OF laws _ s v, of ?d2] device_id_length [OF wf] wf by (auto simp: device_wf_def)
  have f: "pkt_ptype hello = HELLO" "pkt_sender_id hello = idb" "64 \<le> length (pkt_payload hello)"
    "take 32 (pkt_payload hello) = dev_identity_public_bytes db" "py_slice 32 64 (pkt_payload hello) = xb"
    using h idb(1) by (auto simp: hello_wire_def py_slice_def)
  have "Protocol_process_incoming C v wire (p, da) =
       (Inr (Some wire2),
        (p\<lparr>pr_state := KEY_EXCHANGE_SENT, pr_peer_id := Some idb,
           pr_peer_ed25519_pub := Some (dev_identity_public_bytes db), pr_peer_x25519_pub := Some xb\<rparr>, ?d2))"
    using hello_received [OF h, of "env_parse v" "env_replay v" da] st f c n k(1)
    by (simp add: Protocol_process_incoming_def Protocol_dispatch_def Protocol_handle_hello_def Let_def)
  moreover have "exchange_wire C da (ses_session_key sa) (env_stamp v) q wire2"
    using k(2) by (simp add: exchange_wire_def)
  ultimately show ?thesis by blast
qed

text \<open>Step 4: the responder derives the keys, checks the confirmation and confirms.\<close>

lemma receive_pending:
  assumes "exchange_wire C da key now q wire" and "dict_get (dev_sessions d) (dev_device_id da) = None"
    and "dict_get (dev_pending_peer_keys d) (dev_device_id da) = Some (dev_identity_public_bytes da)"
  shows "Device_receive_packet C n m wire d = (Inr q, d)"
  using packet_codec.dec_enc [of q wire n] assms by (simp add: exchange_wire_def Device_receive_packet_def)

lemma responder_confirms:
  assumes laws: "crypto_laws C" and wf: "device_wf C db" and v: "env_ok v"
    and p: "pr_state p = HELLO_RECEIVED" "pr_peer_id p = Some ida"
      "pr_peer_ed25519_pub p = Some (dev_identity_public_bytes da)" "pr_peer_x25519_pub p = Some xa"
    and ida: "dev_device_id da = ida" "length ida = 32" "length (dev_identity_public_bytes da) = 32"
    and eph: "dict_get (dev_ephemeral_private db) ida = Some xb" "dict_get (dev_ephemeral_public db) ida = Some yb"
    and secret: "x25519_exchange C xb xa = Inr z"
    and sess: "dict_get (dev_sessions db) ida = None"
      "dict_get (dev_pending_peer_keys db) ida = Some (dev_identity_public_bytes da)"
    and q: "exchange_wire C da (derive_session_key C z ida (dev_device_id db)) now q wire"
    and clock: "\<bar>env_confirm v - now\<bar> \<le> 30000"
  defines "sb \<equiv> new_end C ida (dev_identity_public_bytes da) z ida (dev_device_id db)"
  shows "\<exists>q2 wire2. Protocol_process_incoming C v wire (p, db) =
       (Inr (Some wire2), (p\<lparr>pr_state := ESTABLISHED\<rparr>,
          put_session ida (drawn (confirmed sb)) (put_session ida (confirmed sb) (exchanged ida sb db)))) \<and>
     exchange_wire C db (ses_session_key sb) (env_stamp v) q2 wire2"
proof -
  let ?d1 = "exchanged ida sb db"
  let ?d2 = "put_session ida (confirmed sb) ?d1"
  let ?d3 = "put_session ida (drawn (confirmed sb)) ?d2"
  have mac: "mac_laws C" using laws by (simp add: crypto_laws_def)
  have c: "Device_complete_key_exchange C ida (dev_identity_public_bytes da) xa False db = (Inr sb, ?d1)"
    using complete_ok [OF mac ida(2,3) eph secret, of False] by (simp add: sb_def)
  have f: "pkt_ptype q = KEY_EXCHANGE" "pkt_sender_id q = ida" "pkt_sequence q = 0" "pkt_timestamp_ms q = now"
    and dec: "crypto_decrypt C (ses_session_key sb) (pkt_nonce q) (pkt_payload q) [] = Inr KEY_EXCHANGE_OK"
    using q ida(1) by (simp_all add: exchange_wire_def sb_def)
  have chk: "session_check (env_confirm v) 0 now ida ?d1 = (Inr (), ?d2)"
    using check_replay_first [OF clock, of sb] by (simp add: session_check_def Device_get_session_def sb_def)
  have plain: "Device_decrypt_packet C ?d2 q = Inr KEY_EXCHANGE_OK"
    using dec f(2) by (simp add: Device_decrypt_packet_def Device_get_session_def)
  have n: "session_next ida ?d2 = (Inr 0, ?d3)"
    using session_next_ok [of ?d2 ida "confirmed sb"] by (simp add: sb_def)
  have "session_wf ida (snd (Session_check_replay (env_confirm v) 0 now sb))"
    by (rule check_replay_wf) (simp add: sb_def new_end_session(2) [OF mac ida(2,3)])
  then have "session_wf ida (confirmed sb)"
    using check_replay_first [OF clock, of sb] by (simp add: sb_def)
  from next_sequence_wf [OF this] have s: "session_wf ida (drawn (confirmed sb))"
    by (simp add: Session_next_sequence_def)
  obtain q2 wire2 where k: "Protocol_build_key_exchange_packet C v ida 0 ?d3 = Inr wire2"
    "exchange_wire C ?d3 (ses_session_key (drawn (confirmed sb))) (env_stamp v) q2 wire2"
    using exchange_built [OF laws _ s v, of ?d3] device_id_length [OF wf] wf by (auto simp: device_wf_def)
  have "Device_receive_packet C (env_parse v) (env_replay v) wire db = (Inr q, db)"
    by (rule receive_pending [OF q]) (use sess ida(1) in simp_all)
  then have "Protocol_process_incoming C v wire (p, db) = (Inr (Some wire2), (p\<lparr>pr_state := ESTABLISHED\<rparr>, ?d3))"
    using p f c chk plain n k(1)
    by (simp add: Protocol_process_incoming_def Protocol_dispatch_def Protocol_handle_key_exchange_def)
  moreover have "exchange_wire C db (ses_session_key sb) (env_stamp v) q2 wire2"
    using k(2) by (simp add: exchange_wire_def)
  ultimately show ?thesis by blast
qed

text \<open>Step 5: the initiator checks the confirmation.\<close>

lemma initiator_established:
  assumes p: "pr_state p = KEY_EXCHANGE_SENT" "pr_peer_id p = Some (dev_device_id db)"
    and s: "dict_get (dev_sessions da) (dev_device_id db) = Some s" "ses_peer_max_seq s = 0"
      "ses_peer_seq_window s = {}" "ses_peer_ed25519_public s = dev_identity_public_bytes db"
    and q: "exchange_wire C db (ses_session_key s) now q wire"
    and clock: "\<bar>env_replay v - now\<bar> \<le> 30000"
  shows "Protocol_process_incoming C v wire (p, da) =
     (Inr None, (p\<lparr>pr_state := ESTABLISHED\<rparr>, put_session (dev_device_id db) (confirmed s) da))"
proof -
  have f: "pkt_ptype q = KEY_EXCHANGE" "pkt_sender_id q = dev_device_id db" "pkt_sequence q = 0"
    "pkt_timestamp_ms q = now" "pkt_flags q = 1" "packet_wf q" "Packet_to_bytes q = Inr wire"
    "verify_packet C (dev_identity_public_bytes db) q = Inr True"
    "crypto_decrypt C (ses_session_key s) (pkt_nonce q) (pkt_payload q) [] = Inr KEY_EXCHANGE_OK"
    using q by (simp_all add: exchange_wire_def)
  have "Device_receive_packet C (env_parse v) (env_replay v) wire da
      = (Inr q, put_session (pkt_sender_id q) (confirmed s) da)"
  proof (rule receive_sealed [OF f(6,7)])
    show "replay_checked (env_replay v) q s = (Inr (), confirmed s)"
      using check_replay_first [OF clock s(2,3)] by (simp add: f)
    show "session_authentic C s q = Inr True"
      using f s(4) by (simp add: session_authentic_def FLAG_MAC_AUTH_def)
  qed (use f s in simp_all)
  then show ?thesis
    using p f s
    by (simp add: Protocol_process_incoming_def Protocol_dispatch_def Protocol_handle_key_exchange_def
        Device_get_session_def Device_decrypt_packet_def)
qed

section \<open>The whole handshake\<close>

text \<open>The two ends after the handshake.\<close>

definition end_state :: "'k device \<Rightarrow> bytes \<Rightarrow> session \<Rightarrow> 'k device" where
  "end_state d peer s = put_session peer (s\<lparr>ses_local_sequence := 1, ses_peer_seq_window := {0}\<rparr>) (exchanged peer s d)"

lemma session_update_swap:
  "s\<lparr>ses_peer_seq_window := w\<rparr>\<lparr>ses_local_sequence := q\<rparr> = s\<lparr>ses_local_sequence := q\<rparr>\<lparr>ses_peer_seq_window := w\<rparr>"
  by (cases s) simp

lemma put_session_twice [simp]: "put_session peer s (put_session peer s' d) = put_session peer s d"
  by (simp add: put_session_def)

lemma handshake_steps:
  assumes laws: "crypto_laws C" and wfa: "device_wf C da" and wfb: "device_wf C db"
    and fresh: "dict_get (dev_ephemeral_private da) (dev_device_id db) = None"
      "dict_get (dev_ephemeral_private db) (dev_device_id da) = None"
      "dict_get (dev_sessions db) (dev_device_id da) = None"
    and v: "env_ok v1" "env_ok v2" "env_ok v3" "env_ok v4"
    and clock: "\<bar>env_confirm v4 - env_stamp v3\<bar> \<le> 30000" "\<bar>env_replay v5 - env_stamp v4\<bar> \<le> 30000"
  shows "\<exists>z h1 h2 k1 k2 s1 t1 s2 pa pb.
     Protocol_initiate C v1 (dev_device_id db) (Protocol_new, da) = (Inr h1, s1) \<and>
     Protocol_process_incoming C v2 h1 (Protocol_new, db) = (Inr (Some h2), t1) \<and>
     Protocol_process_incoming C v3 h2 s1 = (Inr (Some k1), s2) \<and>
     Protocol_process_incoming C v4 k1 t1 = (Inr (Some k2),
       (pb, end_state (Device_register_pending_peer (dev_device_id da) (dev_identity_public_bytes da)
              (with_ephemeral C (env_fresh v2) (dev_device_id da) db)) (dev_device_id da)
          (new_end C (dev_device_id da) (dev_identity_public_bytes da) z (dev_device_id da) (dev_device_id db)))) \<and>
     Protocol_process_incoming C v5 k2 s2 = (Inr None,
       (pa, end_state (with_ephemeral C (env_fresh v1) (dev_device_id db) da) (dev_device_id db)
          (new_end C (dev_device_id db) (dev_identity_public_bytes db) z (dev_device_id da) (dev_device_id db)))) \<and>
     pr_state pa = ESTABLISHED \<and> pr_peer_id pa = Some (dev_device_id db) \<and>
     pr_state pb = ESTABLISHED \<and> pr_peer_id pb = Some (dev_device_id da)"
proof -
  let ?ida = "dev_device_id da" and ?idb = "dev_device_id db"
  let ?a1 = "with_ephemeral C (env_fresh v1) ?idb da"
  let ?b1 = "Device_register_pending_peer ?ida (dev_identity_public_bytes da) (with_ephemeral C (env_fresh v2) ?ida db)"
  have len: "length ?ida = 32" "length ?idb = 32" by (rule device_id_length, fact)+
  have "x_laws C" using laws by (simp add: crypto_laws_def)
  then obtain z where z: "x25519_exchange C (env_fresh v1) (x_pub C (env_fresh v2)) = Inr z"
    "x25519_exchange C (env_fresh v2) (x_pub C (env_fresh v1)) = Inr z"
    by (rule x25519_agree)
  let ?sa = "new_end C ?idb (dev_identity_public_bytes db) z ?ida ?idb"
  let ?sb = "new_end C ?ida (dev_identity_public_bytes da) z ?ida ?idb"
  have wfa1: "device_wf C ?a1" and wfb1: "device_wf C ?b1"
    using device_run_wf [OF wfa, of "[Dev_ephemeral (env_fresh v1) ?idb]"]
      device_run_wf [OF wfb, of "[Dev_ephemeral (env_fresh v2) ?ida, Dev_pending ?ida (dev_identity_public_bytes da)]"]
    by (simp_all add: generate_new [OF fresh(1)] generate_new [OF fresh(2)])
  obtain p1 h1 m1 where 1: "Protocol_initiate C v1 ?idb (Protocol_new, da) = (Inr h1, (p1, ?a1))"
    "pr_state p1 = HELLO_SENT" "hello_wire C da ?idb (x_pub C (env_fresh v1)) m1 h1"
    using initiate_ok [OF laws wfa _ fresh(1) len(2) v(1), of Protocol_new] by (auto simp: Protocol_new_def)
  obtain q1 h2 m2 where 2: "Protocol_process_incoming C v2 h1 (Protocol_new, db) = (Inr (Some h2), (q1, ?b1))"
    "pr_state q1 = HELLO_RECEIVED" "pr_peer_id q1 = Some ?ida" "pr_peer_ed25519_pub q1 = Some (dev_identity_public_bytes da)"
    "pr_peer_x25519_pub q1 = Some (x_pub C (env_fresh v1))" "hello_wire C db ?ida (x_pub C (env_fresh v2)) m2 h2"
    using respond_ok [OF laws wfb _ v(2) refl len(1) fresh(2) 1(3), of Protocol_new] by (auto simp: Protocol_new_def)
  have h2: "hello_wire C db (dev_device_id ?a1) (x_pub C (env_fresh v2)) m2 h2" using 2(6) by simp
  obtain p2 k1 n1 where 3: "Protocol_process_incoming C v3 h2 (p1, ?a1)
      = (Inr (Some k1), (p2, put_session ?idb (drawn ?sa) (exchanged ?idb ?sa ?a1)))"
    "pr_state p2 = KEY_EXCHANGE_SENT" "pr_peer_id p2 = Some ?idb"
    "exchange_wire C ?a1 (ses_session_key ?sa) (env_stamp v3) n1 k1"
    using initiator_confirms [OF laws wfa1 1(2) v(3) refl len(2) _ _ z(1) h2] by auto
  have k1: "exchange_wire C da (derive_session_key C z ?ida (dev_device_id ?b1)) (env_stamp v3) n1 k1"
    using 3(4) by (simp add: exchange_wire_def Device_register_pending_peer_def)
  have pub: "length (dev_identity_public_bytes da) = 32" using 1(3) by (simp add: hello_wire_def)
  obtain k2 n2 where 4: "Protocol_process_incoming C v4 k1 (q1, ?b1) =
      (Inr (Some k2), (q1\<lparr>pr_state := ESTABLISHED\<rparr>, end_state ?b1 ?ida ?sb))"
    "exchange_wire C ?b1 (ses_session_key ?sb) (env_stamp v4) n2 k2"
    using responder_confirms [OF laws wfb1 v(4) 2(2-5) refl len(1) pub _ _ z(2) _ _ k1 clock(1)] fresh(3)
    by (auto simp: Device_register_pending_peer_def dict_simps end_state_def session_update_swap)
  have k2: "exchange_wire C db (ses_session_key (drawn ?sa)) (env_stamp v4) n2 k2"
    using 4(2) by (simp add: exchange_wire_def Device_register_pending_peer_def)
  have "Protocol_process_incoming C v5 k2 (p2, put_session ?idb (drawn ?sa) (exchanged ?idb ?sa ?a1))
      = (Inr None, (p2\<lparr>pr_state := ESTABLISHED\<rparr>, end_state ?a1 ?idb ?sa))"
    using initiator_established [OF 3(2,3) _ _ _ _ k2 clock(2)] by (simp add: end_state_def)
  with 1 2 3 4 show ?thesis
    by (intro exI [of _ z] exI [of _ h1] exI [of _ h2] exI [of _ k1] exI [of _ k2] exI conjI) (rule 1(1) 2(1) 3(1) 4(1) | simp)+
qed

lemma handshake_shared:
  assumes "crypto_laws C" and "device_wf C da" and "device_wf C db"
    and "dict_get (dev_ephemeral_private da) (dev_device_id db) = None"
    and "dict_get (dev_ephemeral_private db) (dev_device_id da) = None"
    and "dict_get (dev_sessions db) (dev_device_id da) = None"
    and "\<forall>v \<in> {v1, v2, v3, v4}. 0 < env_stamp v \<and> env_stamp v < 256 ^ 8 \<and> length (env_nonce v) = 12"
    and "\<bar>env_confirm v4 - env_stamp v3\<bar> \<le> 30000" and "\<bar>env_replay v5 - env_stamp v4\<bar> \<le> 30000"
  shows "\<exists>h1 h2 k1 k2 s1 t1 s2 pa da' pb db' sa sb.
     Protocol_initiate C v1 (dev_device_id db) (Protocol_new, da) = (Inr h1, s1) \<and>
     Protocol_process_incoming C v2 h1 (Protocol_new, db) = (Inr (Some h2), t1) \<and>
     Protocol_process_incoming C v3 h2 s1 = (Inr (Some k1), s2) \<and>
     Protocol_process_incoming C v4 k1 t1 = (Inr (Some k2), (pb, db')) \<and>
     Protocol_process_incoming C v5 k2 s2 = (Inr None, (pa, da')) \<and>
     pr_state pa = ESTABLISHED \<and> pr_peer_id pa = Some (dev_device_id db') \<and>
     pr_state pb = ESTABLISHED \<and> pr_peer_id pb = Some (dev_device_id da') \<and>
     dev_device_id da' = dev_device_id da \<and> dev_device_id db' = dev_device_id db \<and>
     share_session da' sa db' sb \<and>
     ses_local_sequence sa = 1 \<and> ses_local_sequence sb = 1 \<and>
     ses_peer_seq_window sa = {0} \<and> ses_peer_seq_window sb = {0} \<and>
     ses_peer_max_seq sa = 0 \<and> ses_peer_max_seq sb = 0 \<and>
     dict_get (dev_ephemeral_private da') (dev_device_id db) = None \<and>
     dict_get (dev_ephemeral_private db') (dev_device_id da) = None"
proof -
  let ?ida = "dev_device_id da" and ?idb = "dev_device_id db"
  let ?a1 = "with_ephemeral C (env_fresh v1) ?idb da"
  let ?b1 = "Device_register_pending_peer ?ida (dev_identity_public_bytes da) (with_ephemeral C (env_fresh v2) ?ida db)"
  have v: "env_ok v1" "env_ok v2" "env_ok v3" "env_ok v4" using assms(7) by simp_all
  obtain z h1 h2 k1 k2 s1 t1 s2 pa pb where steps:
    "Protocol_initiate C v1 ?idb (Protocol_new, da) = (Inr h1, s1)"
    "Protocol_process_incoming C v2 h1 (Protocol_new, db) = (Inr (Some h2), t1)"
    "Protocol_process_incoming C v3 h2 s1 = (Inr (Some k1), s2)"
    "Protocol_process_incoming C v4 k1 t1 =
       (Inr (Some k2), (pb, end_state ?b1 ?ida (new_end C ?ida (dev_identity_public_bytes da) z ?ida ?idb)))"
    "Protocol_process_incoming C v5 k2 s2 =
       (Inr None, (pa, end_state ?a1 ?idb (new_end C ?idb (dev_identity_public_bytes db) z ?ida ?idb)))"
    and ends: "pr_state pa = ESTABLISHED" "pr_peer_id pa = Some ?idb" "pr_state pb = ESTABLISHED" "pr_peer_id pb = Some ?ida"
    using handshake_steps [OF assms(1-6) v assms(8,9)] by blast
  let ?sa = "(new_end C ?idb (dev_identity_public_bytes db) z ?ida ?idb)\<lparr>ses_local_sequence := 1, ses_peer_seq_window := {0}\<rparr>"
  let ?sb = "(new_end C ?ida (dev_identity_public_bytes da) z ?ida ?idb)\<lparr>ses_local_sequence := 1, ses_peer_seq_window := {0}\<rparr>"
  let ?da' = "end_state ?a1 ?idb (new_end C ?idb (dev_identity_public_bytes db) z ?ida ?idb)"
  let ?db' = "end_state ?b1 ?ida (new_end C ?ida (dev_identity_public_bytes da) z ?ida ?idb)"
  have ids: "dev_device_id ?da' = ?ida" "dev_device_id ?db' = ?idb"
    by (simp_all add: end_state_def Device_register_pending_peer_def)
  have share: "share_session ?da' ?sa ?db' ?sb"
    unfolding share_session_def ids by (simp add: end_state_def Device_register_pending_peer_def)
  have gone: "dict_get (dev_ephemeral_private ?da') ?idb = None" "dict_get (dev_ephemeral_private ?db') ?ida = None"
    by (simp_all add: end_state_def put_session_def exchanged_def dict_simps)
  show ?thesis
    by (rule exI [of _ h1], rule exI [of _ h2], rule exI [of _ k1], rule exI [of _ k2], rule exI [of _ s1],
        rule exI [of _ t1], rule exI [of _ s2], rule exI [of _ pa], rule exI [of _ ?da'], rule exI [of _ pb],
        rule exI [of _ ?db'], rule exI [of _ ?sa], rule exI [of _ ?sb])
       (simp add: steps ends ids share gone)
qed

section \<open>Properties\<close>

text \<open>C2: the handshake establishes a shared session. Two well-formed devices, of which neither has a
  handshake with the other in progress and the responder has no session with the initiator, exchange
  HELLO, HELLO, KEY\_EXCHANGE, KEY\_EXCHANGE; every call returns the next packet, and in the end both
  protocols are ESTABLISHED with each other's identity, both devices hold the two ends of one session
  with the same session key and the same MAC key and the right identity keys, each end has used up and
  seen exactly sequence number 0, and the ephemeral private keys are gone.\<close>

theorem handshake_establishes:
  assumes "crypto_laws C" and "device_wf C da" and "device_wf C db"
    and "dict_get (dev_ephemeral_private da) (dev_device_id db) = None"
    and "dict_get (dev_ephemeral_private db) (dev_device_id da) = None"
    and "dict_get (dev_sessions db) (dev_device_id da) = None"
    and "\<forall>v \<in> {v1, v2, v3, v4}. 0 < env_stamp v \<and> env_stamp v < 256 ^ 8 \<and> length (env_nonce v) = 12"
    and "\<bar>env_confirm v4 - env_stamp v3\<bar> \<le> 30000" and "\<bar>env_replay v5 - env_stamp v4\<bar> \<le> 30000"
  shows "\<exists>h1 h2 k1 k2 s1 t1 s2 pa da' pb db' sa sb.
     Protocol_initiate C v1 (dev_device_id db) (Protocol_new, da) = (Inr h1, s1) \<and>
     Protocol_process_incoming C v2 h1 (Protocol_new, db) = (Inr (Some h2), t1) \<and>
     Protocol_process_incoming C v3 h2 s1 = (Inr (Some k1), s2) \<and>
     Protocol_process_incoming C v4 k1 t1 = (Inr (Some k2), (pb, db')) \<and>
     Protocol_process_incoming C v5 k2 s2 = (Inr None, (pa, da')) \<and>
     pr_state pa = ESTABLISHED \<and> pr_peer_id pa = Some (dev_device_id db') \<and>
     pr_state pb = ESTABLISHED \<and> pr_peer_id pb = Some (dev_device_id da') \<and>
     dev_device_id da' = dev_device_id da \<and> dev_device_id db' = dev_device_id db \<and>
     share_session da' sa db' sb \<and>
     ses_local_sequence sa = 1 \<and> ses_local_sequence sb = 1 \<and>
     ses_peer_seq_window sa = {0} \<and> ses_peer_seq_window sb = {0} \<and>
     ses_peer_max_seq sa = 0 \<and> ses_peer_max_seq sb = 0 \<and>
     dict_get (dev_ephemeral_private da') (dev_device_id db) = None \<and>
     dict_get (dev_ephemeral_private db') (dev_device_id da) = None"
  by (rule handshake_shared [OF assms])

theorem handshake_establishes_witness:
  "\<exists>h1 h2 k1 k2 s1 t1 s2 pa da' pb db'.
     Protocol_initiate toy quiet id_b (Protocol_new, Device_new toy key_a ''a'') = (Inr h1, s1) \<and>
     Protocol_process_incoming toy quiet h1 (Protocol_new, Device_new toy key_b ''b'') = (Inr (Some h2), t1) \<and>
     Protocol_process_incoming toy quiet h2 s1 = (Inr (Some k1), s2) \<and>
     Protocol_process_incoming toy quiet k1 t1 = (Inr (Some k2), (pb, db')) \<and>
     Protocol_process_incoming toy quiet k2 s2 = (Inr None, (pa, da')) \<and>
     pr_state pa = ESTABLISHED \<and> pr_state pb = ESTABLISHED"
proof -
  let ?a = "Device_new toy key_a ''a''" and ?b = "Device_new toy key_b ''b''"
  have ids: "dev_device_id ?a = id_a" "dev_device_id ?b = id_b" "dev_ephemeral_private ?a = []"
    "dev_ephemeral_private ?b = []" "dev_sessions ?b = []"
    by (simp_all add: Device_new_def crypto_engine_defs toy_public_key sha256_key_a sha256_key_b)
  have q: "\<forall>v \<in> {quiet, quiet, quiet, quiet}. 0 < env_stamp v \<and> env_stamp v < 256 ^ 8 \<and> length (env_nonce v) = 12"
    by (simp add: quiet_def)
  show ?thesis
    using handshake_establishes [OF toy_laws Device_new_wf Device_new_wf _ _ _ q, of key_a "''a''" key_b "''b''" quiet]
    unfolding ids by (simp add: quiet_def) blast
qed

end
