(* ===== verification/Protocol_Properties.thy ===== *)
theory Protocol_Properties
  imports Handshake
begin

text \<open>
  What an established protocol gives and what it does not: data passes unchanged; a protocol only
  becomes ESTABLISHED on an authentic confirmation that decrypts under the new key; but the identity of
  a peer is not tied to its key, a HELLO redirects an established protocol, and any peer of the device
  can close it.
\<close>

section \<open>Data\<close>

lemma send_data_ok:
  assumes "pr_state p = ESTABLISHED" and "pr_peer_id p = Some peer"
    and "Device_build_data_packet C (env_stamp v) (env_nonce v) peer plain d = (Inr q, d')"
    and "Packet_to_bytes q = Inr wire"
  shows "Protocol_send_data C v plain (p, d) = (Inr wire, (p, d'))"
  using assms by (simp add: Protocol_send_data_def Protocol_require_established_def)

lemma receive_data_ok:
  assumes "pr_state p = ESTABLISHED"
    and "Device_receive_packet C (env_parse v) (env_replay v) wire d = (Inr q, d')"
    and "pkt_ptype q = DATA" and "Device_decrypt_packet C d' q = Inr plain"
  shows "Protocol_receive_data C v wire (p, d) = (Inr plain, (p, d'))"
  using assms by (simp add: Protocol_receive_data_def Protocol_require_established_def)

text \<open>Established peers exchange data. When both protocols are ESTABLISHED and their devices hold the
  two ends of a session, what one end sends the other receives, unchanged.\<close>

theorem established_data:
  assumes "crypto_laws C" and "device_wf C da" and "share_session da sa db sb"
    and "pr_state pa = ESTABLISHED" and "pr_peer_id pa = Some (dev_device_id db)" and "pr_state pb = ESTABLISHED"
    and "0 < env_stamp va \<and> env_stamp va < 256 ^ 8" and "length (env_nonce va) = 12"
    and "int (length plain) < 2 ^ 31" and "ses_local_sequence sa < 2 ^ 32"
    and "\<bar>env_replay vb - env_stamp va\<bar> \<le> 30000"
    and "ses_local_sequence sa \<notin> ses_peer_seq_window sb" and "ses_peer_max_seq sb - 64 < ses_local_sequence sa"
  shows "\<exists>wire da' db'. Protocol_send_data C va plain (pa, da) = (Inr wire, (pa, da')) \<and>
     Protocol_receive_data C vb wire (pb, db) = (Inr plain, (pb, db'))"
proof -
  have "ses_local_sequence sa < 256 ^ 4" using assms(10) by simp
  then obtain q c t da' where b: "(if False then Device_build_data_packet_mac else Device_build_data_packet) C
      (env_stamp va) (env_nonce va) (dev_device_id db) plain da = (Inr q, da')"
    and q: "q = sealed_packet DATA (if False then 5 else 1) (dev_device_id da) (dev_device_id db)
      (ses_local_sequence sa) (env_nonce va) (env_stamp va) c t"
    and w: "packet_wf q" and dec: "crypto_decrypt C (ses_session_key sa) (env_nonce va) c [] = Inr plain"
    and au: "session_authentic C sb q = Inr True"
    by (rule data_packet_built [OF assms(1-3) assms(8,9,7), where mac = False])
  obtain wire db' where wire: "Packet_to_bytes q = Inr wire"
    and r: "Device_receive_packet C (env_parse vb) (env_replay vb) wire db = (Inr q, db')"
      "Device_decrypt_packet C db' q = Inr plain"
    using sealed_delivered [OF w assms(3), of C "env_replay vb" plain "env_parse vb"] au assms(11-13) dec
    by (auto simp: q)
  have "Protocol_send_data C va plain (pa, da) = (Inr wire, (pa, da'))"
    by (rule send_data_ok [OF assms(4,5) _ wire]) (use b in simp)
  moreover have "Protocol_receive_data C vb wire (pb, db) = (Inr plain, (pb, db'))"
    by (rule receive_data_ok [OF assms(6) r(1) _ r(2)]) (simp add: q)
  ultimately show ?thesis by blast
qed

definition up :: "bytes \<Rightarrow> protocol" where
  "up peer = \<lparr>pr_state = ESTABLISHED, pr_peer_id = Some peer, pr_peer_ed25519_pub = None,
     pr_peer_x25519_pub = None, pr_i_am_initiator = True\<rparr>"

lemma up_simps [simp]: "pr_state (up peer) = ESTABLISHED" "pr_peer_id (up peer) = Some peer"
  by (simp_all add: up_def)

theorem established_data_witness:
  "\<exists>wire da' db'. Protocol_send_data toy quiet [1, 2, 3] (up id_b, dev_a) = (Inr wire, (up id_b, da')) \<and>
     Protocol_receive_data toy quiet wire (up id_a, dev_b) = (Inr [1, 2, 3], (up id_a, db'))"
  by (rule established_data [OF toy_laws dev_a_wf dev_ab_share])
     (simp_all add: dev_ids quiet_def, simp_all add: end_ab_def)

section \<open>Establishment\<close>









section \<open>Identities and keys\<close>

text \<open>A device that claims the identity \<open>vic\<close> and owns the key \<open>sk\<close>.\<close>

definition claiming :: "'k crypto \<Rightarrow> 'k \<Rightarrow> bytes \<Rightarrow> 'k device" where
  "claiming C sk vic = (Device_new C sk [])\<lparr>dev_device_id := vic\<rparr>"

lemma claiming_simps [simp]:
  "dev_device_id (claiming C sk vic) = vic" "dev_identity_private (claiming C sk vic) = sk"
  "dev_identity_public_bytes (claiming C sk vic) = ed_pub C sk"
  by (simp_all add: claiming_def Device_new_def crypto_engine_defs)

lemma claiming_hello:
  assumes "crypto_laws C" and "length vic = 32" and "length peer = 32" and "clock_ok now"
  shows "\<exists>hello wire. hello_wire C (claiming C sk vic) peer (x_pub C x) hello wire"
proof -
  have laws: "ed_laws C" and len: "length (ed_pub C sk) = 32" "length (x_pub C x) = 32"
    using assms(1) by (simp_all add: crypto_laws_def ed_laws_def x_laws_def)
  let ?p = "(new_packet HELLO vic (ed_pub C sk @ x_pub C x) peer 0 0 (replicate 12 0))\<lparr>pkt_timestamp_ms := now\<rparr>"
  have "packet_wf ?p"
    by (rule new_packet_wf(2)) (use assms(2-4) len in simp_all)
  from signature_auth.tagged [OF laws this, of sk] obtain t where
    t: "packet_wf (?p\<lparr>pkt_signature := t\<rparr>)" "verify_packet C (ed_pub C sk) (?p\<lparr>pkt_signature := t\<rparr>) = Inr True"
    by blast
  obtain wire where "Packet_to_bytes (?p\<lparr>pkt_signature := t\<rparr>) = Inr wire"
    using packet_codec.enc_total [OF t(1)] by blast
  then have "hello_wire C (claiming C sk vic) peer (x_pub C x) (?p\<lparr>pkt_signature := t\<rparr>) wire"
    using t len by (simp add: hello_wire_def new_packet_def)
  then show ?thesis by blast
qed

text \<open>C38: the handshake does not tie the identity to the key. Whoever holds any key pair \<open>sk\<close> can, for
  every identity \<open>vic\<close>, produce the two packets of an initiator with which an idle responder becomes
  ESTABLISHED with \<open>vic\<close>, in a session whose identity key is the holder's own: nothing checks that
  the sender's identity is the hash of the key in its HELLO.\<close>

theorem handshake_impersonation:
  assumes "crypto_laws C" and "device_wf C db" and "length vic = 32"
    and "dict_get (dev_ephemeral_private db) vic = None" and "dict_get (dev_sessions db) vic = None"
    and "\<forall>v \<in> {v2, v4}. 0 < env_stamp v \<and> env_stamp v < 256 ^ 8 \<and> length (env_nonce v) = 12"
    and "\<bar>env_confirm v4 - now\<bar> \<le> 30000" and "0 < now \<and> now < 256 ^ 8"
  shows "\<exists>hello exchange h2 t1 k2 pb db' s.
     Protocol_process_incoming C v2 hello (Protocol_new, db) = (Inr (Some h2), t1) \<and>
     Protocol_process_incoming C v4 exchange t1 = (Inr (Some k2), (pb, db')) \<and>
     pr_state pb = ESTABLISHED \<and> pr_peer_id pb = Some vic \<and>
     dict_get (dev_sessions db') vic = Some s \<and>
     ses_peer_ed25519_public s = ed_public_bytes C (ed_public_key C sk)"
proof -
  let ?att = "claiming C sk vic" and ?idb = "dev_device_id db"
  let ?b1 = "Device_register_pending_peer vic (ed_pub C sk) (with_ephemeral C (env_fresh v2) vic db)"
  have laws: "x_laws C" "mac_laws C" "ed_laws C" using assms(1) by (simp_all add: crypto_laws_def)
  have len: "length ?idb = 32" "length (ed_pub C sk) = 32"
    using device_id_length [OF assms(2)] laws(3) by (simp_all add: ed_laws_def)
  have v: "env_ok v2" "env_ok v4" using assms(6) by simp_all
  obtain z where z: "x25519_exchange C (env_fresh v2) (x_pub C sk) = Inr z"
    using x25519_agree [OF laws(1), of "env_fresh v2" sk] by metis
  obtain m h1 where h1: "hello_wire C ?att ?idb (x_pub C sk) m h1"
    using claiming_hello [OF assms(1,3) len(1) assms(8)] by blast
  obtain q1 h2 where 2: "Protocol_process_incoming C v2 h1 (Protocol_new, db) = (Inr (Some h2), (q1, ?b1))"
    "pr_state q1 = HELLO_RECEIVED" "pr_peer_id q1 = Some vic"
    "pr_peer_ed25519_pub q1 = Some (dev_identity_public_bytes ?att)" "pr_peer_x25519_pub q1 = Some (x_pub C sk)"
    using respond_ok [OF assms(1,2) _ v(1) _ assms(3,4) h1, of Protocol_new] by (auto simp: Protocol_new_def)
  let ?sa = "new_end C ?idb (dev_identity_public_bytes db) z vic ?idb"
  let ?v = "v4\<lparr>env_stamp := now\<rparr>"
  have pub: "length (dev_identity_public_bytes db) = 32"
    using assms(2) laws(3) by (simp add: device_wf_def ed_laws_def)
  have sa: "session_wf ?idb ?sa" by (rule new_end_session(2) [OF laws(2) len(1) pub])
  obtain n k1 where "exchange_wire C (put_session ?idb ?sa ?att) (ses_session_key ?sa) (env_stamp ?v) n k1"
    using exchange_built [OF assms(1) _ sa, of "put_session ?idb ?sa ?att" ?v] v(2) assms(3,8) by auto
  then have k1: "exchange_wire C ?att (derive_session_key C z vic (dev_device_id ?b1)) now n k1"
    by (simp add: exchange_wire_def Device_register_pending_peer_def)
  have wf: "device_wf C ?b1"
    using device_run_wf [OF assms(2), of "[Dev_ephemeral (env_fresh v2) vic, Dev_pending vic (ed_pub C sk)]"]
    by (simp add: generate_new [OF assms(4)])
  obtain k2 db' where 4: "Protocol_process_incoming C v4 k1 (q1, ?b1)
      = (Inr (Some k2), (q1\<lparr>pr_state := ESTABLISHED\<rparr>, db'))"
    "db' = put_session vic (drawn (confirmed (new_end C vic (ed_pub C sk) z vic (dev_device_id ?b1))))
      (put_session vic (confirmed (new_end C vic (ed_pub C sk) z vic (dev_device_id ?b1)))
        (exchanged vic (new_end C vic (ed_pub C sk) z vic (dev_device_id ?b1)) ?b1))"
    using responder_confirms [OF assms(1) wf v(2) 2(2-5) _ assms(3) _ _ _ z _ _ k1 assms(7)] len(2) assms(5)
    by (auto simp: Device_register_pending_peer_def dict_simps)
  from 2(1,3) 4 show ?thesis by fastforce
qed

theorem handshake_impersonation_witness:
  "\<exists>hello exchange h2 t1 k2 pb db' s.
     Protocol_process_incoming toy quiet hello (Protocol_new, Device_new toy key_b ''b'') = (Inr (Some h2), t1) \<and>
     Protocol_process_incoming toy quiet exchange t1 = (Inr (Some k2), (pb, db')) \<and>
     pr_state pb = ESTABLISHED \<and> pr_peer_id pb = Some id_a \<and>
     dict_get (dev_sessions db') id_a = Some s \<and> ses_peer_ed25519_public s = replicate 32 9"
proof -
  have q: "\<forall>v \<in> {quiet, quiet}. 0 < env_stamp v \<and> env_stamp v < 256 ^ 8 \<and> length (env_nonce v) = 12"
    by (simp add: quiet_def)
  have "dev_ephemeral_private (Device_new toy key_b ''b'') = []" "dev_sessions (Device_new toy key_b ''b'') = []"
    by (simp_all add: Device_new_def crypto_engine_defs)
  then show ?thesis
    using handshake_impersonation [OF toy_laws Device_new_wf _ _ _ q, of id_a key_b "''b''" 1000 "replicate 32 9"]
    by (simp add: toy_public_key quiet_def)
qed

text \<open>Anyone can make a HELLO that every device accepts, in the name of every identity.\<close>

lemma forged_hello:
  assumes "crypto_laws C" and "length vic = 32"
  obtains hello m where "\<And>n r e. Device_receive_packet C n r hello e = (Inr m, e)"
    and "pkt_ptype m = HELLO" and "64 \<le> length (pkt_payload m)" and "pkt_sender_id m = vic"
proof -
  fix sk
  obtain m h where h: "hello_wire C (claiming C sk vic) (replicate 32 0) (x_pub C sk) m h"
    using claiming_hello [OF assms, where peer = "replicate 32 0" and now = 1 and sk = sk and x = sk] by auto
  have "pkt_ptype m = HELLO" "64 \<le> length (pkt_payload m)" "pkt_sender_id m = vic"
    using h by (auto simp: hello_wire_def)
  then show ?thesis using that hello_received [OF h] by blast
qed

lemma send_data_session:
  assumes "crypto_laws C" and "device_wf C d" and "dict_get (dev_sessions d) peer = Some s"
    and "pr_state p = ESTABLISHED" and "pr_peer_id p = Some peer"
    and "env_ok v" and "int (length plain) < 2 ^ 31" and "ses_local_sequence s < 2 ^ 32"
  shows "\<exists>q wire d'. Protocol_send_data C v plain (p, d) = (Inr wire, (p, d')) \<and> packet_wf q \<and>
     Packet_to_bytes q = Inr wire \<and> pkt_ptype q = DATA \<and> pkt_recipient_id q = peer \<and>
     crypto_decrypt C (ses_session_key s) (pkt_nonce q) (pkt_payload q) [] = Inr plain"
proof -
  have laws: "aead_laws C" "ed_laws C" using assms(1) by (simp_all add: crypto_laws_def)
  let ?s1 = "s\<lparr>ses_local_sequence := ses_local_sequence s + 1\<rparr>"
  let ?d1 = "put_session peer ?s1 d"
  have swf: "session_wf peer s" by (rule device_session_wf [OF assms(2,3)])
  have seq: "ses_local_sequence s < 256 ^ 4" using assms(8) by simp
  have sig: "packet_auth (ed_laws C) (by_signature C ?d1 ?s1) (verify_packet C (ed_pub C (dev_identity_private d)))"
    using signature_auth.packet_auth_axioms [of C "dev_identity_private d"]
    by (simp add: by_signature_def [abs_def])
  have v: "length (env_nonce v) = 12" "clock_ok (env_stamp v)" using assms(6) by simp_all
  obtain c t q where q: "q = sealed_packet DATA 1 (dev_device_id d) peer (ses_local_sequence s) (env_nonce v) (env_stamp v) c t"
    "build_sealed C (by_signature C) (env_stamp v) (env_nonce v) DATA 1 peer plain d = (Inr q, ?d1)"
    "crypto_decrypt C (ses_session_key s) (env_nonce v) c [] = Inr plain" "packet_wf q"
    using build_sealed_ok [where auth = "by_signature C", OF sig laws(2,1) assms(3) swf seq refl refl v(1) assms(7)
        device_id_length [OF assms(2)] v(2), of 1 DATA] by auto
  obtain wire where w: "Packet_to_bytes q = Inr wire" using packet_codec.enc_total [OF q(4)] by blast
  have "Protocol_send_data C v plain (p, d) = (Inr wire, (p, ?d1))"
    by (rule send_data_ok [OF assms(4,5) _ w]) (use q(2) in \<open>simp add: Device_build_data_packet_def FLAG_ENCRYPTED_def\<close>)
  then show ?thesis using w q(1,3,4) by (intro exI [of _ q]) auto
qed

text \<open>C39: a HELLO redirects an established protocol. When a protocol is ESTABLISHED and any HELLO arrives
  that the device accepts and that carries two keys, the call raises \<open>HandshakeError\<close> and leaves the
  state and the device as they were, but the protocol's peer has become the sender of that HELLO. Sending
  data then no longer reaches the old peer: when the device has no session with the sender of the HELLO,
  \<open>send_data\<close> raises \<open>SessionNotFoundError\<close>, and when it has one, the data
  goes out in a packet for the sender of the HELLO, encrypted under the key of the session with it.\<close>

theorem hello_redirects_established:
  assumes "crypto_laws C" and "device_wf C d" and "pr_state p = ESTABLISHED"
    and "Device_receive_packet C (env_parse v) (env_replay v) hello d = (Inr m, d1)"
    and "pkt_ptype m = HELLO" and "64 \<le> length (pkt_payload m)"
    and "0 < env_stamp v' \<and> env_stamp v' < 256 ^ 8" and "length (env_nonce v') = 12" and "int (length plain) < 2 ^ 31"
  shows "\<exists>p'. Protocol_process_incoming C v hello (p, d) = (Inl HandshakeError, (p', d)) \<and>
     pr_state p' = ESTABLISHED \<and> pr_peer_id p' = Some (pkt_sender_id m) \<and>
     (case dict_get (dev_sessions d) (pkt_sender_id m) of
        None \<Rightarrow> Protocol_send_data C v' plain (p', d) = (Inl SessionNotFoundError, (p', d))
      | Some s \<Rightarrow> ses_local_sequence s < 2 ^ 32 \<longrightarrow>
          (\<exists>q wire d'. Protocol_send_data C v' plain (p', d) = (Inr wire, (p', d')) \<and>
             Packet_from_bytes now wire = Inr q \<and> pkt_ptype q = DATA \<and> pkt_recipient_id q = pkt_sender_id m \<and>
             crypto_decrypt C (ses_session_key s) (pkt_nonce q) (pkt_payload q) [] = Inr plain))"
proof -
  let ?vic = "pkt_sender_id m"
  let ?p = "p\<lparr>pr_peer_id := Some ?vic, pr_peer_ed25519_pub := Some (take 32 (pkt_payload m)),
    pr_peer_x25519_pub := Some (py_slice 32 64 (pkt_payload m))\<rparr>"
  have d1: "d1 = d" using received_packet_authentic [OF assms(4)] assms(5) by simp
  have inc: "Protocol_process_incoming C v hello (p, d) = (Inl HandshakeError, (?p, d))"
    using assms(3-6) unfolding d1
    by (simp add: Protocol_process_incoming_def Protocol_dispatch_def Protocol_handle_hello_def Let_def)
  have p: "pr_state ?p = ESTABLISHED" "pr_peer_id ?p = Some ?vic" using assms(3) by simp_all
  have none: "Protocol_send_data C v' plain (?p, d) = (Inl SessionNotFoundError, (?p, d))"
    if "dict_get (dev_sessions d) ?vic = None"
    using assms(3) that
    by (simp add: Protocol_send_data_def Protocol_require_established_def Device_build_data_packet_def
        build_sealed_def Device_get_session_def)
  have v': "env_ok v'" using assms(7,8) by simp
  have some: "\<exists>q wire d'. Protocol_send_data C v' plain (?p, d) = (Inr wire, (?p, d')) \<and>
      Packet_from_bytes now wire = Inr q \<and> pkt_ptype q = DATA \<and> pkt_recipient_id q = ?vic \<and>
      crypto_decrypt C (ses_session_key s) (pkt_nonce q) (pkt_payload q) [] = Inr plain"
    if s: "dict_get (dev_sessions d) ?vic = Some s" and n: "ses_local_sequence s < 2 ^ 32" for s
  proof -
    obtain q wire d' where "Protocol_send_data C v' plain (?p, d) = (Inr wire, (?p, d'))"
      and q: "packet_wf q" "Packet_to_bytes q = Inr wire" and "pkt_ptype q = DATA" "pkt_recipient_id q = ?vic"
        "crypto_decrypt C (ses_session_key s) (pkt_nonce q) (pkt_payload q) [] = Inr plain"
      using send_data_session [OF assms(1,2) s p v' assms(9) n] by (elim exE conjE)
    with packet_codec.dec_enc [OF q] show ?thesis by blast
  qed
  show ?thesis
    using inc p none some by (intro exI [of _ ?p]) (simp split: option.split)
qed

theorem hello_redirects_established_witness:
  "(\<exists>hello p'. Protocol_process_incoming toy quiet hello (up id_b, dev_a) = (Inl HandshakeError, (p', dev_a)) \<and>
     Protocol_send_data toy quiet [1] (p', dev_a) = (Inl SessionNotFoundError, (p', dev_a))) \<and>
   (\<exists>hello p' wire d' q. Protocol_process_incoming toy quiet hello (up id_a, dev_a) = (Inl HandshakeError, (p', dev_a)) \<and>
     Protocol_send_data toy quiet [1] (p', dev_a) = (Inr wire, (p', d')) \<and>
     Packet_from_bytes 1000 wire = Inr q \<and> pkt_recipient_id q = id_b)"
proof
  note r = hello_redirects_established [OF toy_laws dev_a_wf _ _ _ _ _ _ _, where plain = "[1]" and v = quiet
      and v' = quiet and now = 1000]
  obtain h m where h: "\<And>n r e. Device_receive_packet toy n r h e = (Inr m, e)" "pkt_ptype m = HELLO"
    "64 \<le> length (pkt_payload m)" "pkt_sender_id m = id_a"
    using forged_hello [OF toy_laws, of id_a] by auto
  show "\<exists>hello p'. Protocol_process_incoming toy quiet hello (up id_b, dev_a) = (Inl HandshakeError, (p', dev_a)) \<and>
     Protocol_send_data toy quiet [1] (p', dev_a) = (Inl SessionNotFoundError, (p', dev_a))"
    using r [OF up_simps(1) h(1-3), of id_b] h(4) by (auto simp: dev_sessions_ab quiet_def)
  obtain h' m' where h': "\<And>n r e. Device_receive_packet toy n r h' e = (Inr m', e)" "pkt_ptype m' = HELLO"
    "64 \<le> length (pkt_payload m')" "pkt_sender_id m' = id_b"
    using forged_hello [OF toy_laws, of id_b] by auto
  show "\<exists>hello p' wire d' q. Protocol_process_incoming toy quiet hello (up id_a, dev_a) = (Inl HandshakeError, (p', dev_a)) \<and>
     Protocol_send_data toy quiet [1] (p', dev_a) = (Inr wire, (p', d')) \<and>
     Packet_from_bytes 1000 wire = Inr q \<and> pkt_recipient_id q = id_b"
    using r [OF up_simps(1) h'(1-3), of id_a] h'(4) by (fastforce simp: dev_sessions_ab quiet_def end_ab_def)
qed

text \<open>Any peer can close a protocol. A BYE packet from a device with which the local device shares a session
  closes a protocol that is ESTABLISHED with another peer, and removes the session with that other peer.\<close>

theorem bye_from_other_peer:
  assumes "crypto_laws C" and "device_wf C dx" and "share_session dx sx d s"
    and "pr_state p = ESTABLISHED" and "pr_peer_id p = Some peer" and "peer \<noteq> dev_device_id dx"
    and "0 < now \<and> now < 256 ^ 8" and "length nonce = 12" and "ses_local_sequence sx < 2 ^ 32"
    and "\<bar>env_replay v - now\<bar> \<le> 30000"
    and "ses_local_sequence sx \<notin> ses_peer_seq_window s" and "ses_peer_max_seq s - 64 < ses_local_sequence sx"
  shows "\<exists>bye dx' wire p' d'. Device_build_bye_packet C now nonce (dev_device_id d) dx = (Inr bye, dx') \<and>
     Packet_to_bytes bye = Inr wire \<and> Protocol_process_incoming C v wire (p, d) = (Inr None, (p', d')) \<and>
     pr_state p' = CLOSED \<and> dict_get (dev_sessions d') peer = None"
proof -
  have laws: "aead_laws C" "ed_laws C" using assms(1) by (simp_all add: crypto_laws_def)
  let ?s1 = "sx\<lparr>ses_local_sequence := ses_local_sequence sx + 1\<rparr>"
  let ?d1 = "put_session (dev_device_id d) ?s1 dx"
  have sx: "dict_get (dev_sessions dx) (dev_device_id d) = Some sx"
    and key: "ses_peer_ed25519_public s = ed_pub C (dev_identity_private dx)"
    using assms(2,3) by (simp_all add: share_session_def device_wf_def)
  have swf: "session_wf (dev_device_id d) sx" by (rule device_session_wf [OF assms(2) sx])
  have sig: "packet_auth (ed_laws C) (by_signature C ?d1 ?s1) (verify_packet C (ses_peer_ed25519_public s))"
    using signature_auth.packet_auth_axioms [of C "dev_identity_private dx"]
    by (simp add: by_signature_def [abs_def] key)
  have seq: "ses_local_sequence sx < 256 ^ 4" using assms(9) by simp
  have bye: "int (length (ascii ''BYE'')) < 2 ^ 31" by simp
  obtain c t q where q: "q = sealed_packet BYE 1 (dev_device_id dx) (dev_device_id d) (ses_local_sequence sx) nonce now c t"
    "build_sealed C (by_signature C) now nonce BYE 1 (dev_device_id d) (ascii ''BYE'') dx = (Inr q, ?d1)"
    "packet_wf q" "verify_packet C (ses_peer_ed25519_public s) q = Inr True"
    using build_sealed_ok [where auth = "by_signature C", OF sig laws(2,1) sx swf seq refl refl assms(8) bye
        device_id_length [OF assms(2)] assms(7), of 1 BYE] by auto
  obtain wire where w: "Packet_to_bytes q = Inr wire" using packet_codec.enc_total [OF q(3)] by blast
  obtain s' where s': "replay_checked (env_replay v) q s = (Inr (), s')"
    using check_replay_fresh [of "ses_local_sequence sx" s "env_replay v" now] assms(10-12) by (auto simp: q(1))
  have "Device_receive_packet C (env_parse v) (env_replay v) wire d = (Inr q, put_session (pkt_sender_id q) s' d)"
    by (rule receive_sealed [OF q(3) w _ _ _ s'])
       (use assms(3) q(4) in \<open>simp_all add: q(1) share_session_def session_authentic_def FLAG_MAC_AUTH_def\<close>)
  then have "Protocol_process_incoming C v wire (p, d) = (Inr None,
      (p\<lparr>pr_state := CLOSED\<rparr>, Device_remove_session peer (put_session (dev_device_id dx) s' d)))"
    using assms(4,5)
    by (simp add: Protocol_process_incoming_def Protocol_dispatch_def Protocol_handle_bye_def q(1))
  with w q(2) show ?thesis
    by (auto simp: Device_build_bye_packet_def FLAG_ENCRYPTED_def Device_remove_session_def dict_simps)
qed

theorem bye_from_other_peer_witness:
  "\<exists>bye dx' wire p' d'. Device_build_bye_packet toy 1000 (replicate 12 9) id_b dev_a = (Inr bye, dx') \<and>
     Packet_to_bytes bye = Inr wire \<and>
     Protocol_process_incoming toy quiet wire (up (replicate 32 0), dev_b) = (Inr None, (p', d')) \<and> pr_state p' = CLOSED"
proof -
  have "id_a ! 0 \<noteq> replicate 32 0 ! 0" by (simp add: id_a_def)
  then have "replicate 32 0 \<noteq> id_a" by metis
  then show ?thesis
    using bye_from_other_peer [OF toy_laws dev_a_wf dev_ab_share, of "up (replicate 32 0)" "replicate 32 0" 1000
        "replicate 12 9" quiet]
    by (auto simp: dev_ids quiet_def end_ab_def)
qed

end
