(* ===== verification/Reliability.thy ===== *)
theory Reliability
  imports Arq Protocol_Properties
begin

text \<open>
  \<^verbatim>\<open>ztlnp/reliability.py\<close>: the channel that keeps every packet until it is acknowledged
  and offers overdue ones for retransmission. The channel refers to a protocol object, so
  \<open>ReliableChannel_send\<close> works on the channel, the protocol and the device together.
\<close>

section \<open>PendingPacket\<close>

record pending_packet =
  pp_sequence :: int
  pp_packet_bytes :: bytes
  pp_sent_at :: real
  pp_retries :: int
  pp_next_timeout_ms :: real

definition PendingPacket_is_due :: "real \<Rightarrow> pending_packet \<Rightarrow> bool" where
  "PendingPacket_is_due now p \<longleftrightarrow> (now - pp_sent_at p) * 1000 \<ge> pp_next_timeout_ms p"

definition PendingPacket_record_retransmit :: "real \<Rightarrow> real \<Rightarrow> real \<Rightarrow> pending_packet \<Rightarrow> pending_packet" where
  "PendingPacket_record_retransmit base_timeout_ms max_timeout_ms now p =
     p\<lparr>pp_retries := pp_retries p + 1, pp_sent_at := now,
       pp_next_timeout_ms := min (pp_next_timeout_ms p * 2) max_timeout_ms\<rparr>"

section \<open>ReliableChannel\<close>

record reliable_channel =
  rc_base_timeout_ms :: real
  rc_max_timeout_ms :: real
  rc_max_retries :: int
  rc_use_mac :: bool
  rc_pending :: "(int, pending_packet) dict"

definition ReliableChannel_new :: "real \<Rightarrow> real \<Rightarrow> int \<Rightarrow> bool \<Rightarrow> reliable_channel" where
  "ReliableChannel_new base_timeout_ms max_timeout_ms max_retries use_mac =
     \<lparr>rc_base_timeout_ms = base_timeout_ms, rc_max_timeout_ms = max_timeout_ms,
      rc_max_retries = max_retries, rc_use_mac = use_mac, rc_pending = []\<rparr>"

text \<open>
  The wire bytes of a DATA packet for the protocol's peer, with a MAC (by the device, whatever the
  state of the protocol) or signed (by the protocol). Both channel classes build packets this way.
\<close>

definition channel_wire ::
  "'k crypto \<Rightarrow> 'k env \<Rightarrow> bool \<Rightarrow> bytes \<Rightarrow> (protocol \<times> 'k device, bytes) pymethod" where
  "channel_wire C v use_mac plaintext =
     (if use_mac
      then (\<lambda>(p, d). case pr_peer_id p of
              None \<Rightarrow> (Inl AttributeError, (p, d))
            | Some peer_id \<Rightarrow>
                bindS (on_device (Device_build_data_packet_mac C (env_stamp v) (env_nonce v) peer_id plaintext))
                  (\<lambda>packet. pure (\<lambda>p d. Packet_to_bytes packet)) (p, d))
      else Protocol_send_data C v plaintext)"

text \<open>\<^verbatim>\<open>struct.unpack_from("!I", wire, SEQUENCE_OFFSET)[0]\<close>\<close>

definition wire_seq :: "bytes \<Rightarrow> int" where
  "wire_seq wire = be_int (py_slice SEQUENCE_OFFSET (SEQUENCE_OFFSET + 4) wire)"

definition ReliableChannel_send ::
  "'k crypto \<Rightarrow> 'k env \<Rightarrow> real \<Rightarrow> bytes \<Rightarrow> (reliable_channel \<times> protocol \<times> 'k device, int \<times> bytes) pymethod" where
  "ReliableChannel_send C v now plaintext = (\<lambda>(c, s).
     case channel_wire C v (rc_use_mac c) plaintext s of
       (Inl e, s') \<Rightarrow> (Inl e, (c, s'))
     | (Inr wire, s') \<Rightarrow>
         (let seq = wire_seq wire;
              pending = \<lparr>pp_sequence = seq, pp_packet_bytes = wire, pp_sent_at = now, pp_retries = 0,
                         pp_next_timeout_ms = rc_base_timeout_ms c\<rparr>
          in (Inr (seq, wire), (c\<lparr>rc_pending := dict_set seq pending (rc_pending c)\<rparr>, s'))))"

definition ReliableChannel_process_ack :: "int \<Rightarrow> reliable_channel \<Rightarrow> bool \<times> reliable_channel" where
  "ReliableChannel_process_ack sequence c =
     (dict_get (rc_pending c) sequence \<noteq> None, c\<lparr>rc_pending := dict_del sequence (rc_pending c)\<rparr>)"

definition ReliableChannel_get_retransmissions ::
  "(int \<Rightarrow> real \<times> real) \<Rightarrow> reliable_channel \<Rightarrow> bytes list result \<times> reliable_channel" where
  "ReliableChannel_get_retransmissions clk c =
     (case poll PendingPacket_is_due pp_retries
             (PendingPacket_record_retransmit (rc_base_timeout_ms c) (rc_max_timeout_ms c)) pp_packet_bytes
             (rc_max_retries c) clk (rc_pending c) of
        (r, pending) \<Rightarrow> (r, c\<lparr>rc_pending := pending\<rparr>))"

definition ReliableChannel_pending_count :: "reliable_channel \<Rightarrow> nat" where
  "ReliableChannel_pending_count c = length (rc_pending c)"

definition ReliableChannel_pending_sequences :: "reliable_channel \<Rightarrow> int list" where
  "ReliableChannel_pending_sequences c = sort (dict_keys (rc_pending c))"

interpretation pending_queue:
  retransmittable PendingPacket_is_due pp_retries "PendingPacket_record_retransmit b m" pp_packet_bytes for b m
  by unfold_locales (simp_all add: PendingPacket_record_retransmit_def)

section \<open>Sending\<close>

lemma channel_wire_ok:
  assumes laws: "crypto_laws C" and wf: "device_wf C da" and share: "share_session da sa db sb"
    and p: "pr_peer_id p = Some (dev_device_id db)" "use_mac \<or> pr_state p = ESTABLISHED"
    and v: "env_ok v" and args: "int (length plain) < 2 ^ 31" "ses_local_sequence sa < 2 ^ 32"
  shows "\<exists>wire da'. channel_wire C v use_mac plain (p, da) = (Inr wire, (p, da')) \<and>
     wire_seq wire = ses_local_sequence sa"
proof -
  have seq: "ses_local_sequence sa < 256 ^ 4" using args(2) by simp
  obtain q c t da' where b: "(if use_mac then Device_build_data_packet_mac else Device_build_data_packet) C
      (env_stamp v) (env_nonce v) (dev_device_id db) plain da = (Inr q, da')"
    and q: "q = sealed_packet DATA (if use_mac then 5 else 1) (dev_device_id da) (dev_device_id db)
      (ses_local_sequence sa) (env_nonce v) (env_stamp v) c t"
    and w: "packet_wf q"
    using v by (auto intro: data_packet_built [OF laws wf share _ args(1) _ seq, of "env_nonce v" "env_stamp v" use_mac])
  obtain wire where wire: "Packet_to_bytes q = Inr wire" using packet_codec.enc_total [OF w] by blast
  have "wire_seq wire = ses_local_sequence sa"
    using wire_sequence [OF w wire] by (simp add: wire_seq_def q)
  moreover have "channel_wire C v use_mac plain (p, da) = (Inr wire, (p, da'))"
    using b wire p send_data_ok [of p "dev_device_id db" C v plain da q da' wire]
    by (cases use_mac) (simp_all add: channel_wire_def)
  ultimately show ?thesis by blast
qed

section \<open>A series of polls\<close>

text \<open>Polls at the given times: the channel afterwards, and what each poll returned.\<close>

fun poll_at :: "real list \<Rightarrow> reliable_channel \<Rightarrow> reliable_channel" where
  "poll_at [] c = c"
| "poll_at (t # ts) c = poll_at ts (snd (ReliableChannel_get_retransmissions (\<lambda>_. (t, t)) c))"

fun poll_results :: "real list \<Rightarrow> reliable_channel \<Rightarrow> bytes list result list" where
  "poll_results [] c = []"
| "poll_results (t # ts) c =
     (case ReliableChannel_get_retransmissions (\<lambda>_. (t, t)) c of (r, c') \<Rightarrow> r # poll_results ts c')"

text \<open>Successive times, starting after \<open>t0\<close>, at least \<open>gap\<close> milliseconds apart.\<close>

fun spaced :: "real \<Rightarrow> real \<Rightarrow> real list \<Rightarrow> bool" where
  "spaced gap t0 [] \<longleftrightarrow> True"
| "spaced gap t0 (t # ts) \<longleftrightarrow> (t - t0) * 1000 \<ge> gap \<and> spaced gap t ts"

definition backoff :: "real \<Rightarrow> real \<Rightarrow> nat \<Rightarrow> real" where
  "backoff base m n = (if n = 0 then base else min (base * 2 ^ n) m)"

lemma backoff_Suc: "0 \<le> m \<Longrightarrow> min (backoff base m n * 2) m = backoff base m (Suc n)"
  by (cases n) (auto simp: backoff_def min_def)

lemma backoff_le: "backoff base m n \<le> max base m"
  by (simp add: backoff_def min.coboundedI2 max.coboundedI2)

lemma spaced_prefix: "spaced g a (xs @ ys) \<Longrightarrow> spaced g a xs"
  by (induction xs arbitrary: a) simp_all

lemma spaced_last: "spaced g a (ts @ [t]) \<Longrightarrow> g \<le> (t - (if ts = [] then a else last ts)) * 1000"
proof (induction ts arbitrary: a)
  case (Cons x ts)
  then show ?case using Cons.IH [of x] by (cases "ts = []") simp_all
qed simp

lemma due_spaced:
  assumes "max b m \<le> (t - pp_sent_at p) * 1000" and "pp_next_timeout_ms p = backoff b m n"
  shows "PendingPacket_is_due t p"
  using order_trans [OF backoff_le assms(1), of n] by (simp add: PendingPacket_is_due_def assms(2))

lemma get_retransmissions_entry:
  assumes "dict_ok (rc_pending c)" and "dict_get (rc_pending c) seq = Some p"
  shows "dict_get (rc_pending (snd (ReliableChannel_get_retransmissions clk c))) seq =
     (if \<not> PendingPacket_is_due (fst (clk seq)) p then Some p
      else if rc_max_retries c \<le> pp_retries p then None
      else Some (PendingPacket_record_retransmit (rc_base_timeout_ms c) (rc_max_timeout_ms c) (snd (clk seq)) p))"
  using pending_queue.poll_entry [OF assms]
  by (simp add: ReliableChannel_get_retransmissions_def case_prod_beta)

abbreviation exhausted :: "(int \<Rightarrow> real \<times> real) \<Rightarrow> reliable_channel \<Rightarrow> int list" where
  "exhausted clk c \<equiv> map fst (filter (\<lambda>x. PendingPacket_is_due (fst (clk (fst x))) (snd x) \<and>
     rc_max_retries c \<le> pp_retries (snd x)) (rc_pending c))"

lemma get_retransmissions_fails:
  assumes "dict_get (rc_pending c) seq = Some p" and "PendingPacket_is_due (fst (clk seq)) p"
    and "rc_max_retries c \<le> pp_retries p"
  shows "fst (ReliableChannel_get_retransmissions clk c) = Inl (RetransmitError (exhausted clk c))"
    and "seq \<in> set (exhausted clk c)"
proof -
  show "seq \<in> set (exhausted clk c)" using map_of_SomeD [OF assms(1)] assms(2,3) by force
  then show "fst (ReliableChannel_get_retransmissions clk c) = Inl (RetransmitError (exhausted clk c))"
    using pending_queue.poll_result [of "rc_base_timeout_ms c" "rc_max_timeout_ms c" "rc_max_retries c"
        clk "rc_pending c"]
    by (cases "exhausted clk c = []") (simp_all add: ReliableChannel_get_retransmissions_def case_prod_beta Let_def)
qed

lemma get_retransmissions_frame [simp]:
  "rc_base_timeout_ms (snd (ReliableChannel_get_retransmissions clk c)) = rc_base_timeout_ms c"
  "rc_max_timeout_ms (snd (ReliableChannel_get_retransmissions clk c)) = rc_max_timeout_ms c"
  "rc_max_retries (snd (ReliableChannel_get_retransmissions clk c)) = rc_max_retries c"
  by (simp_all add: ReliableChannel_get_retransmissions_def case_prod_beta)

lemma get_retransmissions_ok:
  "dict_ok (rc_pending c) \<Longrightarrow> dict_ok (rc_pending (snd (ReliableChannel_get_retransmissions clk c)))"
  using pending_queue.poll_ok by (simp add: ReliableChannel_get_retransmissions_def case_prod_beta)

lemma poll_at_frame [simp]:
  "rc_base_timeout_ms (poll_at ts c) = rc_base_timeout_ms c"
  "rc_max_timeout_ms (poll_at ts c) = rc_max_timeout_ms c"
  "rc_max_retries (poll_at ts c) = rc_max_retries c"
  by (induction ts arbitrary: c) simp_all

lemma poll_at_ok: "dict_ok (rc_pending c) \<Longrightarrow> dict_ok (rc_pending (poll_at ts c))"
  by (induction ts arbitrary: c) (simp_all add: get_retransmissions_ok)

lemma poll_at_entry:
  assumes "dict_ok (rc_pending c)" and "dict_get (rc_pending c) seq = Some p"
    and "pp_retries p = int n" and "pp_next_timeout_ms p = backoff (rc_base_timeout_ms c) (rc_max_timeout_ms c) n"
    and "0 \<le> rc_max_timeout_ms c"
    and "spaced (max (rc_base_timeout_ms c) (rc_max_timeout_ms c)) (pp_sent_at p) ts"
    and "int (n + length ts) \<le> rc_max_retries c"
  shows "dict_get (rc_pending (poll_at ts c)) seq =
     Some (p\<lparr>pp_retries := int (n + length ts), pp_sent_at := (if ts = [] then pp_sent_at p else last ts),
             pp_next_timeout_ms := backoff (rc_base_timeout_ms c) (rc_max_timeout_ms c) (n + length ts)\<rparr>)"
  using assms
proof (induction ts arbitrary: c p n)
  case Nil
  then show ?case by (simp add: backoff_def)
next
  case (Cons t ts)
  let ?c = "snd (ReliableChannel_get_retransmissions (\<lambda>_. (t, t)) c)"
  let ?p = "PendingPacket_record_retransmit (rc_base_timeout_ms c) (rc_max_timeout_ms c) t p"
  have "PendingPacket_is_due t p"
    by (rule due_spaced [OF _ Cons.prems(4)]) (use Cons.prems(6) in simp)
  then have e: "dict_get (rc_pending ?c) seq = Some ?p"
    using get_retransmissions_entry [OF Cons.prems(1,2), of "\<lambda>_. (t, t)"] Cons.prems(3,7) by simp
  have p: "pp_retries ?p = int (Suc n)"
    "pp_next_timeout_ms ?p = backoff (rc_base_timeout_ms ?c) (rc_max_timeout_ms ?c) (Suc n)"
    "spaced (max (rc_base_timeout_ms ?c) (rc_max_timeout_ms ?c)) (pp_sent_at ?p) ts"
    using Cons.prems(3-6) backoff_Suc [OF Cons.prems(5), of "rc_base_timeout_ms c" n]
    by (simp_all add: PendingPacket_record_retransmit_def)
  show ?case
    using Cons.IH [OF get_retransmissions_ok [OF Cons.prems(1)] e p(1,2) _ p(3)] Cons.prems(5,7)
    by (simp add: PendingPacket_record_retransmit_def)
qed

lemma poll_results_nth:
  "n < length ts \<Longrightarrow> poll_results ts c ! n =
     fst (ReliableChannel_get_retransmissions (\<lambda>_. (ts ! n, ts ! n)) (poll_at (take n ts) c))"
proof (induction ts arbitrary: c n)
  case (Cons t ts)
  then show ?case by (cases n) (simp_all add: case_prod_beta)
qed simp

lemma length_poll_results [simp]: "length (poll_results ts c) = length ts"
  by (induction ts arbitrary: c) (simp_all add: case_prod_beta)

text \<open>What a poll returns: an error that names the exhausted packets, or the bytes of every overdue one.\<close>

lemma get_retransmissions_result:
  "fst (ReliableChannel_get_retransmissions clk c) =
     (if exhausted clk c \<noteq> [] then Inl (RetransmitError (exhausted clk c))
      else Inr (map (pp_packet_bytes \<circ> snd)
             (filter (\<lambda>x. PendingPacket_is_due (fst (clk (fst x))) (snd x)) (rc_pending c))))"
  using pending_queue.poll_result [of "rc_base_timeout_ms c" "rc_max_timeout_ms c" "rc_max_retries c" clk "rc_pending c"]
  by (simp add: ReliableChannel_get_retransmissions_def case_prod_beta Let_def)

lemma get_retransmissions_absent:
  "dict_get (rc_pending c) seq = None \<Longrightarrow>
   dict_get (rc_pending (snd (ReliableChannel_get_retransmissions clk c))) seq = None"
  using pending_queue.poll_absent by (simp add: ReliableChannel_get_retransmissions_def case_prod_beta)

text \<open>A poll adds at most one to the retransmissions of a packet.\<close>

lemma poll_at_retries:
  assumes "dict_ok (rc_pending c)" and "\<forall>s q. dict_get (rc_pending c) s = Some q \<longrightarrow> pp_retries q \<le> int k"
    and "dict_get (rc_pending (poll_at ts c)) s = Some q"
  shows "pp_retries q \<le> int (k + length ts)"
  using assms
proof (induction ts arbitrary: c k)
  case (Cons t ts)
  let ?c = "snd (ReliableChannel_get_retransmissions (\<lambda>_. (t, t)) c)"
  have "pp_retries q \<le> int (Suc k)" if e: "dict_get (rc_pending ?c) s = Some q" for s q
  proof -
    obtain p where p: "dict_get (rc_pending c) s = Some p"
      using e get_retransmissions_absent [of c s "\<lambda>_. (t, t)"] by (cases "dict_get (rc_pending c) s") auto
    then have "pp_retries p \<le> int k" using Cons.prems(2) by blast
    then show ?thesis
      using e get_retransmissions_entry [OF Cons.prems(1) p, of "\<lambda>_. (t, t)"]
      by (auto simp: PendingPacket_record_retransmit_def split: if_splits)
  qed
  then have all: "\<forall>s q. dict_get (rc_pending ?c) s = Some q \<longrightarrow> pp_retries q \<le> int (Suc k)" by blast
  have "dict_get (rc_pending (poll_at ts ?c)) s = Some q" using Cons.prems(3) by simp
  from Cons.IH [OF get_retransmissions_ok [OF Cons.prems(1)] all this] show ?case by simp
qed simp

text \<open>The packet's bytes are in what the poll returns, unless another packet makes the poll raise.\<close>

lemma poll_returns_bytes:
  assumes ok: "dict_ok (rc_pending c)" and get: "dict_get (rc_pending c) seq = Some q"
    and due: "PendingPacket_is_due (fst (clk seq)) q" and left: "pp_retries q < rc_max_retries c"
  shows "(\<exists>ws. fst (ReliableChannel_get_retransmissions clk c) = Inr ws \<and> pp_packet_bytes q \<in> set ws) \<or>
    (\<exists>failed. fst (ReliableChannel_get_retransmissions clk c) = Inl (RetransmitError failed) \<and>
       failed \<noteq> [] \<and> seq \<notin> set failed \<and>
       (\<forall>s \<in> set failed. \<exists>r. dict_get (rc_pending c) s = Some r \<and> rc_max_retries c \<le> pp_retries r))"
proof (cases "exhausted clk c = []")
  case True
  have "(seq, q) \<in> set (filter (\<lambda>x. PendingPacket_is_due (fst (clk (fst x))) (snd x)) (rc_pending c))"
    using map_of_SomeD [OF get] due by simp
  then have "pp_packet_bytes q \<in> set (map (pp_packet_bytes \<circ> snd)
      (filter (\<lambda>x. PendingPacket_is_due (fst (clk (fst x))) (snd x)) (rc_pending c)))" by force
  then show ?thesis using True by (simp add: get_retransmissions_result)
next
  case False
  have ex: "\<exists>r. dict_get (rc_pending c) s = Some r \<and> rc_max_retries c \<le> pp_retries r"
    if "s \<in> set (exhausted clk c)" for s
    using that map_of_is_SomeI [OF ok] by auto
  then have "seq \<notin> set (exhausted clk c)" using get left by fastforce
  moreover have "fst (ReliableChannel_get_retransmissions clk c) = Inl (RetransmitError (exhausted clk c))"
    using False by (simp add: get_retransmissions_result)
  ultimately show ?thesis using False ex by blast
qed

text \<open>The entry of a packet that is never acknowledged, before the poll with number \<open>n\<close>: it is due.\<close>

lemma schedule_entry:
  assumes "dict_ok (rc_pending c)" and "dict_get (rc_pending c) seq = Some p" and "pp_retries p = 0"
    and "pp_next_timeout_ms p = rc_base_timeout_ms c" and "0 \<le> rc_max_timeout_ms c"
    and "spaced (max (rc_base_timeout_ms c) (rc_max_timeout_ms c)) (pp_sent_at p) (ts @ [t])"
    and "int (length ts) \<le> rc_max_retries c" and "n \<le> length ts"
  obtains q where "dict_get (rc_pending (poll_at (take n ts) c)) seq = Some q" and "pp_retries q = int n"
    and "pp_packet_bytes q = pp_packet_bytes p"
    and "pp_next_timeout_ms q = backoff (rc_base_timeout_ms c) (rc_max_timeout_ms c) n"
    and "PendingPacket_is_due ((ts @ [t]) ! n) q"
proof -
  let ?gap = "max (rc_base_timeout_ms c) (rc_max_timeout_ms c)"
  let ?q = "p\<lparr>pp_retries := int n, pp_sent_at := (if take n ts = [] then pp_sent_at p else last (take n ts)),
             pp_next_timeout_ms := backoff (rc_base_timeout_ms c) (rc_max_timeout_ms c) n\<rparr>"
  have "take (Suc n) (ts @ [t]) = take n ts @ [(ts @ [t]) ! n]"
    using assms(8) by (subst take_Suc_conv_app_nth) simp_all
  moreover have "spaced ?gap (pp_sent_at p) (take (Suc n) (ts @ [t]))"
    by (rule spaced_prefix [where ys = "drop (Suc n) (ts @ [t])"]) (simp only: append_take_drop_id assms(6))
  ultimately have sp: "spaced ?gap (pp_sent_at p) (take n ts @ [(ts @ [t]) ! n])" by (simp only:)
  have zero: "pp_retries p = int 0" "pp_next_timeout_ms p = backoff (rc_base_timeout_ms c) (rc_max_timeout_ms c) 0"
    using assms(3,4) by (simp_all add: backoff_def)
  have "dict_get (rc_pending (poll_at (take n ts) c)) seq = Some ?q"
    using poll_at_entry [OF assms(1,2) zero assms(5) spaced_prefix [OF sp]] assms(7,8) by simp
  moreover have "PendingPacket_is_due ((ts @ [t]) ! n) ?q"
    by (rule due_spaced [of "rc_base_timeout_ms c" "rc_max_timeout_ms c" _ _ n])
       (use spaced_last [OF sp] in simp_all)
  ultimately show ?thesis using that [of ?q] by simp
qed

lemma dict_one:
  assumes "dict_ok d" and "set (dict_keys d) \<subseteq> {k}" and "dict_get d k = Some q"
  shows "d = [(k, q)]"
  using assms by (cases d; cases "tl d") auto

lemma poll_at_absent: "dict_get (rc_pending c) s = None \<Longrightarrow> dict_get (rc_pending (poll_at ts c)) s = None"
  by (induction ts arbitrary: c) (simp_all add: get_retransmissions_absent)

text \<open>A poll of a channel with one packet.\<close>

lemma poll_one_due:
  assumes "rc_pending c = [(n, p)]" and "pp_next_timeout_ms p \<le> (t1 - pp_sent_at p) * 1000"
  shows "ReliableChannel_get_retransmissions (\<lambda>_. (t1, t2)) c =
    (if rc_max_retries c \<le> pp_retries p then (Inl (RetransmitError [n]), c\<lparr>rc_pending := []\<rparr>)
     else (Inr [pp_packet_bytes p], c\<lparr>rc_pending :=
       [(n, PendingPacket_record_retransmit (rc_base_timeout_ms c) (rc_max_timeout_ms c) t2 p)]\<rparr>))"
  using assms by (simp add: ReliableChannel_get_retransmissions_def poll_def PendingPacket_is_due_def Let_def
      drop_failed_def)

text \<open>What the polls of the schedule return: in general, and when the packet is the only one.\<close>

lemma schedule_bytes:
  assumes "dict_ok (rc_pending c)" and "dict_get (rc_pending c) seq = Some p" and "pp_retries p = 0"
    and "pp_next_timeout_ms p = rc_base_timeout_ms c" and "0 \<le> rc_max_timeout_ms c"
    and "spaced (max (rc_base_timeout_ms c) (rc_max_timeout_ms c)) (pp_sent_at p) (ts @ [t])"
    and "int (length ts) = rc_max_retries c"
    and n: "n < length ts"
  shows "(\<exists>ws. poll_results ts c ! n = Inr ws \<and> pp_packet_bytes p \<in> set ws) \<or>
    (\<exists>failed. poll_results ts c ! n = Inl (RetransmitError failed) \<and> failed \<noteq> [] \<and> seq \<notin> set failed \<and>
       (\<forall>s \<in> set failed. \<exists>q. dict_get (rc_pending (poll_at (take n ts) c)) s = Some q \<and>
          rc_max_retries c \<le> pp_retries q))"
proof -
  obtain q where q: "dict_get (rc_pending (poll_at (take n ts) c)) seq = Some q" "pp_retries q = int n"
    "pp_packet_bytes q = pp_packet_bytes p" "PendingPacket_is_due ((ts @ [t]) ! n) q"
    by (rule schedule_entry [OF assms(1-6) eq_refl [OF assms(7)] less_imp_le [OF n]])
  then show ?thesis
    using poll_returns_bytes [OF poll_at_ok [OF assms(1)] q(1), of "\<lambda>_. (ts ! n, ts ! n)"] n assms(7)
    by (simp add: poll_results_nth nth_append)
qed

lemma schedule_single:
  assumes "dict_ok (rc_pending c)" and "dict_get (rc_pending c) seq = Some p" and "pp_retries p = 0"
    and "pp_next_timeout_ms p = rc_base_timeout_ms c" and "0 \<le> rc_max_timeout_ms c"
    and "spaced (max (rc_base_timeout_ms c) (rc_max_timeout_ms c)) (pp_sent_at p) (ts @ [t])"
    and "int (length ts) = rc_max_retries c"
    and one: "rc_pending c = [(seq, p)]"
  shows "poll_results ts c = replicate (length ts) (Inr [pp_packet_bytes p])"
proof (rule nth_equalityI)
  fix n assume "n < length (poll_results ts c)"
  then have n: "n < length ts" by simp
  obtain q where q: "dict_get (rc_pending (poll_at (take n ts) c)) seq = Some q" "pp_retries q = int n"
    "pp_packet_bytes q = pp_packet_bytes p" "PendingPacket_is_due ((ts @ [t]) ! n) q"
    by (rule schedule_entry [OF assms(1-6) eq_refl [OF assms(7)] less_imp_le [OF n]])
  have "s = seq" if "s \<in> set (dict_keys (rc_pending (poll_at (take n ts) c)))" for s
  proof (rule ccontr)
    assume "s \<noteq> seq"
    then have "dict_get (rc_pending (poll_at (take n ts) c)) s = None" using one by (intro poll_at_absent) simp
    then show False using that by (simp add: dict_get_None)
  qed
  then have "set (dict_keys (rc_pending (poll_at (take n ts) c))) \<subseteq> {seq}" by blast
  then have "rc_pending (poll_at (take n ts) c) = [(seq, q)]"
    by (rule dict_one [OF poll_at_ok [OF assms(1)] _ q(1)])
  then show "poll_results ts c ! n = replicate (length ts) (Inr [pp_packet_bytes p]) ! n"
    using q(2-4) n assms(7) by (simp add: poll_results_nth get_retransmissions_result nth_append)
qed simp

section \<open>Properties\<close>

text \<open>A channel with two packets under way, of which the first has used up its retries.\<close>

definition busy_channel :: reliable_channel where
  "busy_channel = (ReliableChannel_new 500 16000 2 False)\<lparr>rc_pending :=
     [(1, \<lparr>pp_sequence = 1, pp_packet_bytes = [1], pp_sent_at = 0, pp_retries = 2, pp_next_timeout_ms = 2000\<rparr>),
      (2, \<lparr>pp_sequence = 2, pp_packet_bytes = [2], pp_sent_at = 0, pp_retries = 0, pp_next_timeout_ms = 500\<rparr>)]\<rparr>"

text \<open>C31: the retransmission schedule. When a channel is polled at intervals of at least its longest timeout, a
  packet that stays unacknowledged is due at every poll: its timeout after \<open>n\<close> retransmissions is the
  initial one doubled \<open>n\<close> times, up to the maximum, and its bytes stay the same. Each of the first
  \<open>max_retries\<close> polls returns the packet's bytes among the bytes to send, unless it raises a
  \<open>RetransmitError\<close>, and then for other packets, which have used up their own retries. It never
  raises when no packet of the channel was retransmitted before the first poll, and when the packet is the
  only one, each poll returns exactly its bytes. The poll after them reports the packet in a
  \<open>RetransmitError\<close> and gives it up.\<close>

theorem retransmission_schedule:
  assumes "dict_ok (rc_pending c)" and "dict_get (rc_pending c) seq = Some p" and "pp_retries p = 0"
    and "pp_next_timeout_ms p = rc_base_timeout_ms c" and "0 \<le> rc_max_timeout_ms c" and "0 \<le> rc_max_retries c"
    and "spaced (max (rc_base_timeout_ms c) (rc_max_timeout_ms c)) (pp_sent_at p) (ts @ [t])"
    and "int (length ts) = rc_max_retries c"
  shows "(\<forall>n \<le> length ts. \<exists>q. dict_get (rc_pending (poll_at (take n ts) c)) seq = Some q \<and> pp_retries q = int n \<and>
            pp_packet_bytes q = pp_packet_bytes p \<and>
            pp_next_timeout_ms q = (if n = 0 then rc_base_timeout_ms c
                                    else min (rc_base_timeout_ms c * 2 ^ n) (rc_max_timeout_ms c))) \<and>
         (\<forall>n < length ts.
            (\<exists>ws. poll_results ts c ! n = Inr ws \<and> pp_packet_bytes p \<in> set ws) \<or>
            (\<exists>failed. poll_results ts c ! n = Inl (RetransmitError failed) \<and> failed \<noteq> [] \<and> seq \<notin> set failed \<and>
               (\<forall>s \<in> set failed. \<exists>q. dict_get (rc_pending (poll_at (take n ts) c)) s = Some q \<and>
                  rc_max_retries c \<le> pp_retries q))) \<and>
         ((\<forall>s q. dict_get (rc_pending c) s = Some q \<longrightarrow> pp_retries q = 0) \<longrightarrow>
            (\<forall>n < length ts. \<exists>ws. poll_results ts c ! n = Inr ws \<and> pp_packet_bytes p \<in> set ws)) \<and>
         (rc_pending c = [(seq, p)] \<longrightarrow> poll_results ts c = replicate (length ts) (Inr [pp_packet_bytes p])) \<and>
         (\<exists>failed c'. ReliableChannel_get_retransmissions (\<lambda>_. (t, t)) (poll_at ts c)
              = (Inl (RetransmitError failed), c') \<and>
            seq \<in> set failed \<and> dict_get (rc_pending c') seq = None)"
proof (intro conjI allI impI)
  note entry = schedule_entry [OF assms(1-5,7) eq_refl [OF assms(8)]]
  note bytes = schedule_bytes [OF assms(1-5,7,8)]
  show "\<exists>q. dict_get (rc_pending (poll_at (take n ts) c)) seq = Some q \<and> pp_retries q = int n \<and>
      pp_packet_bytes q = pp_packet_bytes p \<and>
      pp_next_timeout_ms q = (if n = 0 then rc_base_timeout_ms c
                              else min (rc_base_timeout_ms c * 2 ^ n) (rc_max_timeout_ms c))"
    if "n \<le> length ts" for n
    using that by (elim entry) (simp add: backoff_def)
  show "(\<exists>ws. poll_results ts c ! n = Inr ws \<and> pp_packet_bytes p \<in> set ws) \<or>
      (\<exists>failed. poll_results ts c ! n = Inl (RetransmitError failed) \<and> failed \<noteq> [] \<and> seq \<notin> set failed \<and>
         (\<forall>s \<in> set failed. \<exists>q. dict_get (rc_pending (poll_at (take n ts) c)) s = Some q \<and>
            rc_max_retries c \<le> pp_retries q))" if "n < length ts" for n
    using that by (rule bytes)
  show "\<exists>ws. poll_results ts c ! n = Inr ws \<and> pp_packet_bytes p \<in> set ws"
    if fresh: "\<forall>s q. dict_get (rc_pending c) s = Some q \<longrightarrow> pp_retries q = 0" and n: "n < length ts" for n
  proof -
    have "pp_retries q \<le> int n" if "dict_get (rc_pending (poll_at (take n ts) c)) s = Some q" for s q
      using poll_at_retries [OF assms(1) _ that, of 0] fresh n by simp
    then show ?thesis using bytes [OF n] n assms(8) by (fastforce simp: neq_Nil_conv)
  qed
  show "poll_results ts c = replicate (length ts) (Inr [pp_packet_bytes p])" if "rc_pending c = [(seq, p)]"
    using schedule_single [OF assms(1-5,7,8) that] .
  obtain q where q: "dict_get (rc_pending (poll_at ts c)) seq = Some q" "pp_retries q = int (length ts)"
    "PendingPacket_is_due t q"
    using entry [OF order_refl] by (metis nth_append_length take_all_iff order_refl)
  let ?r = "ReliableChannel_get_retransmissions (\<lambda>_. (t, t)) (poll_at ts c)"
  have "\<exists>failed. fst ?r = Inl (RetransmitError failed) \<and> seq \<in> set failed"
    using get_retransmissions_fails [OF q(1), of "\<lambda>_. (t, t)"] q assms(8) by simp
  moreover have "dict_get (rc_pending (snd ?r)) seq = None"
    using get_retransmissions_entry [OF poll_at_ok [OF assms(1)] q(1), of "\<lambda>_. (t, t)"] q assms(8) by simp
  ultimately show "\<exists>failed c'. ?r = (Inl (RetransmitError failed), c') \<and> seq \<in> set failed \<and>
      dict_get (rc_pending c') seq = None"
    by (metis prod.collapse)
qed

text \<open>A failing packet costs the others a retransmission. When a poll finds a packet that has used up its
  retries, it raises, and every other overdue packet has been counted and timed as retransmitted although
  its bytes were not returned to the caller.\<close>

theorem retransmit_error_skips_others:
  assumes "dict_ok (rc_pending c)"
    and "dict_get (rc_pending c) s1 = Some p1" and "PendingPacket_is_due (fst (clk s1)) p1"
    and "rc_max_retries c \<le> pp_retries p1"
    and "dict_get (rc_pending c) s2 = Some p2" and "PendingPacket_is_due (fst (clk s2)) p2"
    and "pp_retries p2 < rc_max_retries c"
  shows "\<exists>failed c' q. ReliableChannel_get_retransmissions clk c = (Inl (RetransmitError failed), c') \<and>
     s1 \<in> set failed \<and> s2 \<notin> set failed \<and> dict_get (rc_pending c') s1 = None \<and>
     dict_get (rc_pending c') s2 = Some q \<and> pp_retries q = pp_retries p2 + 1 \<and> pp_sent_at q = snd (clk s2)"
proof -
  note f = get_retransmissions_fails [where clk = clk, OF assms(2-4)]
  have "q = p2" if "(s2, q) \<in> set (rc_pending c)" for q
    using map_of_is_SomeI [OF assms(1) that] assms(5) by simp
  then have "s2 \<notin> set (exhausted clk c)" using assms(7) by auto
  then show ?thesis
    using f get_retransmissions_entry [OF assms(1,2), of clk] get_retransmissions_entry [OF assms(1,5), of clk] assms(3-7)
    by (cases "ReliableChannel_get_retransmissions clk c") (auto simp: PendingPacket_record_retransmit_def)
qed

theorem retransmit_error_skips_others_witness:
  "\<exists>failed c' q. ReliableChannel_get_retransmissions (\<lambda>_. (10, 10)) busy_channel = (Inl (RetransmitError failed), c') \<and>
     dict_get (rc_pending c') 2 = Some q \<and> pp_retries q = 1"
  using retransmit_error_skips_others [of busy_channel 1 _ "\<lambda>_. (10, 10)" 2]
  by (fastforce simp: busy_channel_def ReliableChannel_new_def PendingPacket_is_due_def)

text \<open>Sending registers the packet, an acknowledgement retires it once. On a session, sending returns the
  session's next sequence number as it stands in the packet's bytes and keeps those bytes under it; the
  first acknowledgement of the number removes the entry, a second one finds nothing. With MACs this works
  in every state of the protocol, not only in ESTABLISHED.\<close>

theorem reliable_send_ack:
  assumes "crypto_laws C" and "device_wf C da" and "share_session da sa db sb"
    and "pr_peer_id p = Some (dev_device_id db)" and "rc_use_mac c \<or> pr_state p = ESTABLISHED"
    and "0 < env_stamp v \<and> env_stamp v < 256 ^ 8" and "length (env_nonce v) = 12"
    and "int (length plain) < 2 ^ 31" and "ses_local_sequence sa < 2 ^ 32"
  shows "\<exists>wire c' s' c''. ReliableChannel_send C v now plain (c, (p, da)) =
       (Inr (ses_local_sequence sa, wire), (c', s')) \<and>
     dict_get (rc_pending c') (ses_local_sequence sa) =
       Some \<lparr>pp_sequence = ses_local_sequence sa, pp_packet_bytes = wire, pp_sent_at = now, pp_retries = 0,
             pp_next_timeout_ms = rc_base_timeout_ms c\<rparr> \<and>
     ReliableChannel_process_ack (ses_local_sequence sa) c' = (True, c'') \<and>
     fst (ReliableChannel_process_ack (ses_local_sequence sa) c'') = False"
  using channel_wire_ok [OF assms(1-5) _ assms(8,9), of v] assms(6,7)
  by (auto simp: ReliableChannel_send_def ReliableChannel_process_ack_def Let_def dict_simps)

theorem reliable_send_ack_witness:
  "\<exists>wire c' s' c''. ReliableChannel_send toy quiet 7 [1, 2] (ReliableChannel_new 500 16000 5 True, (up id_b, dev_a)) =
       (Inr (0, wire), (c', s')) \<and> ReliableChannel_process_ack 0 c' = (True, c'') \<and>
     fst (ReliableChannel_process_ack 0 c'') = False"
  using reliable_send_ack [OF toy_laws dev_a_wf dev_ab_share, of "up id_b" "ReliableChannel_new 500 16000 5 True" quiet "[1, 2]" 7]
  by (simp add: dev_ids quiet_def end_ab_def) blast

theorem retransmission_schedule_witness:
  "let c = busy_channel\<lparr>rc_pending := [(2, \<lparr>pp_sequence = 2, pp_packet_bytes = [2], pp_sent_at = 0,
          pp_retries = 0, pp_next_timeout_ms = 500\<rparr>)]\<rparr>
   in poll_results [20, 40] c = [Inr [[2]], Inr [[2]]] \<and>
      (\<exists>failed c'. ReliableChannel_get_retransmissions (\<lambda>_. (60, 60)) (poll_at [20, 40] c) =
         (Inl (RetransmitError failed), c') \<and> 2 \<in> set failed)"
proof -
  let ?p = "\<lparr>pp_sequence = 2, pp_packet_bytes = [2], pp_sent_at = 0, pp_retries = 0, pp_next_timeout_ms = 500\<rparr>"
  let ?c = "busy_channel\<lparr>rc_pending := [(2, ?p)]\<rparr>"
  note s = retransmission_schedule [of ?c 2 ?p "[20, 40]" 60]
  have h: "dict_ok (rc_pending ?c)" "dict_get (rc_pending ?c) 2 = Some ?p" "0 \<le> rc_max_timeout_ms ?c"
    "pp_next_timeout_ms ?p = rc_base_timeout_ms ?c" "0 \<le> rc_max_retries ?c"
    "spaced (max (rc_base_timeout_ms ?c) (rc_max_timeout_ms ?c)) (pp_sent_at ?p) ([20, 40] @ [60])"
    "int (length [20, 40 :: real]) = rc_max_retries ?c"
    by (simp_all add: busy_channel_def ReliableChannel_new_def)
  have "poll_results [20, 40] ?c = [Inr [[2]], Inr [[2]]]" using s h by (simp add: numeral_2_eq_2)
  moreover have "\<exists>failed c'. ReliableChannel_get_retransmissions (\<lambda>_. (60, 60)) (poll_at [20, 40] ?c) =
      (Inl (RetransmitError failed), c') \<and> 2 \<in> set failed"
    using s h by auto
  ultimately show ?thesis by (simp add: Let_def)
qed

end
