(* ===== verification/Sliding_Window.thy ===== *)
theory Sliding_Window
  imports Reliability
begin

text \<open>
  \<^verbatim>\<open>ztlnp/sliding_window.py\<close>: selective acknowledgements, the send window and the
  receive buffer. \<open>SlidingWindow_accept\<close> is the part of \<^verbatim>\<open>receive\<close> that follows
  decryption; the loop that drains the buffer terminates because every turn removes an entry.
\<close>

section \<open>SackFrame\<close>

definition SACK_CUMULATIVE :: int where "SACK_CUMULATIVE = 0x01"
definition SACK_SELECTIVE :: int where "SACK_SELECTIVE = 0x02"
definition SACK_HEADER_SIZE :: nat where "SACK_HEADER_SIZE = 7"
definition SACK_BLOCK_SIZE :: nat where "SACK_BLOCK_SIZE = 8"

record sack_frame =
  sf_cum_ack :: int
  sf_blocks :: "(int \<times> int) list"

fun pack_blocks :: "(int \<times> int) list \<Rightarrow> bytes result" where
  "pack_blocks [] = Inr []"
| "pack_blocks ((left, right) # blocks) =
     bindE (pack_uint 4 left) (\<lambda>l. bindE (pack_uint 4 right) (\<lambda>r.
     bindE (pack_blocks blocks) (\<lambda>rest. Inr (l @ r @ rest))))"

definition SackFrame_encode :: "sack_frame \<Rightarrow> bytes result" where
  "SackFrame_encode f =
     (let sack_type = (if sf_blocks f \<noteq> [] then SACK_SELECTIVE else SACK_CUMULATIVE) in
      bindE (pack_uint 1 sack_type) (\<lambda>t.
      bindE (pack_uint 4 (sf_cum_ack f)) (\<lambda>c.
      bindE (pack_uint 2 (int (length (sf_blocks f)))) (\<lambda>n.
      bindE (pack_blocks (sf_blocks f)) (\<lambda>body. Inr (t @ c @ n @ body))))))"

definition unpack_block :: "bytes \<Rightarrow> nat \<Rightarrow> int \<times> int" where
  "unpack_block data offset =
     (be_int (py_slice offset (offset + 4) data), be_int (py_slice (offset + 4) (offset + 8) data))"

definition SackFrame_decode :: "bytes \<Rightarrow> sack_frame result" where
  "SackFrame_decode data =
     (if length data < SACK_HEADER_SIZE then Inl ValueError
      else
        let cum_ack = be_int (py_slice 1 5 data);
            n_blocks = nat (be_int (py_slice 5 7 data))
        in if length data < SACK_HEADER_SIZE + n_blocks * SACK_BLOCK_SIZE then Inl ValueError
           else Inr \<lparr>sf_cum_ack = cum_ack,
                     sf_blocks = map (\<lambda>i. unpack_block data (SACK_HEADER_SIZE + i * SACK_BLOCK_SIZE)) [0..<n_blocks]\<rparr>)"

definition SackFrame_all_acked :: "sack_frame \<Rightarrow> int set" where
  "SackFrame_all_acked f =
     fold (\<lambda>(left, right) acked. acked \<union> set [left..right]) (sf_blocks f) (set [0..sf_cum_ack f])"

section \<open>WindowedPacket\<close>

record windowed_packet =
  wp_sequence :: int
  wp_packet_bytes :: bytes
  wp_sent_at :: real
  wp_retries :: int
  wp_next_timeout_ms :: real

definition WindowedPacket_is_due :: "real \<Rightarrow> windowed_packet \<Rightarrow> bool" where
  "WindowedPacket_is_due now p \<longleftrightarrow> (now - wp_sent_at p) * 1000 \<ge> wp_next_timeout_ms p"

definition WindowedPacket_record_retransmit :: "real \<Rightarrow> real \<Rightarrow> real \<Rightarrow> windowed_packet \<Rightarrow> windowed_packet" where
  "WindowedPacket_record_retransmit base_ms max_ms now p =
     p\<lparr>wp_retries := wp_retries p + 1, wp_sent_at := now,
       wp_next_timeout_ms := min (wp_next_timeout_ms p * 2) max_ms\<rparr>"

section \<open>SlidingWindowChannel\<close>

record sw_channel =
  sw_window_size :: int
  sw_base_ms :: real
  sw_max_ms :: real
  sw_max_retries :: int
  sw_use_mac :: bool
  sw_send_window :: "(int, windowed_packet) dict"
  sw_send_base :: int
  sw_recv_next :: int
  sw_recv_buffer :: "(int, bytes) dict"

definition SlidingWindow_new :: "int \<Rightarrow> real \<Rightarrow> real \<Rightarrow> int \<Rightarrow> bool \<Rightarrow> sw_channel" where
  "SlidingWindow_new window_size base_timeout_ms max_timeout_ms max_retries use_mac =
     \<lparr>sw_window_size = window_size, sw_base_ms = base_timeout_ms, sw_max_ms = max_timeout_ms,
      sw_max_retries = max_retries, sw_use_mac = use_mac, sw_send_window = [], sw_send_base = 0,
      sw_recv_next = -1, sw_recv_buffer = []\<rparr>"

definition SlidingWindow_can_send :: "sw_channel \<Rightarrow> bool" where
  "SlidingWindow_can_send c \<longleftrightarrow> int (length (sw_send_window c)) < sw_window_size c"

definition SlidingWindow_send ::
  "'k crypto \<Rightarrow> 'k env \<Rightarrow> real \<Rightarrow> bytes \<Rightarrow> (sw_channel \<times> protocol \<times> 'k device, (int \<times> bytes) option) pymethod" where
  "SlidingWindow_send C v now plaintext = (\<lambda>(c, s).
     if \<not> SlidingWindow_can_send c then (Inr None, (c, s))
     else case channel_wire C v (sw_use_mac c) plaintext s of
       (Inl e, s') \<Rightarrow> (Inl e, (c, s'))
     | (Inr wire, s') \<Rightarrow>
         (let seq = wire_seq wire;
              wp = \<lparr>wp_sequence = seq, wp_packet_bytes = wire, wp_sent_at = now, wp_retries = 0,
                    wp_next_timeout_ms = sw_base_ms c\<rparr>;
              c1 = c\<lparr>sw_send_window := dict_set seq wp (sw_send_window c)\<rparr>;
              c2 = (if sw_send_window c1 = [] \<or> length (sw_send_window c1) = 1
                    then c1\<lparr>sw_send_base := seq\<rparr> else c1)
          in (Inr (Some (seq, wire)), (c2, s'))))"

text \<open>The loop over the keys: delete the acknowledged ones and count them.\<close>

definition SlidingWindow_process_sack :: "sack_frame \<Rightarrow> sw_channel \<Rightarrow> int \<times> sw_channel" where
  "SlidingWindow_process_sack sack c =
     (let acked = SackFrame_all_acked sack;
          (removed, window) = fold (\<lambda>seq (removed, window).
              if seq \<in> acked then (removed + 1, dict_del seq window) else (removed, window))
            (dict_keys (sw_send_window c)) (0, sw_send_window c);
          c1 = c\<lparr>sw_send_window := window\<rparr>;
          c2 = (if window \<noteq> [] then c1\<lparr>sw_send_base := Min (set (dict_keys window))\<rparr> else c1)
      in (removed, c2))"

definition SlidingWindow_get_retransmissions ::
  "(int \<Rightarrow> real \<times> real) \<Rightarrow> sw_channel \<Rightarrow> bytes list result \<times> sw_channel" where
  "SlidingWindow_get_retransmissions clk c =
     (case poll WindowedPacket_is_due wp_retries
             (WindowedPacket_record_retransmit (sw_base_ms c) (sw_max_ms c)) wp_packet_bytes
             (sw_max_retries c) clk (sw_send_window c) of
        (r, window) \<Rightarrow> (r, c\<lparr>sw_send_window := window\<rparr>))"

text \<open>\<^verbatim>\<open>while self._recv_next + 1 in self._recv_buffer\<close>\<close>

function drain :: "int \<Rightarrow> (int, bytes) dict \<Rightarrow> bytes \<Rightarrow> int \<times> (int, bytes) dict \<times> bytes" where
  "drain recv_next buffer plaintext =
     (case dict_get buffer (recv_next + 1) of
        None \<Rightarrow> (recv_next, buffer, plaintext)
      | Some b \<Rightarrow> drain (recv_next + 1) (dict_del (recv_next + 1) buffer) (plaintext @ b))"
  by pat_completeness auto
termination
proof (relation "measure (\<lambda>(n, d, p). length d)", goal_cases)
  case 1
  then show ?case by simp
next
  case (2 recv_next buffer plaintext b)
  then have "dict_get buffer (recv_next + 1) \<noteq> None" by simp
  then have "length (dict_del (recv_next + 1) buffer) < length buffer"
    unfolding AList.delete_eq dict_get_None by (auto intro: length_filter_less)
  then show ?case by simp
qed

declare drain.simps [simp del]

definition SlidingWindow_accept :: "int \<Rightarrow> bytes \<Rightarrow> sw_channel \<Rightarrow> bytes option \<times> sw_channel" where
  "SlidingWindow_accept seq plaintext c =
     (let c1 = (if sw_recv_next c = -1 then c\<lparr>sw_recv_next := seq - 1\<rparr> else c)
      in if seq = sw_recv_next c1 + 1
         then (case drain seq (sw_recv_buffer c1) plaintext of
                 (n, buffer, out) \<Rightarrow> (Some out, c1\<lparr>sw_recv_next := n, sw_recv_buffer := buffer\<rparr>))
         else if seq > sw_recv_next c1 + 1
         then (None, c1\<lparr>sw_recv_buffer := dict_set seq plaintext (sw_recv_buffer c1)\<rparr>)
         else (None, c1))"

text \<open>The blocks of consecutive numbers in a sorted list.\<close>

fun sack_blocks :: "int \<Rightarrow> int \<Rightarrow> int list \<Rightarrow> (int \<times> int) list" where
  "sack_blocks left right [] = [(left, right)]"
| "sack_blocks left right (s # ss) =
     (if s = right + 1 then sack_blocks left s ss else (left, right) # sack_blocks s s ss)"

definition SlidingWindow_build_sack :: "sw_channel \<Rightarrow> sack_frame" where
  "SlidingWindow_build_sack c =
     \<lparr>sf_cum_ack = max (sw_recv_next c) 0,
      sf_blocks = (case sort (dict_keys (sw_recv_buffer c)) of [] \<Rightarrow> [] | s # ss \<Rightarrow> sack_blocks s s ss)\<rparr>"

definition SlidingWindow_receive ::
  "'k crypto \<Rightarrow> 'k env \<Rightarrow> bytes \<Rightarrow> (sw_channel \<times> protocol \<times> 'k device, bytes option \<times> sack_frame) pymethod" where
  "SlidingWindow_receive C v raw = (\<lambda>(c, p, d).
     case Device_receive_packet C (env_parse v) (env_replay v) raw d of
       (Inl e, d1) \<Rightarrow> (Inl e, (c, p, d1))
     | (Inr packet, d1) \<Rightarrow>
         (case Device_decrypt_packet C d1 packet of
            Inl e \<Rightarrow> (Inl e, (c, p, d1))
          | Inr plaintext \<Rightarrow>
              (case SlidingWindow_accept (pkt_sequence packet) plaintext c of
                 (out, c1) \<Rightarrow> (Inr (out, SlidingWindow_build_sack c1), (c1, p, d1)))))"

definition SlidingWindow_build_sack_ack ::
  "'k crypto \<Rightarrow> 'k env \<Rightarrow> sack_frame \<Rightarrow> (protocol \<times> 'k device, bytes) pymethod" where
  "SlidingWindow_build_sack_ack C v sack = (\<lambda>(p, d).
     case pr_peer_id p of
       None \<Rightarrow> (Inl AttributeError, (p, d))
     | Some peer_id \<Rightarrow>
        (case Device_get_session d peer_id of
           Inl e \<Rightarrow> (Inl e, (p, d))
         | Inr _ \<Rightarrow>
            (case SackFrame_encode sack of
               Inl e \<Rightarrow> (Inl e, (p, d))
             | Inr payload \<Rightarrow>
                bindS (on_device (build_sealed C (by_signature C) (env_stamp v) (env_nonce v) ACK FLAG_ENCRYPTED
                          peer_id payload))
                  (\<lambda>packet. pure (\<lambda>p d. Packet_to_bytes packet)) (p, d))))"

definition SlidingWindow_in_flight :: "sw_channel \<Rightarrow> nat" where
  "SlidingWindow_in_flight c = length (sw_send_window c)"

definition SlidingWindow_send_base :: "sw_channel \<Rightarrow> int" where
  "SlidingWindow_send_base c = sw_send_base c"

definition SlidingWindow_recv_next :: "sw_channel \<Rightarrow> int" where
  "SlidingWindow_recv_next c = sw_recv_next c"

definition SlidingWindow_window_size :: "sw_channel \<Rightarrow> int" where
  "SlidingWindow_window_size c = sw_window_size c"

interpretation windowed_queue:
  retransmittable WindowedPacket_is_due wp_retries "WindowedPacket_record_retransmit b m" wp_packet_bytes for b m
  by unfold_locales (simp_all add: WindowedPacket_record_retransmit_def)

end
