(* ===== verification/Sliding_Window_Properties.thy ===== *)
theory Sliding_Window_Properties
  imports Sliding_Window
begin

text \<open>
  The properties of the sliding-window channel: the wire format of the selective acknowledgements,
  the send window and what an acknowledgement removes from it, the receive buffer as an in-order
  stream, and the exchange of data and acknowledgements between two devices.
\<close>

section \<open>The wire format of a SACK frame\<close>

definition u32 :: "int \<Rightarrow> bool" where
  "u32 v \<longleftrightarrow> 0 \<le> v \<and> v < 256 ^ 4"

definition sack_wf :: "sack_frame \<Rightarrow> bool" where
  "sack_wf f \<longleftrightarrow> u32 (sf_cum_ack f) \<and> int (length (sf_blocks f)) < 256 ^ 2 \<and>
     (\<forall>b \<in> set (sf_blocks f). u32 (fst b) \<and> u32 (snd b))"

definition block_bytes :: "int \<times> int \<Rightarrow> bytes" where
  "block_bytes b = be_bytes 4 (fst b) @ be_bytes 4 (snd b)"

definition sack_header :: "sack_frame \<Rightarrow> bytes" where
  "sack_header f = be_bytes 1 (if sf_blocks f \<noteq> [] then SACK_SELECTIVE else SACK_CUMULATIVE) @
     be_bytes 4 (sf_cum_ack f) @ be_bytes 2 (int (length (sf_blocks f)))"

lemma u32_be_int: "u32 v \<Longrightarrow> be_int (be_bytes 4 v) = v"
  by (simp add: u32_def be_int_be_bytes del: be_bytes.simps be_int.simps)

lemma pack_blocks_ok:
  "\<forall>b \<in> set bs. u32 (fst b) \<and> u32 (snd b) \<Longrightarrow> pack_blocks bs = Inr (concat (map block_bytes bs))"
  by (induction bs rule: pack_blocks.induct)
     (simp_all add: u32_def pack_uint_ok block_bytes_def del: be_bytes.simps)

lemma length_blocks: "length (concat (map block_bytes bs)) = 8 * length bs"
  by (induction bs) (simp_all add: block_bytes_def del: be_bytes.simps)

lemma encode_layout:
  "sack_wf f \<Longrightarrow> SackFrame_encode f = Inr (sack_header f @ concat (map block_bytes (sf_blocks f)))"
  by (simp add: SackFrame_encode_def sack_wf_def pack_blocks_ok pack_uint_ok u32_def sack_header_def
      SACK_SELECTIVE_def SACK_CUMULATIVE_def Let_def del: be_bytes.simps)

text \<open>The block at index \<open>i\<close> of the body.\<close>

lemma block_at:
  assumes "i < length bs" and "\<forall>b \<in> set bs. u32 (fst b) \<and> u32 (snd b)" and "length h = 7"
  shows "unpack_block (h @ concat (map block_bytes bs) @ rest) (7 + i * 8) = bs ! i"
proof -
  let ?b = "bs ! i"
  have split: "bs = take i bs @ ?b # drop (Suc i) bs" using assms(1) by (rule id_take_nth_drop)
  have "concat (map block_bytes bs) = concat (map block_bytes (take i bs)) @ block_bytes ?b
      @ concat (map block_bytes (drop (Suc i) bs))"
    by (subst split) simp
  moreover have "length (concat (map block_bytes (take i bs))) = i * 8"
    using length_blocks [of "take i bs"] assms(1) by simp
  moreover have "u32 (fst ?b) \<and> u32 (snd ?b)" using assms(1,2) by simp
  ultimately show ?thesis
    using assms(3)
    by (simp add: unpack_block_def block_bytes_def py_slice_def u32_be_int del: be_bytes.simps be_int.simps)
qed

lemma header_fields:
  assumes "sack_wf f"
  shows "length (sack_header f) = 7" and "be_int (py_slice 1 5 (sack_header f @ r)) = sf_cum_ack f"
    and "be_int (py_slice 5 7 (sack_header f @ r)) = int (length (sf_blocks f))"
  using assms
  by (simp_all add: sack_header_def py_slice_def sack_wf_def u32_be_int be_int_be_bytes
      del: be_bytes.simps be_int.simps One_nat_def)

lemma decode_layout:
  assumes wf: "sack_wf f"
  shows "SackFrame_decode (sack_header f @ concat (map block_bytes (sf_blocks f)) @ rest) = Inr f"
proof -
  let ?d = "sack_header f @ concat (map block_bytes (sf_blocks f)) @ rest"
  have "map (\<lambda>i. unpack_block ?d (7 + i * 8)) [0..<length (sf_blocks f)] = sf_blocks f"
    using block_at [of _ "sf_blocks f" "sack_header f" rest] wf header_fields(1) [OF wf]
    by (intro nth_equalityI) (simp_all add: sack_wf_def)
  moreover have "length ?d = 7 + length (sf_blocks f) * 8 + length rest"
    using length_blocks [of "sf_blocks f"] header_fields(1) [OF wf] by simp
  ultimately show ?thesis
    using header_fields(2,3) [OF wf] by (simp add: SackFrame_decode_def SACK_HEADER_SIZE_def SACK_BLOCK_SIZE_def)
qed

interpretation sack_codec: framed_codec sack_wf SackFrame_encode SackFrame_decode
proof unfold_locales
  show "sack_wf f \<Longrightarrow> \<exists>bs. SackFrame_encode f = Inr bs" for f
    by (simp add: encode_layout)
  show "sack_wf f \<Longrightarrow> SackFrame_encode f = Inr bs \<Longrightarrow> SackFrame_decode (bs @ rest) = Inr f" for f bs rest
    using decode_layout [of f rest] by (auto simp: encode_layout)
qed

section \<open>Building a SACK frame\<close>

text \<open>The numbers of an interval, as the frame lists them.\<close>

abbreviation block_set :: "int \<times> int \<Rightarrow> int set" where
  "block_set b \<equiv> {fst b..snd b}"

lemma all_acked_blocks: "SackFrame_all_acked f = {0..sf_cum_ack f} \<union> (\<Union>b \<in> set (sf_blocks f). block_set b)"
proof -
  have "fold (\<lambda>(left, right) acked. acked \<union> set [left..right]) bs A = A \<union> (\<Union>b \<in> set bs. block_set b)" for bs A
    by (induction bs arbitrary: A) (auto simp: case_prod_beta)
  then show ?thesis by (simp add: SackFrame_all_acked_def)
qed

text \<open>Proper blocks in ascending order, with a gap between any two.\<close>

definition separated :: "(int \<times> int) list \<Rightarrow> bool" where
  "separated bs \<longleftrightarrow> (\<forall>b \<in> set bs. fst b \<le> snd b) \<and> sorted_wrt (\<lambda>a b. snd a + 1 < fst b) bs"

lemma sack_blocks_cover:
  "left \<le> right \<Longrightarrow> sorted_wrt (<) (right # ss) \<Longrightarrow>
   (\<Union>b \<in> set (sack_blocks left right ss). block_set b) = {left..right} \<union> set ss"
proof (induction left right ss rule: sack_blocks.induct)
  case (2 left right s ss)
  then show ?case by (cases "s = right + 1") auto
qed simp

lemma sack_blocks_first: "b \<in> set (sack_blocks left right ss) \<Longrightarrow> fst b = left \<or> fst b \<in> set ss"
  by (induction left right ss rule: sack_blocks.induct) (auto split: if_splits)

lemma sack_blocks_separated:
  "left \<le> right \<Longrightarrow> sorted_wrt (<) (right # ss) \<Longrightarrow> separated (sack_blocks left right ss)"
proof (induction left right ss rule: sack_blocks.induct)
  case (2 left right s ss)
  show ?case
  proof (cases "s = right + 1")
    case True
    then show ?thesis using 2 by simp
  next
    case False
    then have "separated (sack_blocks s s ss)" using 2 by simp
    moreover have "right + 1 < fst b" if "b \<in> set (sack_blocks s s ss)" for b
      using sack_blocks_first [OF that] 2(4) False by force
    ultimately show ?thesis using False 2(3) by (simp add: separated_def)
  qed
qed (simp add: separated_def)

lemma sorted_keys: "dict_ok d \<Longrightarrow> sorted_wrt (<) (sort (dict_keys d))"
  by (simp add: strict_sorted_iff)

lemma build_sack_blocks:
  assumes "dict_ok (sw_recv_buffer c)"
  shows "(\<Union>b \<in> set (sf_blocks (SlidingWindow_build_sack c)). block_set b) = set (dict_keys (sw_recv_buffer c))"
    and "separated (sf_blocks (SlidingWindow_build_sack c))"
proof -
  let ?ks = "sort (dict_keys (sw_recv_buffer c))"
  have s: "sorted_wrt (<) ?ks" by (rule sorted_keys [OF assms])
  have k: "set ?ks = set (dict_keys (sw_recv_buffer c))" by simp
  have "(\<Union>b \<in> set (sf_blocks (SlidingWindow_build_sack c)). block_set b) = set ?ks \<and>
      separated (sf_blocks (SlidingWindow_build_sack c))"
  proof (cases ?ks)
    case Nil
    then show ?thesis by (simp add: SlidingWindow_build_sack_def separated_def)
  next
    case (Cons a ss)
    then have "sorted_wrt (<) (a # ss)" using s by simp
    then show ?thesis
      using sack_blocks_cover [of a a ss] sack_blocks_separated [of a a ss] Cons
      by (simp add: SlidingWindow_build_sack_def)
  qed
  then show "(\<Union>b \<in> set (sf_blocks (SlidingWindow_build_sack c)). block_set b) = set (dict_keys (sw_recv_buffer c))"
    and "separated (sf_blocks (SlidingWindow_build_sack c))"
    using k by simp_all
qed

section \<open>Processing a SACK frame\<close>

lemma dict_del_filter: "dict_del k d = filter (\<lambda>x. fst x \<noteq> k) d"
  unfolding AList.delete_eq by (rule filter_cong) auto

lemma remove_acked:
  "fold (\<lambda>seq (removed, window). if seq \<in> A then (removed + 1, dict_del seq window) else (removed, window)) ks (n, w)
     = (n + int (length (filter (\<lambda>k. k \<in> A) ks)), filter (\<lambda>x. fst x \<notin> A \<or> fst x \<notin> set ks) w)"
proof (induction ks arbitrary: n w)
  case (Cons k ks)
  have "filter (\<lambda>x. fst x \<notin> A \<or> fst x \<notin> set ks) (dict_del k w)
      = filter (\<lambda>x. fst x \<notin> A \<or> fst x \<notin> set (k # ks)) w" if "k \<in> A"
    using that unfolding dict_del_filter filter_filter by (intro filter_cong) auto
  moreover have "filter (\<lambda>x. fst x \<notin> A \<or> fst x \<notin> set ks) w = filter (\<lambda>x. fst x \<notin> A \<or> fst x \<notin> set (k # ks)) w"
    if "k \<notin> A"
    using that by (intro filter_cong) auto
  ultimately show ?case using Cons by simp
qed simp

lemma process_sack_window:
  "sw_send_window (snd (SlidingWindow_process_sack f c)) =
     filter (\<lambda>x. fst x \<notin> SackFrame_all_acked f) (sw_send_window c)"
  "fst (SlidingWindow_process_sack f c) =
     int (length (filter (\<lambda>x. fst x \<in> SackFrame_all_acked f) (sw_send_window c)))"
proof -
  let ?A = "SackFrame_all_acked f"
  have "filter (\<lambda>x. fst x \<notin> ?A \<or> fst x \<notin> set (dict_keys (sw_send_window c))) (sw_send_window c)
      = filter (\<lambda>x. fst x \<notin> ?A) (sw_send_window c)"
    by (intro filter_cong) auto
  moreover have "length (filter (\<lambda>k. k \<in> ?A) (dict_keys (sw_send_window c)))
      = length (filter (\<lambda>x. fst x \<in> ?A) (sw_send_window c))"
    by (simp add: filter_map comp_def)
  ultimately show "sw_send_window (snd (SlidingWindow_process_sack f c)) = filter (\<lambda>x. fst x \<notin> ?A) (sw_send_window c)"
    and "fst (SlidingWindow_process_sack f c) = int (length (filter (\<lambda>x. fst x \<in> ?A) (sw_send_window c)))"
    by (simp_all add: SlidingWindow_process_sack_def remove_acked Let_def)
qed

lemma process_sack_base:
  "sw_send_base (snd (SlidingWindow_process_sack f c)) =
     (let w = sw_send_window (snd (SlidingWindow_process_sack f c))
      in if w = [] then sw_send_base c else Min (set (dict_keys w)))"
  by (simp add: SlidingWindow_process_sack_def remove_acked Let_def)

section \<open>The receive buffer\<close>

text \<open>The data of the numbers \<open>s0\<close> to \<open>n\<close>.\<close>

definition stream :: "int \<Rightarrow> int \<Rightarrow> (int \<Rightarrow> bytes option) \<Rightarrow> bytes" where
  "stream s0 n m = concat (map (\<lambda>k. the (m k)) [s0..n])"

lemma stream_cong: "(\<And>k. s0 \<le> k \<Longrightarrow> k \<le> n \<Longrightarrow> m k = m' k) \<Longrightarrow> stream s0 n m = stream s0 n m'"
  unfolding stream_def by (rule arg_cong [of _ _ concat], rule map_cong) simp_all

lemma stream_first: "s0 \<le> n \<Longrightarrow> stream s0 n m = the (m s0) @ stream (s0 + 1) n m"
  by (simp add: stream_def upto_rec1)

lemma stream_split: "s0 \<le> i + 1 \<Longrightarrow> i \<le> n \<Longrightarrow> stream s0 n m = stream s0 i m @ stream (i + 1) n m"
proof -
  assume "s0 \<le> i + 1" and "i \<le> n"
  moreover have "i + 1 = s0" if "\<not> s0 \<le> i" using that \<open>s0 \<le> i + 1\<close> by simp
  ultimately have "[s0..n] = [s0..i] @ [i + 1..n]"
    by (cases "s0 \<le> i") (use upto_split2 [of s0 i n] in auto)
  then show ?thesis by (simp add: stream_def)
qed

lemma drain_stream:
  "\<exists>n' buffer'. drain n buffer p = (n', buffer', p @ stream (n + 1) n' (dict_get buffer)) \<and> n \<le> n' \<and>
     (\<forall>k. n < k \<and> k \<le> n' \<longrightarrow> dict_get buffer k \<noteq> None) \<and> dict_get buffer (n' + 1) = None \<and>
     (\<forall>k. dict_get buffer' k = (if n < k \<and> k \<le> n' then None else dict_get buffer k)) \<and>
     (dict_ok buffer \<longrightarrow> dict_ok buffer')"
proof (induction n buffer p rule: drain.induct)
  case (1 n buffer p)
  show ?case
  proof (cases "dict_get buffer (n + 1)")
    case None
    then show ?thesis by (intro exI [of _ n] exI [of _ buffer]) (auto simp: drain.simps stream_def)
  next
    case (Some b)
    let ?rest = "dict_del (n + 1) buffer"
    obtain n' buffer' where ih: "drain (n + 1) ?rest (p @ b) = (n', buffer', (p @ b) @ stream (n + 2) n' (dict_get ?rest))"
      "n + 1 \<le> n'" "\<forall>k. n + 1 < k \<and> k \<le> n' \<longrightarrow> dict_get ?rest k \<noteq> None" "dict_get ?rest (n' + 1) = None"
      "\<forall>k. dict_get buffer' k = (if n + 1 < k \<and> k \<le> n' then None else dict_get ?rest k)"
      "dict_ok ?rest \<longrightarrow> dict_ok buffer'"
      using 1 [OF Some] by (auto simp: add.assoc)
    have s: "stream (n + 1) n' (dict_get buffer) = b @ stream (n + 2) n' (dict_get ?rest)"
      using stream_first [of "n + 1" n' "dict_get buffer"] ih(2) Some
        stream_cong [of "n + 2" n' "dict_get buffer" "dict_get ?rest"]
      by (simp add: dict_simps add.assoc)
    have d: "drain n buffer p = drain (n + 1) ?rest (p @ b)"
      by (subst drain.simps) (simp add: Some)
    have k: "dict_get buffer k \<noteq> None" if "n < k" "k \<le> n'" for k
      using that ih(3) Some by (cases "k = n + 1") (auto simp: dict_simps)
    have g: "dict_get buffer' k = (if n < k \<and> k \<le> n' then None else dict_get buffer k)" for k
      using ih(2,5) by (auto simp: dict_simps)
    have e: "dict_get buffer (n' + 1) = None" using ih(2,4) by (simp add: dict_simps)
    show ?thesis
      unfolding d ih(1) using s k g e ih(2,6) by (intro exI [of _ n'] exI [of _ buffer'] conjI) auto
  qed
qed

text \<open>
  \<open>m\<close> are the packets that have arrived, the first of them with number \<open>s0\<close>: everything from \<open>s0\<close> up to
  \<open>recv_next\<close> has arrived, the next number has not, and the buffer holds what arrived beyond it.
\<close>

definition recv_inv :: "int \<Rightarrow> (int \<Rightarrow> bytes option) \<Rightarrow> sw_channel \<Rightarrow> bool" where
  "recv_inv s0 m c \<longleftrightarrow> 0 \<le> s0 \<and> s0 \<le> sw_recv_next c \<and> (\<forall>k. s0 \<le> k \<and> k \<le> sw_recv_next c \<longrightarrow> m k \<noteq> None) \<and>
     m (sw_recv_next c + 1) = None \<and> dict_ok (sw_recv_buffer c) \<and>
     (\<forall>k. dict_get (sw_recv_buffer c) k = (if k > sw_recv_next c then m k else None))"

text \<open>What a call hands to the application.\<close>

definition delivered :: "bytes option \<Rightarrow> bytes" where
  "delivered out = (case out of None \<Rightarrow> [] | Some b \<Rightarrow> b)"

lemma accept_first:
  assumes "sw_recv_next c = -1" and "sw_recv_buffer c = []" and "0 \<le> q"
  shows "SlidingWindow_accept q b c = (Some b, c\<lparr>sw_recv_next := q\<rparr>)"
    and "recv_inv q [q \<mapsto> b] (c\<lparr>sw_recv_next := q\<rparr>)"
  using assms by (auto simp: SlidingWindow_accept_def Let_def drain.simps recv_inv_def)

lemma accept_next:
  assumes inv: "recv_inv s0 m c" and q: "q = sw_recv_next c + 1"
  shows "\<exists>n' c'. SlidingWindow_accept q b c = (Some (b @ stream (q + 1) n' m), c') \<and> sw_recv_next c' = n' \<and> q \<le> n' \<and>
           recv_inv s0 (m(q \<mapsto> b)) c'"
proof -
  have n: "sw_recv_next c \<noteq> -1" "0 \<le> s0" "s0 < q" using inv q by (auto simp: recv_inv_def)
  obtain n' buffer' where d: "drain q (sw_recv_buffer c) b = (n', buffer', b @ stream (q + 1) n' (dict_get (sw_recv_buffer c)))"
    "q \<le> n'" "\<forall>k. q < k \<and> k \<le> n' \<longrightarrow> dict_get (sw_recv_buffer c) k \<noteq> None" "dict_get (sw_recv_buffer c) (n' + 1) = None"
    "\<forall>k. dict_get buffer' k = (if q < k \<and> k \<le> n' then None else dict_get (sw_recv_buffer c) k)" "dict_ok buffer'"
    using drain_stream [of q "sw_recv_buffer c" b] inv by (auto simp: recv_inv_def)
  have buf: "dict_get (sw_recv_buffer c) k = (if k \<ge> q then m k else None)" for k
    using inv q by (auto simp: recv_inv_def)
  have "stream (q + 1) n' (dict_get (sw_recv_buffer c)) = stream (q + 1) n' m"
    by (rule stream_cong) (simp add: buf)
  moreover have "m q = None" using inv q by (simp add: recv_inv_def)
  moreover have "(m(q \<mapsto> b)) k \<noteq> None" if "s0 \<le> k" "k \<le> n'" for k
    using that inv q d(3) buf [of k] by (cases k q rule: linorder_cases) (auto simp: recv_inv_def)
  ultimately show ?thesis
    using d n q buf by (auto simp: SlidingWindow_accept_def recv_inv_def)
qed

lemma accept_later:
  assumes inv: "recv_inv s0 m c" and "q > sw_recv_next c + 1"
  shows "SlidingWindow_accept q b c = (None, c\<lparr>sw_recv_buffer := dict_set q b (sw_recv_buffer c)\<rparr>)"
    and "recv_inv s0 (m(q \<mapsto> b)) (c\<lparr>sw_recv_buffer := dict_set q b (sw_recv_buffer c)\<rparr>)"
  using assms by (auto simp: SlidingWindow_accept_def recv_inv_def dict_simps)

lemma accept_earlier:
  assumes inv: "recv_inv s0 m c" and "q \<le> sw_recv_next c"
  shows "SlidingWindow_accept q b c = (None, c)"
    and "q < s0 \<Longrightarrow> recv_inv s0 (m(q \<mapsto> b)) c"
  using assms by (auto simp: SlidingWindow_accept_def recv_inv_def)

text \<open>The three cases together, for a number that is new.\<close>

lemma accept_step:
  assumes "recv_inv s0 m c" and "m q = None"
  obtains out c' where "SlidingWindow_accept q b c = (out, c')" and "recv_inv s0 (m(q \<mapsto> b)) c'"
    and "stream s0 (sw_recv_next c') (m(q \<mapsto> b)) = stream s0 (sw_recv_next c) m @ delivered out"
proof -
  have same: "stream s0 (sw_recv_next c) (m(q \<mapsto> b)) = stream s0 (sw_recv_next c) m"
    if "q > sw_recv_next c \<or> q < s0"
    using that by (intro stream_cong) auto
  consider "q = sw_recv_next c + 1" | "q > sw_recv_next c + 1" | "q \<le> sw_recv_next c" by linarith
  then show thesis
  proof cases
    case 1
    let ?m = "m(q \<mapsto> b)"
    obtain n' c' where n: "SlidingWindow_accept q b c = (Some (b @ stream (q + 1) n' m), c')" "sw_recv_next c' = n'"
      "q \<le> n'" "recv_inv s0 ?m c'"
      using accept_next [OF assms(1) 1] by blast
    have "s0 \<le> q" using assms(1) 1 by (simp add: recv_inv_def)
    then have "stream s0 n' ?m = stream s0 (sw_recv_next c) ?m @ stream q n' ?m"
      using stream_split [of s0 "sw_recv_next c" n' ?m] n(3) 1 by simp
    also have "stream q n' ?m = b @ stream (q + 1) n' ?m"
      using stream_first [OF n(3), of ?m] by simp
    also have "stream (q + 1) n' ?m = stream (q + 1) n' m" by (rule stream_cong) simp
    finally have "stream s0 n' ?m = stream s0 (sw_recv_next c) m @ b @ stream (q + 1) n' m"
      using same 1 by (simp del: fun_upd_apply)
    then show thesis using that [OF n(1,4)] n(2) by (simp add: delivered_def del: fun_upd_apply)
  next
    case 2
    then show thesis
      using that [OF accept_later [OF assms(1) 2]] same by (simp add: delivered_def)
  next
    case 3
    then have "q < s0" using assms unfolding recv_inv_def by (meson linorder_not_less)
    then show thesis
      using that [OF accept_earlier(1) [OF assms(1) 3] accept_earlier(2) [OF assms(1) 3]] same
      by (simp add: delivered_def)
  qed
qed

text \<open>A series of authenticated packets, and all that the channel hands to the application.\<close>

fun accept_all :: "(int \<times> bytes) list \<Rightarrow> sw_channel \<Rightarrow> bytes \<times> sw_channel" where
  "accept_all [] c = ([], c)"
| "accept_all ((q, b) # ps) c =
     (case SlidingWindow_accept q b c of (out, c') \<Rightarrow>
        case accept_all ps c' of (rest, c'') \<Rightarrow> (delivered out @ rest, c''))"

lemma accept_all_inv:
  assumes "recv_inv s0 m c" and "distinct (map fst ps)" and "\<forall>q \<in> fst ` set ps. m q = None"
  shows "\<exists>out c'. accept_all ps c = (out, c') \<and> recv_inv s0 (m ++ map_of (rev ps)) c' \<and>
     stream s0 (sw_recv_next c') (m ++ map_of (rev ps)) = stream s0 (sw_recv_next c) m @ out"
  using assms
proof (induction ps arbitrary: m c)
  case (Cons x ps)
  obtain q b where x: "x = (q, b)" by fastforce
  have q: "m q = None" using Cons.prems(3) x by simp
  obtain out1 c1 where s: "SlidingWindow_accept q b c = (out1, c1)" "recv_inv s0 (m(q \<mapsto> b)) c1"
    "stream s0 (sw_recv_next c1) (m(q \<mapsto> b)) = stream s0 (sw_recv_next c) m @ delivered out1"
    by (rule accept_step [OF Cons.prems(1) q])
  have "\<forall>k \<in> fst ` set ps. (m(q \<mapsto> b)) k = None" using Cons.prems(2,3) x by auto
  then obtain out c' where ih: "accept_all ps c1 = (out, c')" "recv_inv s0 (m(q \<mapsto> b) ++ map_of (rev ps)) c'"
    "stream s0 (sw_recv_next c') (m(q \<mapsto> b) ++ map_of (rev ps)) = stream s0 (sw_recv_next c1) (m(q \<mapsto> b)) @ out"
    using Cons.IH [OF s(2)] Cons.prems(2) by (simp only: list.map distinct.simps) blast
  have "m(q \<mapsto> b) ++ map_of (rev ps) = m ++ map_of (rev (x # ps))"
    by (simp add: x map_add_assoc [symmetric])
  then show ?case using ih s(1,3) x by simp
qed simp

lemma map_of_reversed: "dict_ok ps \<Longrightarrow> map_of (rev ps) = map_of ps"
  by (simp add: map_of_inject_set rev_map [symmetric])

lemma arrivals_map:
  assumes "dict_ok ((q, b) # ps)"
  shows "[q \<mapsto> b] ++ map_of (rev ps) = map_of ((q, b) # ps)"
  using assms map_of_reversed [of ps] by (simp add: map_add_upd_left dom_map_of_conv_image_fst del: fun_upd_apply)

lemma new_channel_first:
  assumes "0 \<le> q"
  shows "\<exists>c. SlidingWindow_accept q b (SlidingWindow_new w bt mt r u) = (Some b, c) \<and> recv_inv q [q \<mapsto> b] c \<and>
     sw_recv_next c = q \<and> sw_recv_buffer c = []"
  using assms accept_first [of "SlidingWindow_new w bt mt r u" q b] by (simp add: SlidingWindow_new_def)

lemma accept_mono:
  assumes "0 \<le> sw_recv_next c"
  shows "sw_recv_next c \<le> sw_recv_next (snd (SlidingWindow_accept q b c))"
proof -
  obtain n' buffer' out where "drain q (sw_recv_buffer c) b = (n', buffer', out)" and "q \<le> n'"
    using drain_stream [of q "sw_recv_buffer c" b] by blast
  then show ?thesis
    using assms by (cases "q = sw_recv_next c + 1") (auto simp: SlidingWindow_accept_def)
qed

lemma accept_all_mono: "0 \<le> sw_recv_next c \<Longrightarrow> sw_recv_next c \<le> sw_recv_next (snd (accept_all ps c))"
proof (induction ps arbitrary: c)
  case (Cons x ps)
  let ?c = "snd (SlidingWindow_accept (fst x) (snd x) c)"
  have "sw_recv_next c \<le> sw_recv_next ?c" by (rule accept_mono [OF Cons.prems])
  also have "\<dots> \<le> sw_recv_next (snd (accept_all ps ?c))"
    by (rule Cons.IH) (use Cons.prems \<open>sw_recv_next c \<le> sw_recv_next ?c\<close> in simp)
  finally show ?case by (cases x) (simp add: case_prod_beta)
qed simp

lemma accept_old: "0 \<le> sw_recv_next c \<Longrightarrow> q \<le> sw_recv_next c \<Longrightarrow> SlidingWindow_accept q b c = (None, c)"
  by (simp add: SlidingWindow_accept_def)

section \<open>Every sequence of calls\<close>

text \<open>
  One call of a method of the channel, whatever its arguments and whether it raises or not, or any
  change of the protocol and the device, which other objects share.
\<close>

inductive sw_step ::
  "'k crypto \<Rightarrow> sw_channel \<times> protocol \<times> 'k device \<Rightarrow> sw_channel \<times> protocol \<times> 'k device \<Rightarrow> bool" for C where
  step_send: "sw_step C s (snd (SlidingWindow_send C v now plain s))"
| step_sack: "sw_step C (c, s) (snd (SlidingWindow_process_sack f c), s)"
| step_poll: "sw_step C (c, s) (snd (SlidingWindow_get_retransmissions clk c), s)"
| step_receive: "sw_step C s (snd (SlidingWindow_receive C v raw s))"
| step_ack: "sw_step C (c, s) (c, snd (SlidingWindow_build_sack_ack C v f s))"
| step_other: "sw_step C (c, s) (c, s')"

definition entry_ok :: "int \<Rightarrow> int \<times> windowed_packet \<Rightarrow> bool" where
  "entry_ok m x \<longleftrightarrow> wp_sequence (snd x) = fst x \<and> wire_seq (wp_packet_bytes (snd x)) = fst x \<and>
     wp_retries (snd x) \<le> max 0 m"

text \<open>
  The window never holds more packets than its size; every packet is filed under the number in its
  bytes and has not been sent again more often than allowed; nothing in the receive buffer could be
  delivered.
\<close>

definition sw_inv :: "sw_channel \<Rightarrow> bool" where
  "sw_inv c \<longleftrightarrow> dict_ok (sw_send_window c) \<and> int (SlidingWindow_in_flight c) \<le> max 0 (sw_window_size c) \<and>
     (\<forall>x \<in> set (sw_send_window c). entry_ok (sw_max_retries c) x) \<and>
     dict_ok (sw_recv_buffer c) \<and> - 1 \<le> sw_recv_next c \<and>
     (\<forall>k \<in> set (dict_keys (sw_recv_buffer c)). 0 \<le> sw_recv_next c \<and> sw_recv_next c + 1 < k)"

definition sw_params :: "sw_channel \<Rightarrow> int \<times> real \<times> real \<times> int \<times> bool" where
  "sw_params c = (sw_window_size c, sw_base_ms c, sw_max_ms c, sw_max_retries c, sw_use_mac c)"

lemma set_dict_set: "set (dict_set k v d) \<subseteq> insert (k, v) (set d)"
  by (induction d) auto

lemma send_inv:
  assumes "sw_inv c"
  shows "sw_inv (fst (snd (SlidingWindow_send C v now plain (c, s))))
    \<and> sw_params (fst (snd (SlidingWindow_send C v now plain (c, s)))) = sw_params c"
proof (cases "SlidingWindow_can_send c")
  case False
  then show ?thesis using assms by (simp add: SlidingWindow_send_def)
next
  case True
  obtain r s' where w: "channel_wire C v (sw_use_mac c) plain s = (r, s')" by (meson surj_pair)
  show ?thesis
  proof (cases r)
    case (Inl e)
    then show ?thesis using True w assms by (simp add: SlidingWindow_send_def)
  next
    case (Inr wire)
    let ?x = "\<lparr>wp_sequence = wire_seq wire, wp_packet_bytes = wire, wp_sent_at = now, wp_retries = 0,
        wp_next_timeout_ms = sw_base_ms c\<rparr>"
    let ?w = "dict_set (wire_seq wire) ?x (sw_send_window c)"
    have "entry_ok (sw_max_retries c) x" if "x \<in> set ?w" for x
      using that set_dict_set [of "wire_seq wire" ?x "sw_send_window c"] assms
      by (auto simp: sw_inv_def entry_ok_def)
    moreover have "int (length ?w) \<le> max 0 (sw_window_size c)"
      using True by (auto simp: SlidingWindow_can_send_def dict_set_length)
    moreover have "dict_ok ?w" "1 \<le> sw_window_size c"
      using assms True by (simp_all add: sw_inv_def SlidingWindow_can_send_def)
    ultimately show ?thesis
      using True w Inr assms
      by (simp add: SlidingWindow_send_def Let_def sw_inv_def SlidingWindow_in_flight_def sw_params_def)
  qed
qed

lemma distinct_filter_keys: "dict_ok d \<Longrightarrow> dict_ok (filter P d)"
  by (rule distinct_map_filter)

lemma process_sack_inv:
  assumes "sw_inv c"
  shows "sw_inv (snd (SlidingWindow_process_sack f c)) \<and> sw_params (snd (SlidingWindow_process_sack f c)) = sw_params c"
proof -
  let ?c = "snd (SlidingWindow_process_sack f c)"
  have r: "sw_window_size ?c = sw_window_size c" "sw_max_retries ?c = sw_max_retries c"
    "sw_recv_buffer ?c = sw_recv_buffer c" "sw_recv_next ?c = sw_recv_next c" "sw_params ?c = sw_params c"
    by (simp_all add: SlidingWindow_process_sack_def remove_acked Let_def sw_params_def)
  have "length (filter P (sw_send_window c)) \<le> length (sw_send_window c)" for P by simp
  then have "int (length (sw_send_window ?c)) \<le> max 0 (sw_window_size c)"
    using assms unfolding process_sack_window(1) sw_inv_def SlidingWindow_in_flight_def by (meson of_nat_mono order_trans)
  then show ?thesis
    using assms r by (auto simp: sw_inv_def process_sack_window(1) SlidingWindow_in_flight_def distinct_filter_keys)
qed

lemma poll_inv:
  assumes "sw_inv c"
  shows "sw_inv (snd (SlidingWindow_get_retransmissions clk c))
    \<and> sw_params (snd (SlidingWindow_get_retransmissions clk c)) = sw_params c"
proof -
  let ?w = "snd (windowed_queue.polled (sw_base_ms c) (sw_max_ms c) (sw_max_retries c) clk (sw_send_window c))"
  have ok: "dict_ok (sw_send_window c)" using assms by (simp add: sw_inv_def)
  have w: "dict_ok ?w" by (rule windowed_queue.poll_ok [OF ok])
  have "entry_ok (sw_max_retries c) x" if x: "x \<in> set ?w" for x
  proof -
    obtain k q where kq: "x = (k, q)" by fastforce
    have g: "dict_get ?w k = Some q" using x w kq by (simp add: map_of_is_SomeI)
    then obtain p where p: "dict_get (sw_send_window c) k = Some p"
      using windowed_queue.poll_absent [of "sw_send_window c" k] by (metis option.exhaust option.distinct(1))
    then have "entry_ok (sw_max_retries c) (k, p)" using assms map_of_SomeD [OF p] by (simp add: sw_inv_def)
    then show ?thesis
      using g windowed_queue.poll_entry [OF ok p, of "sw_base_ms c" "sw_max_ms c" "sw_max_retries c" clk]
      by (auto simp: kq entry_ok_def WindowedPacket_record_retransmit_def split: if_splits)
  qed
  moreover have "length ?w \<le> length (sw_send_window c)" by (rule windowed_queue.poll_length)
  ultimately show ?thesis
    using assms w
    by (auto simp: SlidingWindow_get_retransmissions_def case_prod_beta sw_inv_def SlidingWindow_in_flight_def sw_params_def)
qed

lemma drain_keys:
  assumes "drain q buffer b = (n', buffer', out)" and "dict_ok buffer"
  shows "q \<le> n' \<and> dict_ok buffer' \<and> (\<forall>k \<in> set (dict_keys buffer'). k \<in> set (dict_keys buffer) \<and> (q < k \<longrightarrow> n' + 1 < k))"
proof -
  have d: "q \<le> n'" "dict_get buffer (n' + 1) = None" "dict_ok buffer'"
    "\<forall>k. dict_get buffer' k = (if q < k \<and> k \<le> n' then None else dict_get buffer k)"
    using drain_stream [of q buffer b] assms by auto
  have "k \<in> set (dict_keys buffer) \<and> (q < k \<longrightarrow> n' + 1 < k)" if k: "k \<in> set (dict_keys buffer')" for k
  proof -
    have "dict_get buffer' k \<noteq> None" using k by (simp add: dict_get_None)
    then have "dict_get buffer k \<noteq> None" and "\<not> (q < k \<and> k \<le> n')" using d(4) by (metis)+
    then show ?thesis using d(2) by (cases "k = n' + 1") (auto simp: dict_get_None)
  qed
  then show ?thesis using d(1,3) by blast
qed

lemma accept_inv:
  assumes inv: "sw_inv c" and "0 \<le> q"
  shows "sw_inv (snd (SlidingWindow_accept q b c)) \<and> sw_params (snd (SlidingWindow_accept q b c)) = sw_params c"
proof -
  define c1 where "c1 = (if sw_recv_next c = -1 then c\<lparr>sw_recv_next := q - 1\<rparr> else c)"
  note a = SlidingWindow_accept_def [of q b c, unfolded Let_def, folded c1_def]
  have keys: "sw_recv_next c1 + 1 < k \<and> 0 \<le> sw_recv_next c1" if "k \<in> set (dict_keys (sw_recv_buffer c1))" for k
    using inv that by (auto simp: sw_inv_def c1_def)
  have c1: "sw_inv c1 \<and> sw_params c1 = sw_params c"
    using inv assms(2) by (auto simp: sw_inv_def c1_def SlidingWindow_in_flight_def sw_params_def)
  consider "q = sw_recv_next c1 + 1" | "q > sw_recv_next c1 + 1" | "q \<le> sw_recv_next c1" by linarith
  then show ?thesis
  proof cases
    case 1
    obtain n' buffer' out where d: "drain q (sw_recv_buffer c1) b = (n', buffer', out)" by (metis prod_cases3)
    have "q \<le> n' \<and> dict_ok buffer' \<and> (\<forall>k \<in> set (dict_keys buffer'). k \<in> set (dict_keys (sw_recv_buffer c1)) \<and> (q < k \<longrightarrow> n' + 1 < k))"
      using drain_keys [OF d] c1 by (simp add: sw_inv_def)
    then have "sw_inv (c1\<lparr>sw_recv_next := n', sw_recv_buffer := buffer'\<rparr>)"
      using c1 keys 1 assms(2) by (auto simp: sw_inv_def SlidingWindow_in_flight_def)
    then show ?thesis
      using c1 d 1 unfolding a by (simp add: sw_params_def)
  next
    case 2
    then have "0 \<le> sw_recv_next c1" using inv by (auto simp: c1_def sw_inv_def split: if_splits)
    then have "sw_inv (c1\<lparr>sw_recv_buffer := dict_set q b (sw_recv_buffer c1)\<rparr>)"
      using c1 keys 2 by (auto simp: sw_inv_def SlidingWindow_in_flight_def dict_keys_set)
    then show ?thesis
      using c1 2 unfolding a by (simp add: sw_params_def)
  next
    case 3
    then show ?thesis
      using c1 unfolding a by simp
  qed
qed

lemma receive_packet_parses:
  assumes "Device_receive_packet C n m raw d = (Inr p, d1)"
  shows "Packet_from_bytes n raw = Inr p"
proof (cases rule: receive_packet_cases [where C = C and n = n and m = m and raw = raw and d = d])
  case (session p' s)
  then show ?thesis using assms by (cases "fst (replay_checked m p' s)") auto
qed (use assms in simp_all)

lemma receive_inv:
  assumes "sw_inv c"
  shows "sw_inv (fst (snd (SlidingWindow_receive C v raw (c, s))))
    \<and> sw_params (fst (snd (SlidingWindow_receive C v raw (c, s)))) = sw_params c"
proof -
  obtain p d where s: "s = (p, d)" by fastforce
  obtain r d1 where r: "Device_receive_packet C (env_parse v) (env_replay v) raw d = (r, d1)" by (meson surj_pair)
  show ?thesis
  proof (cases r)
    case (Inl e)
    then show ?thesis using assms by (simp add: SlidingWindow_receive_def s r)
  next
    case (Inr packet)
    have "0 \<le> pkt_sequence packet"
      using receive_packet_parses [OF r [unfolded Inr]] by (auto simp: from_bytes_Inr parsed_fields_def Let_def)
    then show ?thesis
      using assms accept_inv [OF assms, of "pkt_sequence packet"]
      by (simp add: SlidingWindow_receive_def s r Inr case_prod_beta split: sum.splits)
  qed
qed

lemma sw_step_inv: "sw_step C s s' \<Longrightarrow> sw_inv (fst s) \<Longrightarrow> sw_inv (fst s') \<and> sw_params (fst s') = sw_params (fst s)"
proof (induction rule: sw_step.induct)
  case (step_send s v now plain)
  then show ?case using send_inv [of "fst s" C v now plain "snd s"] by simp
next
  case (step_receive s v raw)
  then show ?case using receive_inv [of "fst s" C v raw "snd s"] by simp
qed (simp_all add: process_sack_inv poll_inv)

lemma sw_steps_inv:
  "(sw_step C)\<^sup>*\<^sup>* s s' \<Longrightarrow> sw_inv (fst s) \<Longrightarrow> sw_inv (fst s') \<and> sw_params (fst s') = sw_params (fst s)"
  by (induction rule: rtranclp_induct) (auto dest: sw_step_inv)

lemma new_channel_inv: "sw_inv (SlidingWindow_new w b m r u)"
  by (simp add: SlidingWindow_new_def sw_inv_def SlidingWindow_in_flight_def)

section \<open>Properties\<close>

text \<open>C32: the send window is bounded. After any sequence of calls on a new channel, whatever happens to the
  protocol and the device meanwhile, at most \<open>window_size\<close> packets are in flight, every one of them is
  filed under the sequence number in its own bytes and has been retransmitted at most \<open>max_retries\<close> times;
  no packet in the receive buffer is deliverable.\<close>

theorem window_bounded:
  assumes "(sw_step C)\<^sup>*\<^sup>* (SlidingWindow_new w b m r u, s) (c, s')"
  shows "int (SlidingWindow_in_flight c) \<le> max 0 w \<and>
     (\<forall>x \<in> set (sw_send_window c). wire_seq (wp_packet_bytes (snd x)) = fst x \<and> wp_retries (snd x) \<le> max 0 r) \<and>
     (\<forall>k \<in> set (dict_keys (sw_recv_buffer c)). sw_recv_next c + 1 < k)"
proof -
  have "sw_inv c" and p: "sw_params c = sw_params (SlidingWindow_new w b m r u)"
    using sw_steps_inv [OF assms] new_channel_inv [of w b m r u] by simp_all
  moreover have "sw_window_size c = w" and "sw_max_retries c = r"
    using p by (simp_all add: sw_params_def SlidingWindow_new_def)
  ultimately show ?thesis by (simp add: sw_inv_def entry_ok_def)
qed

theorem window_bounded_witness:
  "SlidingWindow_in_flight (fst (snd (SlidingWindow_send toy quiet 0 [1]
     (SlidingWindow_new 1 200 8000 5 False, (up id_b, dev_a))))) \<le> 1"
proof -
  let ?s = "(SlidingWindow_new 1 200 8000 5 False, (up id_b, dev_a))"
  let ?t = "snd (SlidingWindow_send toy quiet 0 [1] ?s)"
  have "(sw_step toy)\<^sup>*\<^sup>* ?s (fst ?t, snd ?t)"
    using step_send [of toy ?s quiet 0 "[1]"] by simp
  then have "int (SlidingWindow_in_flight (fst ?t)) \<le> max 0 1"
    by (rule window_bounded [THEN conjunct1])
  then show ?thesis by simp
qed

text \<open>SACK frames round-trip. A frame whose numbers fit 32 bits, with fewer than 65536 blocks, can be encoded;
  the encoding has seven bytes and eight more per block, and decoding returns the frame, also when other
  bytes follow.\<close>

theorem sack_roundtrip:
  assumes "0 \<le> sf_cum_ack f \<and> sf_cum_ack f < 2 ^ 32" and "length (sf_blocks f) < 2 ^ 16"
    and "\<forall>b \<in> set (sf_blocks f). 0 \<le> fst b \<and> fst b < 2 ^ 32 \<and> 0 \<le> snd b \<and> snd b < 2 ^ 32"
  shows "\<exists>bs. SackFrame_encode f = Inr bs \<and> length bs = 7 + 8 * length (sf_blocks f) \<and>
     SackFrame_decode (bs @ rest) = Inr f"
proof -
  have wf: "sack_wf f" using assms by (simp add: sack_wf_def u32_def)
  then obtain bs where bs: "SackFrame_encode f = Inr bs" using sack_codec.framed_enc_total by blast
  have "length bs = 7 + 8 * length (sf_blocks f)"
    using bs encode_layout [OF wf] header_fields(1) [OF wf] length_blocks [of "sf_blocks f"] by auto
  then show ?thesis using bs sack_codec.dec_enc_rest [OF wf bs] by blast
qed

theorem sack_roundtrip_witness:
  "\<exists>bs. SackFrame_encode \<lparr>sf_cum_ack = 4, sf_blocks = [(6, 7), (9, 9)]\<rparr> = Inr bs \<and> length bs = 23 \<and>
     SackFrame_decode (bs @ [1, 2]) = Inr \<lparr>sf_cum_ack = 4, sf_blocks = [(6, 7), (9, 9)]\<rparr>"
  using sack_roundtrip [of "\<lparr>sf_cum_ack = 4, sf_blocks = [(6, 7), (9, 9)]\<rparr>" "[1, 2]"] by simp

text \<open>C33: the blocks of a SACK frame are exactly the buffered packets. The one pass that merges neighbouring
  numbers gives the same as the specification: the numbers in the blocks are the keys of the receive buffer,
  the blocks are in ascending order and as long as possible (between two of them a number is missing), and
  the frame as a whole acknowledges these keys and everything from zero to the last delivered number.\<close>

theorem build_sack_exact:
  assumes "dict_ok (sw_recv_buffer c)"
  shows "(\<Union>b \<in> set (sf_blocks (SlidingWindow_build_sack c)). {fst b..snd b}) = set (dict_keys (sw_recv_buffer c)) \<and>
     sorted_wrt (\<lambda>b b'. fst b \<le> snd b \<and> snd b + 1 < fst b') (sf_blocks (SlidingWindow_build_sack c)) \<and>
     SackFrame_all_acked (SlidingWindow_build_sack c) = {0..max (sw_recv_next c) 0} \<union> set (dict_keys (sw_recv_buffer c))"
proof -
  have "sorted_wrt (\<lambda>b b'. fst b \<le> snd b \<and> snd b + 1 < fst b') (sf_blocks (SlidingWindow_build_sack c))"
    using build_sack_blocks(2) [OF assms] unfolding separated_def
    by (auto intro: sorted_wrt_mono_rel [of _ "\<lambda>a b. snd a + 1 < fst b"])
  moreover have "sf_cum_ack (SlidingWindow_build_sack c) = max (sw_recv_next c) 0"
    by (simp add: SlidingWindow_build_sack_def)
  ultimately show ?thesis
    using build_sack_blocks(1) [OF assms] by (simp add: all_acked_blocks)
qed

theorem build_sack_exact_witness:
  "SackFrame_all_acked (SlidingWindow_build_sack
     ((SlidingWindow_new 8 200 8000 5 False)\<lparr>sw_recv_next := 2, sw_recv_buffer := [(7, []), (4, [1]), (5, [])]\<rparr>))
   = {0, 1, 2, 4, 5, 7}"
  using build_sack_exact [of "(SlidingWindow_new 8 200 8000 5 False)\<lparr>sw_recv_next := 2,
      sw_recv_buffer := [(7, []), (4, [1]), (5, [])]\<rparr>"]
  by auto

text \<open>Processing a SACK frame removes exactly what it acknowledges. The packets whose numbers the frame does
  not contain stay in the window, in their order and unchanged; the return value is the number of packets
  removed; and the base of the window becomes the lowest number left, if there is one.\<close>

theorem process_sack_exact:
  "\<exists>n c'. SlidingWindow_process_sack f c = (n, c') \<and>
     sw_send_window c' = filter (\<lambda>x. fst x \<notin> SackFrame_all_acked f) (sw_send_window c) \<and>
     n = int (SlidingWindow_in_flight c) - int (SlidingWindow_in_flight c') \<and>
     sw_send_base c' = (if sw_send_window c' = [] then sw_send_base c else Min (set (dict_keys (sw_send_window c'))))"
proof -
  let ?r = "SlidingWindow_process_sack f c" and ?P = "\<lambda>x. fst x \<in> SackFrame_all_acked f"
  have "length (sw_send_window c) = length (filter ?P (sw_send_window c)) + length (filter (\<lambda>x. \<not> ?P x) (sw_send_window c))"
    by (simp add: sum_length_filter_compl)
  then have "fst ?r = int (SlidingWindow_in_flight c) - int (SlidingWindow_in_flight (snd ?r))"
    by (simp add: process_sack_window SlidingWindow_in_flight_def)
  then show ?thesis
    using process_sack_window(1) [of f c] process_sack_base [of f c]
    by (cases ?r) (simp add: Let_def)
qed

text \<open>C14: data is delivered in order. Let authenticated packets with distinct numbers reach a new channel in any
  order. What the channel hands to the application, over all calls, is the data of consecutive numbers,
  starting with the number \<open>q\<close> that arrived first, up to the last number before the first gap: nothing is
  repeated, reordered or, from \<open>q\<close> on, left out.\<close>

theorem in_order_delivery:
  assumes "distinct (map fst ((q, b) # ps))" and "0 \<le> q"
  shows "\<exists>n out c. accept_all ((q, b) # ps) (SlidingWindow_new w bt mt r u) = (out, c) \<and>
     q \<le> n \<and> {q..n} \<subseteq> set (map fst ((q, b) # ps)) \<and> n + 1 \<notin> set (map fst ((q, b) # ps)) \<and>
     out = concat (map (\<lambda>k. the (map_of ((q, b) # ps) k)) [q..n]) \<and> sw_recv_next c = n"
proof -
  let ?m = "map_of ((q, b) # ps)"
  obtain c1 where c1: "SlidingWindow_accept q b (SlidingWindow_new w bt mt r u) = (Some b, c1)"
    "recv_inv q [q \<mapsto> b] c1" "sw_recv_next c1 = q"
    using new_channel_first [OF assms(2)] by blast
  have "\<forall>k \<in> fst ` set ps. [q \<mapsto> b] k = None" using assms(1) by auto
  then obtain out c where o: "accept_all ps c1 = (out, c)" "recv_inv q ?m c"
    "stream q (sw_recv_next c) ?m = stream q q [q \<mapsto> b] @ out"
    using accept_all_inv [OF c1(2), of ps] assms(1) arrivals_map [OF assms(1)] c1(3) by auto
  have "accept_all ((q, b) # ps) (SlidingWindow_new w bt mt r u) = (b @ out, c)"
    using c1(1) o(1) by (simp add: delivered_def)
  moreover have "b @ out = stream q (sw_recv_next c) ?m" using o(3) by (simp add: stream_def)
  moreover have "{q..sw_recv_next c} \<subseteq> set (map fst ((q, b) # ps))" and "sw_recv_next c + 1 \<notin> set (map fst ((q, b) # ps))"
    and "q \<le> sw_recv_next c"
    using o(2) unfolding recv_inv_def dict_get_None by auto
  ultimately show ?thesis unfolding stream_def by blast
qed

theorem in_order_delivery_witness:
  "fst (accept_all [(3, [1]), (5, [3]), (4, [2]), (8, [9])] (SlidingWindow_new 64 200 8000 5 False)) = [1, 2, 3]"
proof -
  let ?ps = "[(5, [3]), (4, [2]), (8, [9])] :: (int \<times> bytes) list"
  obtain n out c where r: "accept_all ((3, [1]) # ?ps) (SlidingWindow_new 64 200 8000 5 False) = (out, c)" "3 \<le> n"
    "{3..n} \<subseteq> {3, 5, 4, 8}" "n + 1 \<notin> {3, 5, 4, 8}"
    "out = concat (map (\<lambda>k. the (map_of ((3, [1]) # ?ps) k)) [3..n])"
    using in_order_delivery [of 3 "[1]" ?ps 64 200 8000 5 False] by auto
  have "n < 6" using r(3) by (rule_tac ccontr) (auto simp: subset_iff dest: spec [of _ 6])
  then have "n = 5" using r(2,4) by (cases "n = 3 \<or> n = 4") auto
  then show ?thesis using r(1,5) by (simp add: upto.simps)
qed

text \<open>Packets that arrive after a later one, at the start, are lost. When the first packet to reach a new
  channel has number \<open>q\<close>, the channel's acknowledgement covers every number from zero to \<open>q\<close>. A sender that
  processes it drops all its packets with these numbers, although they have not arrived; and when one of
  them arrives after all, then or after any other packets, its data is discarded.\<close>

theorem late_first_packet_lost:
  assumes "0 \<le> t" and "t < q"
  shows "\<exists>c. SlidingWindow_accept q b (SlidingWindow_new w bt mt r u) = (Some b, c) \<and>
     dict_get (sw_send_window (snd (SlidingWindow_process_sack (SlidingWindow_build_sack c) sender))) t = None \<and>
     fst (SlidingWindow_accept t b' (snd (accept_all ps c))) = None"
proof -
  have q: "0 \<le> q" using assms by simp
  obtain c where c: "SlidingWindow_accept q b (SlidingWindow_new w bt mt r u) = (Some b, c)"
    "recv_inv q [q \<mapsto> b] c" "sw_recv_next c = q"
    using new_channel_first [OF q] by blast
  have "t \<in> SackFrame_all_acked (SlidingWindow_build_sack c)"
    using assms c(3) unfolding all_acked_blocks by (simp add: SlidingWindow_build_sack_def)
  then have "dict_get (sw_send_window (snd (SlidingWindow_process_sack (SlidingWindow_build_sack c) sender))) t = None"
    by (auto simp: process_sack_window dict_get_None)
  moreover have "q \<le> sw_recv_next (snd (accept_all ps c))" using accept_all_mono [of c ps] c(3) q by simp
  then have "fst (SlidingWindow_accept t b' (snd (accept_all ps c))) = None"
    using accept_old [of "snd (accept_all ps c)" t b'] assms by simp
  ultimately show ?thesis using c(1) by blast
qed

theorem late_first_packet_lost_witness:
  "\<exists>c. SlidingWindow_accept 1 [7] (SlidingWindow_new 64 200 8000 5 False) = (Some [7], c) \<and>
     fst (SlidingWindow_accept 0 [6] (snd (accept_all [] c))) = None"
  using late_first_packet_lost [of 0 1 "[7]" 64 200 8000 5 False _ "[6]" "[]"] by fastforce

text \<open>The base of the send window outlives its packet. The base is meant to be the lowest number that is not yet
  acknowledged. When a poll gives up the packet at the base, the base keeps naming it, although it has left the
  window; only the next SACK frame or the next packet sent on an empty window corrects it.\<close>

theorem send_base_stale:
  assumes "dict_ok (sw_send_window c)" and "dict_get (sw_send_window c) (SlidingWindow_send_base c) = Some p"
    and "WindowedPacket_is_due (fst (clk (SlidingWindow_send_base c))) p" and "sw_max_retries c \<le> wp_retries p"
  shows "\<exists>e c'. SlidingWindow_get_retransmissions clk c = (Inl e, c') \<and>
     SlidingWindow_send_base c' = SlidingWindow_send_base c \<and>
     dict_get (sw_send_window c') (SlidingWindow_send_base c') = None"
proof -
  let ?b = "SlidingWindow_send_base c" and ?q = "sw_send_window c"
  let ?r = "windowed_queue.polled (sw_base_ms c) (sw_max_ms c) (sw_max_retries c) clk ?q"
  have "dict_get (snd ?r) ?b = None"
    using windowed_queue.poll_entry [OF assms(1,2)] assms(3,4) by simp
  moreover define failed where "failed = map fst (filter (\<lambda>x. WindowedPacket_is_due (fst (clk (fst x))) (snd x) \<and>
      sw_max_retries c \<le> wp_retries (snd x)) ?q)"
  have "?b \<in> set failed" unfolding failed_def using map_of_SomeD [OF assms(2)] assms(3,4) by force
  then have "failed \<noteq> []" by auto
  then have "fst ?r = Inl (RetransmitError failed)"
    using windowed_queue.poll_result [of "sw_base_ms c" "sw_max_ms c" "sw_max_retries c" clk ?q, folded failed_def]
    by (simp only: Let_def if_True not_False_eq_True)
  ultimately show ?thesis
    by (cases ?r) (auto simp: SlidingWindow_get_retransmissions_def SlidingWindow_send_base_def)
qed

text \<open>The receive buffer has no bound. Whatever the window size, packets can arrive such that any number of
  them is buffered at the same time.\<close>

theorem recv_buffer_unbounded:
  "\<exists>ps. length (sw_recv_buffer (snd (accept_all ((0, b) # ps) (SlidingWindow_new w bt mt r u)))) = N"
proof -
  let ?ps = "map (\<lambda>i. (2 + int i, b)) [0..<N]"
  let ?m = "[0 \<mapsto> b] ++ map_of (rev ?ps)"
  obtain c1 where c1: "SlidingWindow_accept 0 b (SlidingWindow_new w bt mt r u) = (Some b, c1)" "recv_inv 0 [0 \<mapsto> b] c1"
    using new_channel_first [of 0] by blast
  have d: "dict_ok ((0, b) # ?ps)" by (auto simp: distinct_map inj_on_def)
  then obtain out c where c: "accept_all ?ps c1 = (out, c)" "recv_inv 0 ?m c"
    using accept_all_inv [OF c1(2), of ?ps] by auto
  have m: "?m k \<noteq> None \<longleftrightarrow> k = 0 \<or> (2 \<le> k \<and> k < 2 + int N)" for k
  proof -
    have "k \<in> (\<lambda>i. 2 + int i) ` {0..<N} \<longleftrightarrow> 2 \<le> k \<and> k < 2 + int N"
      by (auto simp: image_iff Bex_def intro!: exI [of _ "nat (k - 2)"])
    then show ?thesis unfolding arrivals_map [OF d] by (simp only: dict_get_None) (auto simp: image_comp)
  qed
  have "0 \<le> sw_recv_next c" "\<forall>k. 0 \<le> k \<and> k \<le> sw_recv_next c \<longrightarrow> ?m k \<noteq> None"
    using c(2) by (auto simp: recv_inv_def)
  moreover have "?m 1 = None" using m [of 1] by force
  ultimately have n: "sw_recv_next c = 0" by (metis int_one_le_iff_zero_less order_le_less zero_le_one)
  have "set (dict_keys (sw_recv_buffer c)) = {2..<2 + int N}"
  proof (intro set_eqI)
    fix k
    have "dict_get (sw_recv_buffer c) k = (if k > 0 then ?m k else None)" using c(2) n unfolding recv_inv_def by metis
    then show "k \<in> set (dict_keys (sw_recv_buffer c)) \<longleftrightarrow> k \<in> {2..<2 + int N}"
      using m [of k] dict_get_None [of "sw_recv_buffer c" k] by (cases "k > 0") auto
  qed
  moreover have "dict_ok (sw_recv_buffer c)" using c(2) unfolding recv_inv_def by blast
  ultimately have "length (sw_recv_buffer c) = card {2..<2 + int N}" by (metis distinct_card length_map)
  then have "length (sw_recv_buffer (snd (accept_all ((0, b) # ?ps) (SlidingWindow_new w bt mt r u)))) = N"
    using c1(1) c(1) by simp
  then show ?thesis by blast
qed

end
