(* ===== verification/Bulk_Transfer.thy ===== *)
theory Bulk_Transfer
  imports Sliding_Window_Properties
begin

text \<open>
  Two sliding-window channels over two devices that share a session: bursts of packets that arrive in
  any order, the acknowledgement that answers them, packets that arrive twice, and what the
  acknowledgements do to the sequence numbers of the data.
\<close>

section \<open>Packets on their way\<close>

text \<open>\<open>wire\<close> is a packet from \<open>sender\<close> with number \<open>q\<close> that the end \<open>sb\<close> of a session accepts as authentic
  and decrypts to \<open>plain\<close>.\<close>

definition carries :: "'k crypto \<Rightarrow> bytes \<Rightarrow> session \<Rightarrow> int \<Rightarrow> int \<Rightarrow> bytes \<Rightarrow> bytes \<Rightarrow> bool" where
  "carries C sender sb q stamp plain wire \<longleftrightarrow>
     (\<exists>p. packet_wf p \<and> Packet_to_bytes p = Inr wire \<and> pkt_ptype p \<noteq> HELLO \<and> pkt_sender_id p = sender \<and>
        pkt_sequence p = q \<and> pkt_timestamp_ms p = stamp \<and> session_authentic C sb p = Inr True \<and>
        crypto_decrypt C (ses_session_key sb) (pkt_nonce p) (pkt_payload p) [] = Inr plain)"

text \<open>What authenticity depends on: the keys of the session, not its counters.\<close>

definition same_keys :: "session \<Rightarrow> session \<Rightarrow> bool" where
  "same_keys s s' \<longleftrightarrow> ses_session_key s' = ses_session_key s \<and> ses_mac_key s' = ses_mac_key s \<and>
     ses_peer_ed25519_public s' = ses_peer_ed25519_public s"

lemma carries_keys: "carries C a sb q t plain wire \<Longrightarrow> same_keys sb sb' \<Longrightarrow> carries C a sb' q t plain wire"
  by (auto simp: carries_def same_keys_def session_authentic_def)

lemma same_keys_simps [simp]:
  "same_keys s s" "same_keys s (s\<lparr>ses_local_sequence := n\<rparr>)" "same_keys s (snd (Session_check_replay now q ts s))"
  by (simp_all add: same_keys_def)

lemma share_session_step:
  assumes "share_session da sa db sb" and "same_keys sa sa'" and "same_keys sb sb'"
  shows "share_session (put_session (dev_device_id db) sa' da) sa' (put_session (dev_device_id da) sb' db) sb'"
  using assms by (simp add: share_session_def same_keys_def)

lemma share_session_sender:
  assumes "share_session da sa db sb" and "same_keys sa sa'"
  shows "share_session (put_session (dev_device_id db) sa' da) sa' db sb"
  using assms by (simp add: share_session_def same_keys_def)

lemma share_session_sym: "share_session da sa db sb \<Longrightarrow> share_session db sb da sa"
  by (auto simp: share_session_def)

abbreviation drawn_next :: "session \<Rightarrow> session" where
  "drawn_next s \<equiv> s\<lparr>ses_local_sequence := ses_local_sequence s + 1\<rparr>"

lemma channel_wire_carries:
  assumes laws: "crypto_laws C" and wf: "device_wf C da" and share: "share_session da sa db sb"
    and p: "pr_peer_id p = Some (dev_device_id db)" "use_mac \<or> pr_state p = ESTABLISHED"
    and v: "env_ok v" and args: "int (length plain) < 2 ^ 31" "ses_local_sequence sa < 2 ^ 32"
  obtains wire where "channel_wire C v use_mac plain (p, da) =
       (Inr wire, (p, put_session (dev_device_id db) (drawn_next sa) da))"
    and "wire_seq wire = ses_local_sequence sa"
    and "carries C (dev_device_id da) sb (ses_local_sequence sa) (env_stamp v) plain wire"
proof -
  have seq: "ses_local_sequence sa < 256 ^ 4" using args(2) by simp
  have v': "length (env_nonce v) = 12" "clock_ok (env_stamp v)" using v by simp_all
  let ?d = "put_session (dev_device_id db) (drawn_next sa) da"
  obtain q c t where b: "build_sealed C (if use_mac then by_mac C else by_signature C) (env_stamp v) (env_nonce v) DATA
      (if use_mac then 5 else 1) (dev_device_id db) plain da = (Inr q, ?d)"
    and q: "q = sealed_packet DATA (if use_mac then 5 else 1) (dev_device_id da) (dev_device_id db)
      (ses_local_sequence sa) (env_nonce v) (env_stamp v) c t"
    and w: "packet_wf q" and dec: "crypto_decrypt C (ses_session_key sa) (env_nonce v) c [] = Inr plain"
    and au: "session_authentic C sb q = Inr True"
    by (rule sealed_built [OF laws wf share v'(1) args(1) v'(2) seq, of use_mac DATA])
  obtain wire where wire: "Packet_to_bytes q = Inr wire" using packet_codec.enc_total [OF w] by blast
  have "wire_seq wire = ses_local_sequence sa"
    using wire_sequence [OF w wire] by (simp add: wire_seq_def q)
  moreover have "carries C (dev_device_id da) sb (ses_local_sequence sa) (env_stamp v) plain wire"
    unfolding carries_def using w wire au dec share
    by (intro exI [of _ q]) (simp add: q share_session_def)
  moreover have "channel_wire C v use_mac plain (p, da) = (Inr wire, (p, ?d))"
    using b wire p send_data_ok [of p "dev_device_id db" C v plain da q ?d wire]
    by (cases use_mac) (simp_all add: channel_wire_def Device_build_data_packet_mac_def Device_build_data_packet_def
        FLAG_ENCRYPTED_def FLAG_MAC_AUTH_def)
  ultimately show ?thesis using that by blast
qed

lemma device_receive_carried:
  assumes "carries C a sb q stamp plain wire" and "dict_get (dev_sessions db) a = Some sb"
    and "replay_fresh q sb" and "\<bar>env_replay v - stamp\<bar> \<le> 30000"
  obtains p where "Device_receive_packet C (env_parse v) (env_replay v) wire db =
       (Inr p, put_session a (snd (Session_check_replay (env_replay v) q stamp sb)) db)"
    and "Device_decrypt_packet C (put_session a (snd (Session_check_replay (env_replay v) q stamp sb)) db) p = Inr plain"
    and "pkt_sequence p = q"
proof -
  obtain p where p: "packet_wf p" "Packet_to_bytes p = Inr wire" "pkt_ptype p \<noteq> HELLO" "pkt_sender_id p = a"
    "pkt_sequence p = q" "pkt_timestamp_ms p = stamp" "session_authentic C sb p = Inr True"
    "crypto_decrypt C (ses_session_key sb) (pkt_nonce p) (pkt_payload p) [] = Inr plain"
    using assms(1) by (auto simp: carries_def)
  obtain s' where s': "Session_check_replay (env_replay v) q stamp sb = (Inr (), s')"
    "ses_session_key s' = ses_session_key sb"
    using check_replay_fresh [OF assms(3,4)] by blast
  have "Device_receive_packet C (env_parse v) (env_replay v) wire db = (Inr p, put_session a s' db)"
    using receive_sealed [OF p(1-3) _ p(7), where m = "env_replay v" and n = "env_parse v" and d = db and s' = s']
      assms(2) s'(1) p(4-6) by simp
  moreover have "Device_decrypt_packet C (put_session a s' db) p = Inr plain"
    using p(4,8) s'(2) by (simp add: Device_decrypt_packet_def Device_get_session_def)
  ultimately show ?thesis using that p(5) s'(1) by simp
qed

lemma sw_receive_carried:
  assumes "carries C a sb q stamp plain wire" and "dict_get (dev_sessions db) a = Some sb"
    and "replay_fresh q sb" and "\<bar>env_replay v - stamp\<bar> \<le> 30000"
    and "SlidingWindow_accept q plain cb = (out, cb')"
  shows "SlidingWindow_receive C v wire (cb, pb, db) = (Inr (out, SlidingWindow_build_sack cb'),
     (cb', pb, put_session a (snd (Session_check_replay (env_replay v) q stamp sb)) db))"
  by (rule device_receive_carried [OF assms(1-4)]) (use assms(5) in \<open>simp add: SlidingWindow_receive_def\<close>)

section \<open>Bursts\<close>

text \<open>Several calls of \<^verbatim>\<open>send\<close>; no result if one of them raises or finds the window full.\<close>

fun send_all ::
  "'k crypto \<Rightarrow> ('k env \<times> real \<times> bytes) list \<Rightarrow> sw_channel \<times> protocol \<times> 'k device
     \<Rightarrow> (bytes list \<times> sw_channel \<times> protocol \<times> 'k device) option" where
  "send_all C [] s = Some ([], s)"
| "send_all C ((v, now, plain) # xs) s =
     (case SlidingWindow_send C v now plain s of
        (Inr (Some (seq, wire)), s') \<Rightarrow> map_option (\<lambda>(wires, s''). (wire # wires, s'')) (send_all C xs s')
      | _ \<Rightarrow> None)"

text \<open>Several calls of \<^verbatim>\<open>receive\<close>; no result if one of them raises.\<close>

fun receive_all ::
  "'k crypto \<Rightarrow> ('k env \<times> bytes) list \<Rightarrow> sw_channel \<times> protocol \<times> 'k device
     \<Rightarrow> ((bytes option \<times> sack_frame) list \<times> sw_channel \<times> protocol \<times> 'k device) option" where
  "receive_all C [] s = Some ([], s)"
| "receive_all C ((v, wire) # xs) s =
     (case SlidingWindow_receive C v wire s of
        (Inr r, s') \<Rightarrow> map_option (\<lambda>(rs, s''). (r # rs, s'')) (receive_all C xs s')
      | _ \<Rightarrow> None)"

text \<open>One call of \<^verbatim>\<open>send\<close> on a channel with room.\<close>

lemma send_ok:
  assumes "channel_wire C v (sw_use_mac ca) plain s = (Inr wire, s')" and "SlidingWindow_can_send ca"
  obtains ca' where "SlidingWindow_send C v now plain (ca, s) = (Inr (Some (wire_seq wire, wire)), (ca', s'))"
    and "dict_keys (sw_send_window ca') = (if wire_seq wire \<in> set (dict_keys (sw_send_window ca))
       then dict_keys (sw_send_window ca) else dict_keys (sw_send_window ca) @ [wire_seq wire])"
    and "sw_use_mac ca' = sw_use_mac ca" and "sw_window_size ca' = sw_window_size ca"
proof
  let ?x = "\<lparr>wp_sequence = wire_seq wire, wp_packet_bytes = wire, wp_sent_at = now, wp_retries = 0,
      wp_next_timeout_ms = sw_base_ms ca\<rparr>"
  let ?c = "ca\<lparr>sw_send_window := dict_set (wire_seq wire) ?x (sw_send_window ca)\<rparr>"
  let ?c' = "if sw_send_window ?c = [] \<or> length (sw_send_window ?c) = 1 then ?c\<lparr>sw_send_base := wire_seq wire\<rparr> else ?c"
  show "SlidingWindow_send C v now plain (ca, s) = (Inr (Some (wire_seq wire, wire)), (?c', s'))"
    using assms by (simp add: SlidingWindow_send_def Let_def)
qed (simp_all add: dict_keys_set)

lemma send_all_ok:
  assumes laws: "crypto_laws C" and peer: "pr_peer_id p = Some (dev_device_id db)"
    and "device_wf C da" and "share_session da sa db sb" and "sw_use_mac ca \<or> pr_state p = ESTABLISHED"
    and "\<forall>x \<in> set xs. env_ok (fst x) \<and> int (length (snd (snd x))) < 2 ^ 31"
    and "ses_local_sequence sa + int (length xs) \<le> 2 ^ 32"
    and "int (length (sw_send_window ca) + length xs) \<le> sw_window_size ca"
    and "\<forall>k \<in> set (dict_keys (sw_send_window ca)). k < ses_local_sequence sa"
  shows "\<exists>wires ca' da'. send_all C xs (ca, p, da) = Some (wires, (ca', p, da')) \<and> length wires = length xs \<and>
     (\<forall>i < length xs. carries C (dev_device_id da) sb (ses_local_sequence sa + int i) (env_stamp (fst (xs ! i)))
        (snd (snd (xs ! i))) (wires ! i)) \<and>
     set (dict_keys (sw_send_window ca')) = set (dict_keys (sw_send_window ca)) \<union>
       {ses_local_sequence sa..<ses_local_sequence sa + int (length xs)} \<and>
     SlidingWindow_in_flight ca' = SlidingWindow_in_flight ca + length xs"
  using assms(3-)
proof (induction xs arbitrary: ca da sa)
  case Nil
  then show ?case by (simp add: SlidingWindow_in_flight_def)
next
  case (Cons x xs)
  obtain v now plain where x: "x = (v, now, plain)" by (cases x)
  have v: "env_ok v" "int (length plain) < 2 ^ 31" using Cons.prems(4) x by auto
  have n: "ses_local_sequence sa < 2 ^ 32" using Cons.prems(5) by simp
  let ?d = "put_session (dev_device_id db) (drawn_next sa) da"
  obtain wire where w: "channel_wire C v (sw_use_mac ca) plain (p, da) = (Inr wire, (p, ?d))"
    "wire_seq wire = ses_local_sequence sa"
    "carries C (dev_device_id da) sb (ses_local_sequence sa) (env_stamp v) plain wire"
    by (rule channel_wire_carries [OF laws Cons.prems(1,2) peer Cons.prems(3) v n])
  have room: "SlidingWindow_can_send ca" using Cons.prems(6) by (simp add: SlidingWindow_can_send_def)
  obtain ca1 where s: "SlidingWindow_send C v now plain (ca, (p, da)) = (Inr (Some (wire_seq wire, wire)), (ca1, (p, ?d)))"
    "dict_keys (sw_send_window ca1) = dict_keys (sw_send_window ca) @ [ses_local_sequence sa]"
    "sw_use_mac ca1 = sw_use_mac ca" "sw_window_size ca1 = sw_window_size ca"
    using send_ok [OF w(1) room, of now] Cons.prems(7) w(2) by (metis less_irrefl)
  have len: "length (sw_send_window ca1) = Suc (length (sw_send_window ca))"
    using s(2) by (metis length_append_singleton length_map)
  have wf: "device_wf C ?d"
    using put_session_wf [OF Cons.prems(1) next_sequence_wf [OF device_session_wf [OF Cons.prems(1)]]]
      Cons.prems(2) by (simp add: share_session_def Session_next_sequence_def)
  have share: "share_session ?d (drawn_next sa) db sb" by (rule share_session_sender [OF Cons.prems(2)]) simp
  obtain wires ca' da' where ih: "send_all C xs (ca1, p, ?d) = Some (wires, (ca', p, da'))" "length wires = length xs"
    "\<forall>i < length xs. carries C (dev_device_id da) sb (ses_local_sequence sa + 1 + int i) (env_stamp (fst (xs ! i)))
        (snd (snd (xs ! i))) (wires ! i)"
    "set (dict_keys (sw_send_window ca')) = set (dict_keys (sw_send_window ca1)) \<union>
       {ses_local_sequence sa + 1..<ses_local_sequence sa + 1 + int (length xs)}"
    "SlidingWindow_in_flight ca' = SlidingWindow_in_flight ca1 + length xs"
    using Cons.IH [OF wf share, of ca1] Cons.prems(3-7) s(2-4) len by fastforce
  have "carries C (dev_device_id da) sb (ses_local_sequence sa + int i) (env_stamp (fst ((x # xs) ! i)))
      (snd (snd ((x # xs) ! i))) ((wire # wires) ! i)" if "i < length (x # xs)" for i
    using that ih(3) w(3) x by (cases i) (auto simp: add.assoc)
  moreover have "send_all C (x # xs) (ca, p, da) = Some (wire # wires, (ca', p, da'))"
    using s(1) ih(1) x by simp
  moreover have "set (dict_keys (sw_send_window ca')) = set (dict_keys (sw_send_window ca)) \<union>
      {ses_local_sequence sa..<ses_local_sequence sa + int (length (x # xs))}"
    unfolding ih(4) s(2) by auto
  ultimately show ?case
    using ih(2,5) len by (simp add: SlidingWindow_in_flight_def)
qed

lemma replay_step:
  assumes "replay_fresh q s" and "\<bar>now - ts\<bar> \<le> 30000"
  defines "s' \<equiv> snd (Session_check_replay now q ts s)"
  shows "ses_peer_seq_window s' \<subseteq> insert q (ses_peer_seq_window s)"
    and "ses_peer_max_seq s' = max q (ses_peer_max_seq s)"
  using check_replay_accept [of now ts q s] assms
  by (auto simp: MAX_CLOCK_SKEW_MS_def REPLAY_WINDOW_def)

text \<open>An arrival: what is received, when, and what it carries.\<close>

record 'k arrival =
  ar_env :: "'k env"
  ar_seq :: int
  ar_stamp :: int
  ar_plain :: bytes
  ar_wire :: bytes

definition arrival_ok :: "'k crypto \<Rightarrow> bytes \<Rightarrow> session \<Rightarrow> 'k arrival \<Rightarrow> bool" where
  "arrival_ok C a sb x \<longleftrightarrow> carries C a sb (ar_seq x) (ar_stamp x) (ar_plain x) (ar_wire x) \<and>
     \<bar>env_replay (ar_env x) - ar_stamp x\<bar> \<le> 30000"

text \<open>Packets with distinct numbers in a range of 64 all pass the replay window, in any order.\<close>

lemma receive_all_ok:
  assumes "dict_get (dev_sessions db) a = Some sb" and "\<forall>x \<in> set xs. arrival_ok C a sb x"
    and "distinct (map ar_seq xs)" and "\<forall>x \<in> set xs. lo \<le> ar_seq x \<and> ar_seq x < lo + 64"
    and "\<forall>x \<in> set xs. ar_seq x \<notin> ses_peer_seq_window sb" and "ses_peer_max_seq sb < lo + 64"
  shows "\<exists>rs db'. receive_all C (map (\<lambda>x. (ar_env x, ar_wire x)) xs) (cb, pb, db) =
       Some (rs, (snd (accept_all (map (\<lambda>x. (ar_seq x, ar_plain x)) xs) cb), pb, db')) \<and>
     concat (map (\<lambda>r. delivered (fst r)) rs) = fst (accept_all (map (\<lambda>x. (ar_seq x, ar_plain x)) xs) cb) \<and>
     (xs \<noteq> [] \<longrightarrow> rs \<noteq> [] \<and> snd (last rs) =
        SlidingWindow_build_sack (snd (accept_all (map (\<lambda>x. (ar_seq x, ar_plain x)) xs) cb)))"
  using assms
proof (induction xs arbitrary: cb db sb)
  case (Cons x xs)
  obtain out cb1 where acc: "SlidingWindow_accept (ar_seq x) (ar_plain x) cb = (out, cb1)" by (meson surj_pair)
  have x: "carries C a sb (ar_seq x) (ar_stamp x) (ar_plain x) (ar_wire x)"
    "\<bar>env_replay (ar_env x) - ar_stamp x\<bar> \<le> 30000"
    using Cons.prems(2) by (auto simp: arrival_ok_def)
  have fresh: "replay_fresh (ar_seq x) sb" using Cons.prems(4-6) by auto
  let ?s = "snd (Session_check_replay (env_replay (ar_env x)) (ar_seq x) (ar_stamp x) sb)"
  note r = sw_receive_carried [OF x(1) Cons.prems(1) fresh x(2) acc, of pb]
  note st = replay_step [OF fresh x(2)]
  have ok: "\<forall>y \<in> set xs. arrival_ok C a ?s y"
    using Cons.prems(2) carries_keys [of C a sb _ _ _ _ ?s] by (auto simp: arrival_ok_def)
  have unseen: "ar_seq y \<notin> ses_peer_seq_window ?s" if "y \<in> set xs" for y
  proof -
    have "ar_seq y \<noteq> ar_seq x" using that Cons.prems(3) by (metis distinct.simps(2) image_eqI list.set_map list.simps(9))
    then show ?thesis using that st(1) Cons.prems(5) by auto
  qed
  have top: "ses_peer_max_seq ?s < lo + 64" using st(2) Cons.prems(4,6) by simp
  obtain rs db' where ih: "receive_all C (map (\<lambda>x. (ar_env x, ar_wire x)) xs) (cb1, pb, put_session a ?s db) =
       Some (rs, (snd (accept_all (map (\<lambda>x. (ar_seq x, ar_plain x)) xs) cb1), pb, db'))"
     "concat (map (\<lambda>r. delivered (fst r)) rs) = fst (accept_all (map (\<lambda>x. (ar_seq x, ar_plain x)) xs) cb1)"
     "xs \<noteq> [] \<longrightarrow> rs \<noteq> [] \<and> snd (last rs) =
        SlidingWindow_build_sack (snd (accept_all (map (\<lambda>x. (ar_seq x, ar_plain x)) xs) cb1))"
    using Cons.IH [of "put_session a ?s db" ?s cb1] ok unseen top Cons.prems(3,4) by auto
  have e: "receive_all C (map (\<lambda>x. (ar_env x, ar_wire x)) (x # xs)) (cb, pb, db) =
      Some ((out, SlidingWindow_build_sack cb1) # rs,
        (snd (accept_all (map (\<lambda>x. (ar_seq x, ar_plain x)) (x # xs)) cb), pb, db'))"
    using r ih(1) acc by (simp add: case_prod_beta)
  show ?case
    unfolding e using ih(1,2,3) acc by (cases "xs = []") (auto simp: case_prod_beta)
qed simp

lemma upto_index: "[n..n + int k - 1] = map (\<lambda>i. n + int i) [0..<k]"
proof (induction k)
  case (Suc k)
  have "[n..n + int (Suc k) - 1] = [n..n + int k - 1] @ [n + int k]" by (simp add: upto_rec2)
  then show ?case using Suc by simp
qed simp

text \<open>When the arrivals leave no gap, everything has been delivered and nothing is buffered.\<close>

lemma accept_all_complete:
  assumes inv: "recv_inv s0 m c" "dict_ok qs" "\<forall>q \<in> fst ` set qs. m q = None"
    and dom: "dom (m ++ map_of qs) = {s0..<n}"
  shows "\<exists>out c'. accept_all qs c = (out, c') \<and> sw_recv_next c' = n - 1 \<and> sw_recv_buffer c' = [] \<and>
     stream s0 (n - 1) (m ++ map_of qs) = stream s0 (sw_recv_next c) m @ out"
proof -
  obtain out c' where r: "accept_all qs c = (out, c')" "recv_inv s0 (m ++ map_of qs) c'"
    "stream s0 (sw_recv_next c') (m ++ map_of qs) = stream s0 (sw_recv_next c) m @ out"
    using accept_all_inv [OF inv] map_of_reversed [OF inv(2)] by auto
  have "sw_recv_next c' \<in> dom (m ++ map_of qs)" "sw_recv_next c' + 1 \<notin> dom (m ++ map_of qs)" "s0 \<le> sw_recv_next c'"
    using r(2) unfolding recv_inv_def by (auto simp: domIff)
  then have n: "sw_recv_next c' = n - 1" unfolding dom by auto
  have "dict_get (sw_recv_buffer c') q = None" for q
  proof -
    have "q \<notin> dom (m ++ map_of qs)" if "q > sw_recv_next c'" using that n unfolding dom by simp
    then have "(m ++ map_of qs) q = None" if "q > sw_recv_next c'" using that by (simp only: domIff not_not)
    then show ?thesis using r(2) unfolding recv_inv_def by presburger
  qed
  then have "sw_recv_buffer c' = []" by (metis dict_get_None list.set_intros(1) list.simps(9) neq_Nil_conv)
  then show ?thesis using r(1,3) n by auto
qed

text \<open>A channel that waits for the number \<open>n\<close>, with nothing buffered, delivers a complete burst; a new channel
  does so if the burst arrives with its first packet first.\<close>

lemma burst_accepted_new:
  assumes "dict_ok ((n, b) # qs)" and "fst ` set ((n, b) # qs) = {n..<n + int k}" and "0 \<le> n"
    and "sw_recv_buffer c = []" and "sw_recv_next c = -1"
  shows "\<exists>c'. accept_all ((n, b) # qs) c = (stream n (n + int k - 1) (map_of ((n, b) # qs)), c') \<and>
     sw_recv_next c' = n + int k - 1 \<and> sw_recv_buffer c' = []"
proof -
  let ?c = "c\<lparr>sw_recv_next := n\<rparr>"
  have first: "SlidingWindow_accept n b c = (Some b, ?c)" "recv_inv n [n \<mapsto> b] ?c"
    using accept_first [OF assms(5,4,3)] by blast+
  have m: "[n \<mapsto> b] ++ map_of qs = map_of ((n, b) # qs)"
    using arrivals_map [OF assms(1)] map_of_reversed [of qs] assms(1) by simp
  have "dom ([n \<mapsto> b] ++ map_of qs) = {n..<n + int k}"
    unfolding m using assms(2) by (simp only: dom_map_of_conv_image_fst)
  moreover have "dict_ok qs" "\<forall>q \<in> fst ` set qs. [n \<mapsto> b] q = None" using assms(1) by auto
  ultimately obtain out c' where r: "accept_all qs ?c = (out, c')" "sw_recv_next c' = n + int k - 1" "sw_recv_buffer c' = []"
    "stream n (n + int k - 1) ([n \<mapsto> b] ++ map_of qs) = stream n (sw_recv_next ?c) [n \<mapsto> b] @ out"
    using accept_all_complete [OF first(2)] by metis
  have "accept_all ((n, b) # qs) c = (b @ out, c')" using first(1) r(1) by (simp add: delivered_def)
  moreover have "stream n (n + int k - 1) (map_of ((n, b) # qs)) = b @ out"
    using r(4) unfolding m by (simp add: stream_def)
  ultimately show ?thesis using r(2,3) by metis
qed

lemma burst_accepted_next:
  assumes "dict_ok ps" and "fst ` set ps = {n..<n + int k}" and "0 < k" and "sw_recv_buffer c = []"
    and "0 \<le> sw_recv_next c" and "sw_recv_next c + 1 = n"
  shows "\<exists>c'. accept_all ps c = (stream n (n + int k - 1) (map_of ps), c') \<and>
     sw_recv_next c' = n + int k - 1 \<and> sw_recv_buffer c' = []"
proof -
  let ?m = "[n - 1 \<mapsto> []] :: int \<Rightarrow> bytes option"
  have "recv_inv (n - 1) ?m c" using assms(4-6) by (auto simp: recv_inv_def)
  moreover have "dom (?m ++ map_of ps) = {n - 1..<n + int k}"
    using assms(2,3) by (auto simp: dom_map_of_conv_image_fst)
  moreover have "\<forall>q \<in> fst ` set ps. ?m q = None" using assms(2) by auto
  ultimately obtain out c' where r: "accept_all ps c = (out, c')" "sw_recv_next c' = n + int k - 1" "sw_recv_buffer c' = []"
    "stream (n - 1) (n + int k - 1) (?m ++ map_of ps) = stream (n - 1) (sw_recv_next c) ?m @ out"
    using accept_all_complete [OF _ assms(1)] by metis
  have "map_of ps (n - 1) = None" using assms(2) by (simp add: dict_get_None)
  then have "(?m ++ map_of ps) (n - 1) = Some []" by (simp add: map_add_def)
  moreover have "stream n (n + int k - 1) (?m ++ map_of ps) = stream n (n + int k - 1) (map_of ps)"
    by (rule stream_cong) (simp add: map_add_def split: option.splits)
  ultimately have "stream (n - 1) (n + int k - 1) (?m ++ map_of ps) = stream n (n + int k - 1) (map_of ps)"
    using stream_first [of "n - 1" "n + int k - 1" "?m ++ map_of ps"] by simp
  moreover have "stream (n - 1) (sw_recv_next c) ?m = []" using assms(6) by (auto simp: stream_def)
  ultimately show ?thesis using r by simp
qed

lemma burst_accepted:
  assumes "dict_ok ps" and "fst ` set ps = {n..<n + int k}" and "0 < k" and "0 \<le> n" and "sw_recv_buffer c = []"
    and "sw_recv_next c = -1 \<and> fst (hd ps) = n \<or> 0 \<le> sw_recv_next c \<and> sw_recv_next c + 1 = n"
  shows "\<exists>c'. accept_all ps c = (stream n (n + int k - 1) (map_of ps), c') \<and> sw_recv_next c' = n + int k - 1 \<and>
     sw_recv_buffer c' = []"
  using assms(6)
proof
  assume new: "sw_recv_next c = -1 \<and> fst (hd ps) = n"
  then obtain b qs where "ps = (n, b) # qs" using assms(2,3) by (cases ps) auto
  then show ?thesis using burst_accepted_new [of n b qs k c] assms(1,2,4,5) new by simp
next
  assume "0 \<le> sw_recv_next c \<and> sw_recv_next c + 1 = n"
  then show ?thesis using burst_accepted_next [OF assms(1-3,5)] by simp
qed

text \<open>The arrivals of a burst: indices into the list of sent packets, with the circumstances of reception.\<close>

abbreviation burst :: "int \<Rightarrow> (nat \<Rightarrow> bytes) \<Rightarrow> (nat \<times> 'k env) list \<Rightarrow> (int \<times> bytes) list" where
  "burst n plain order \<equiv> map (\<lambda>x. (n + int (fst x), plain (fst x))) order"

lemma burst_keys:
  assumes "distinct (map fst order)" and "set (map fst order) = {..<k}"
  shows "dict_ok (burst n plain order)" and "fst ` set (burst n plain order) = {n..<n + int k}"
proof -
  have keys: "dict_keys (burst n plain order) = map (\<lambda>i. n + int i) (map fst order)" by simp
  show "dict_ok (burst n plain order)"
    unfolding keys using assms(1) by (subst distinct_map) (simp add: inj_on_def)
  have "(\<lambda>i. n + int i) ` {..<k} = {n..<n + int k}"
    by (auto simp: image_iff intro!: bexI [of _ "nat (_ - n)"])
  then show "fst ` set (burst n plain order) = {n..<n + int k}"
    using arg_cong [OF keys, of set] assms(2) by (simp only: list.set_map)
qed

lemma burst_stream:
  assumes "distinct (map fst order)" and "set (map fst order) = {..<k}"
  shows "stream n (n + int k - 1) (map_of (burst n plain order)) = concat (map plain [0..<k])"
proof -
  have "map_of (burst n plain order) (n + int i) = Some (plain i)" if i: "i < k" for i
  proof -
    have "i \<in> fst ` set order" using i assms(2) by simp
    then obtain x where "x \<in> set order" "fst x = i" by blast
    then show ?thesis by (intro map_of_is_SomeI [OF burst_keys(1) [OF assms]]) force
  qed
  then show ?thesis
    unfolding stream_def upto_index map_map by (intro arg_cong [of _ _ concat] map_cong) simp_all
qed

lemma burst_received:
  assumes ses: "dict_get (dev_sessions db) a = Some sb"
    and car: "\<forall>i < k. carries C a sb (n + int i) (stamp i) (plain i) (wires ! i)"
    and order: "distinct (map fst order)" "set (map fst order) = {..<k}" "0 < k" "k \<le> 64"
    and time: "\<forall>x \<in> set order. \<bar>env_replay (snd x) - stamp (fst x)\<bar> \<le> 30000"
    and window: "\<forall>q \<in> ses_peer_seq_window sb. q < n" "ses_peer_max_seq sb \<le> n"
  shows "\<exists>rs db'. receive_all C (map (\<lambda>x. (snd x, wires ! fst x)) order) (cb, pb, db) =
       Some (rs, (snd (accept_all (burst n plain order) cb), pb, db')) \<and>
     concat (map (\<lambda>r. delivered (fst r)) rs) = fst (accept_all (burst n plain order) cb) \<and>
     snd (last rs) = SlidingWindow_build_sack (snd (accept_all (burst n plain order) cb))"
proof -
  define arr where "arr = map (\<lambda>x. \<lparr>ar_env = snd x, ar_seq = n + int (fst x), ar_stamp = stamp (fst x),
      ar_plain = plain (fst x), ar_wire = wires ! fst x\<rparr>) order"
  have e: "map (\<lambda>x. (snd x, wires ! fst x)) order = map (\<lambda>x. (ar_env x, ar_wire x)) arr"
    "burst n plain order = map (\<lambda>x. (ar_seq x, ar_plain x)) arr"
    "map ar_seq arr = dict_keys (burst n plain order)"
    by (simp_all add: arr_def)
  have index: "fst x < k" if "x \<in> set order" for x using that order(2) by force
  have ne: "arr \<noteq> []" using order(2,3) by (auto simp: arr_def)
  have "\<forall>x \<in> set arr. arrival_ok C a sb x"
    using car time index by (auto simp: arr_def arrival_ok_def)
  moreover have "distinct (map ar_seq arr)" unfolding e(3) by (rule burst_keys(1) [OF order(1,2)])
  moreover have "\<forall>x \<in> set arr. n \<le> ar_seq x \<and> ar_seq x < n + 64" using index order(4) by (force simp: arr_def)
  moreover have "\<forall>x \<in> set arr. ar_seq x \<notin> ses_peer_seq_window sb" using window(1) by (force simp: arr_def)
  moreover have "ses_peer_max_seq sb < n + 64" using window(2) by simp
  ultimately show ?thesis
    unfolding e(1,2) using receive_all_ok [OF ses, of arr C n cb pb] ne by blast
qed

section \<open>Acknowledgement packets\<close>

lemma build_sack_ack_ok:
  assumes laws: "crypto_laws C" and wf: "device_wf C db" and share: "share_session db sb da sa"
    and peer: "pr_peer_id p = Some (dev_device_id da)" and v: "env_ok v" and f: "sack_wf f"
    and seq: "ses_local_sequence sb < 2 ^ 32"
  obtains ack bs where "SlidingWindow_build_sack_ack C v f (p, db) =
       (Inr ack, (p, put_session (dev_device_id da) (drawn_next sb) db))"
    and "wire_seq ack = ses_local_sequence sb" and "SackFrame_encode f = Inr bs"
    and "carries C (dev_device_id db) sa (ses_local_sequence sb) (env_stamp v) bs ack"
proof -
  obtain bs where bs: "SackFrame_encode f = Inr bs" using sack_codec.enc_total [OF f] by blast
  have len: "length bs = 7 + 8 * length (sf_blocks f)"
    using bs encode_layout [OF f] header_fields(1) [OF f] length_blocks [of "sf_blocks f"] by auto
  then have small: "int (length bs) < 2 ^ 31" using f by (simp add: sack_wf_def)
  have v': "length (env_nonce v) = 12" "clock_ok (env_stamp v)" "ses_local_sequence sb < 256 ^ 4" using v seq by simp_all
  let ?d = "put_session (dev_device_id da) (drawn_next sb) db"
  obtain q c t where b: "build_sealed C (if False then by_mac C else by_signature C) (env_stamp v) (env_nonce v) ACK
      (if False then 5 else 1) (dev_device_id da) bs db = (Inr q, ?d)"
    and q: "q = sealed_packet ACK (if False then 5 else 1) (dev_device_id db) (dev_device_id da)
      (ses_local_sequence sb) (env_nonce v) (env_stamp v) c t"
    and w: "packet_wf q" and dec: "crypto_decrypt C (ses_session_key sb) (env_nonce v) c [] = Inr bs"
    and au: "session_authentic C sa q = Inr True"
    by (rule sealed_built [OF laws wf share v'(1) small v'(2,3), of False ACK])
  obtain wire where wire: "Packet_to_bytes q = Inr wire" using packet_codec.enc_total [OF w] by blast
  have "wire_seq wire = ses_local_sequence sb" using wire_sequence [OF w wire] by (simp add: wire_seq_def q)
  moreover have "carries C (dev_device_id db) sa (ses_local_sequence sb) (env_stamp v) bs wire"
    unfolding carries_def using w wire au dec share by (intro exI [of _ q]) (simp add: q share_session_def)
  moreover have "SlidingWindow_build_sack_ack C v f (p, db) = (Inr wire, (p, ?d))"
    using peer bs b wire share
    by (simp add: SlidingWindow_build_sack_ack_def Device_get_session_def share_session_def FLAG_ENCRYPTED_def)
  ultimately show ?thesis using that bs by blast
qed

text \<open>The frame after a complete burst acknowledges all of it.\<close>

lemma complete_sack:
  assumes "sw_recv_next cb = n + int k - 1" and "sw_recv_buffer cb = []" and "0 \<le> n" and "0 < k" and "n + int k \<le> 2 ^ 32"
    and "set (dict_keys (sw_send_window ca)) = {n..<n + int k}"
  shows "sack_wf (SlidingWindow_build_sack cb)"
    and "SlidingWindow_in_flight (snd (SlidingWindow_process_sack (SlidingWindow_build_sack cb) ca)) = 0"
proof -
  have f: "SlidingWindow_build_sack cb = \<lparr>sf_cum_ack = n + int k - 1, sf_blocks = []\<rparr>"
    using assms(1-4) by (simp add: SlidingWindow_build_sack_def)
  show "sack_wf (SlidingWindow_build_sack cb)" using assms(3-5) by (simp add: f sack_wf_def u32_def)
  have "fst x \<in> {0..n + int k - 1}" if "x \<in> set (sw_send_window ca)" for x
  proof -
    have "fst x \<in> {n..<n + int k}" using that unfolding assms(6) [symmetric] by simp
    then show ?thesis using assms(3) by simp
  qed
  then show "SlidingWindow_in_flight (snd (SlidingWindow_process_sack (SlidingWindow_build_sack cb) ca)) = 0"
    by (simp add: process_sack_window filter_empty_conv all_acked_blocks f SlidingWindow_in_flight_def)
qed

text \<open>Without the number that the channel waits for, nothing is delivered.\<close>

lemma accept_all_stalls:
  assumes "0 \<le> sw_recv_next c" and "sw_recv_next c + 1 \<notin> fst ` set ps"
  shows "fst (accept_all ps c) = []"
  using assms
proof (induction ps arbitrary: c)
  case (Cons x ps)
  obtain q b where x: "x = (q, b)" by fastforce
  have "\<exists>c'. SlidingWindow_accept q b c = (None, c') \<and> sw_recv_next c' = sw_recv_next c"
    using Cons.prems x by (auto simp: SlidingWindow_accept_def)
  then obtain c' where c': "SlidingWindow_accept q b c = (None, c')" "sw_recv_next c' = sw_recv_next c" by blast
  then show ?case using Cons.IH [of c'] Cons.prems x by (simp add: case_prod_beta delivered_def)
qed simp

section \<open>Properties\<close>

text \<open>A burst arrives. Two devices share a session; the sender's channel has room for the burst, of at most 64
  packets, and the packets reach the other device in any order, in time.\<close>

lemma burst_transferred:
  assumes "crypto_laws C" and "device_wf C da" and "share_session da sa db sb"
    and "pr_peer_id pa = Some (dev_device_id db)" and "sw_use_mac ca \<or> pr_state pa = ESTABLISHED"
    and "sw_send_window ca = []" and "xs \<noteq> []" and "length xs \<le> 64" and "int (length xs) \<le> sw_window_size ca"
    and "\<forall>(v, now, plain) \<in> set xs. 0 < env_stamp v \<and> env_stamp v < 256 ^ 8 \<and> length (env_nonce v) = 12 \<and>
       int (length plain) < 2 ^ 31"
    and "ses_local_sequence sa + int (length xs) \<le> 2 ^ 32"
    and "\<forall>q \<in> ses_peer_seq_window sb. q < ses_local_sequence sa" and "ses_peer_max_seq sb \<le> ses_local_sequence sa"
    and "distinct (map fst order)" and "set (map fst order) = {..<length xs}"
    and "\<forall>x \<in> set order. \<bar>env_replay (snd x) - env_stamp (fst (xs ! fst x))\<bar> \<le> 30000"
    and "sw_recv_buffer cb = []" and "sw_recv_next cb = -1 \<and> fst (hd order) = 0 \<or>
       0 \<le> sw_recv_next cb \<and> sw_recv_next cb + 1 = ses_local_sequence sa"
  obtains wires ca' da' rs cb' db' where "send_all C xs (ca, pa, da) = Some (wires, (ca', pa, da'))"
    and "SlidingWindow_in_flight ca' = length xs"
    and "receive_all C (map (\<lambda>x. (snd x, wires ! fst x)) order) (cb, pb, db) = Some (rs, (cb', pb, db'))"
    and "concat (map (\<lambda>r. delivered (fst r)) rs) = concat (map (\<lambda>x. snd (snd x)) xs)"
    and "sack_wf (snd (last rs))" and "SlidingWindow_in_flight (snd (SlidingWindow_process_sack (snd (last rs)) ca')) = 0"
proof -
  let ?n = "ses_local_sequence sa" and ?k = "length xs" and ?a = "dev_device_id da"
  obtain wires ca' da' where sent: "send_all C xs (ca, pa, da) = Some (wires, (ca', pa, da'))"
    and car: "\<forall>i < ?k. carries C ?a sb (?n + int i) (env_stamp (fst (xs ! i))) (snd (snd (xs ! i))) (wires ! i)"
    and win: "set (dict_keys (sw_send_window ca')) = {?n..<?n + int ?k}" "SlidingWindow_in_flight ca' = ?k"
    using send_all_ok [OF assms(1,4,2,3,5), of xs] assms(6-11)
    by (fastforce simp: SlidingWindow_in_flight_def)
  have ses: "dict_get (dev_sessions db) ?a = Some sb" "dict_get (dev_sessions da) (dev_device_id db) = Some sa"
    using assms(3) by (simp_all add: share_session_def)
  have n0: "0 \<le> ?n" using device_session_wf [OF assms(2) ses(2)] by (simp add: session_wf_def)
  let ?ps = "burst ?n (\<lambda>i. snd (snd (xs ! i))) order"
  have k: "0 < ?k" "order \<noteq> []" using assms(7,15) by auto
  obtain rs db' where rcv: "receive_all C (map (\<lambda>x. (snd x, wires ! fst x)) order) (cb, pb, db) =
      Some (rs, (snd (accept_all ?ps cb), pb, db'))"
    "concat (map (\<lambda>r. delivered (fst r)) rs) = fst (accept_all ?ps cb)"
    "snd (last rs) = SlidingWindow_build_sack (snd (accept_all ?ps cb))"
    using burst_received [OF ses(1) car assms(14,15) k(1) assms(8) _ assms(12,13), of cb pb] assms(16) by blast
  obtain cb' where cb': "accept_all ?ps cb = (stream ?n (?n + int ?k - 1) (map_of ?ps), cb')"
    "sw_recv_next cb' = ?n + int ?k - 1" "sw_recv_buffer cb' = []"
    using burst_accepted [OF burst_keys(1) [OF assms(14,15)] burst_keys(2) [OF assms(14,15)] k(1) n0 assms(17),
        where plain1 = "\<lambda>i. snd (snd (xs ! i))" and plain2 = "\<lambda>i. snd (snd (xs ! i))"] assms(18) k(2)
    by (auto simp: hd_map)
  have "map (\<lambda>i. snd (snd (xs ! i))) [0..<?k] = map (\<lambda>x. snd (snd x)) xs" by (rule nth_equalityI) simp_all
  then have data: "concat (map (\<lambda>r. delivered (fst r)) rs) = concat (map (\<lambda>x. snd (snd x)) xs)"
    using rcv(2) cb'(1) burst_stream [OF assms(14,15), of ?n "\<lambda>i. snd (snd (xs ! i))"] by simp
  show ?thesis
    by (rule that [OF sent win(2) rcv(1) data])
       (use complete_sack [OF cb'(2,3) n0 k(1) assms(11) win(1)] rcv(3) cb'(1) in simp_all)
qed

text \<open>C34: a packet that arrives again is not acknowledged again. Once the channel has accepted a packet, a
  second arrival of the same bytes raises instead of returning a SACK frame, whatever the device has done in
  between short of replacing or removing the session, and leaves the channel as it is. So when an
  acknowledgement gets lost, no retransmission can replace it.\<close>

theorem duplicate_not_acknowledged:
  assumes "device_wf C d" and "SlidingWindow_receive C v raw (c, (p, d)) = (Inr (out, sack), (c1, (p1, d1)))"
    and "Packet_from_bytes (env_parse v) raw = Inr packet" and "pkt_ptype packet \<noteq> HELLO"
    and "\<forall>x \<in> set xs. keeps_session (pkt_sender_id packet) x"
  shows "\<exists>e d2. SlidingWindow_receive C v' raw (c', (p', device_run C xs d1)) = (Inl e, (c', (p', d2)))"
proof -
  obtain q d' where r: "Device_receive_packet C (env_parse v) (env_replay v) raw d = (Inr q, d')"
    using assms(2) by (cases "Device_receive_packet C (env_parse v) (env_replay v) raw d")
      (auto simp: SlidingWindow_receive_def split: sum.splits)
  have q: "q = packet" using receive_packet_parses [OF r] assms(3) by simp
  obtain plain where dec: "Device_decrypt_packet C d' q = Inr plain"
    using assms(2) r by (cases "Device_decrypt_packet C d' q") (simp_all add: SlidingWindow_receive_def)
  have d1: "d1 = d'" using assms(2) r dec by (simp add: SlidingWindow_receive_def case_prod_beta)
  have ses: "dict_get (dev_sessions d) (pkt_sender_id q) \<noteq> None"
  proof (cases rule: receive_packet_cases [where C = C and n = "env_parse v" and m = "env_replay v" and raw = raw and d = d])
    case (pending p' k)
    then have "d' = d" "p' = q" using r by simp_all
    then show ?thesis
      using dec pending(3) by (auto simp: Device_decrypt_packet_def Device_get_session_def)
  qed (use r assms(3,4) receive_packet_parses [OF r] in auto)
  have "has_seen (pkt_sender_id packet) (pkt_sequence packet) (device_run C xs d1)"
    using receive_marks_seen(1) [OF assms(1) r _ ses] assms(4,5) has_seen_run q d1 by simp
  moreover obtain q' where q': "Packet_from_bytes (env_parse v') raw = Inr q'" "pkt_sender_id q' = pkt_sender_id packet"
    "pkt_sequence q' = pkt_sequence packet" "pkt_ptype q' = pkt_ptype packet"
    using parse_clock [OF assms(3)] by blast
  ultimately obtain e where "fst (Device_receive_packet C (env_parse v') (env_replay v') raw (device_run C xs d1)) = Inl e"
    using has_seen_refused [OF _ q'(1)] assms(4) by metis
  then show ?thesis
    by (cases "Device_receive_packet C (env_parse v') (env_replay v') raw (device_run C xs d1)")
       (simp add: SlidingWindow_receive_def)
qed

theorem duplicate_not_acknowledged_witness:
  "\<exists>wire out sack c1 d1 e d2. SlidingWindow_receive toy quiet wire (SlidingWindow_new 64 200 8000 5 False, (up id_a, dev_b))
       = (Inr (out, sack), (c1, (up id_a, d1))) \<and>
     SlidingWindow_receive toy quiet wire (c1, (up id_a, device_run toy [] d1)) = (Inl e, (c1, (up id_a, d2)))"
proof -
  let ?c = "SlidingWindow_new 64 200 8000 5 False"
  obtain wire where w: "carries toy (dev_device_id dev_a) (end_ab id_a key_a) (ses_local_sequence (end_ab id_b key_b))
      (env_stamp quiet) [1] wire"
    by (rule channel_wire_carries [OF toy_laws dev_a_wf dev_ab_share, of "up id_b" False quiet "[1]"])
       (simp_all add: dev_ids quiet_def end_ab_def)
  obtain out c1 where "SlidingWindow_accept 0 [1] ?c = (out, c1)" by (meson surj_pair)
  then obtain d1 where r: "SlidingWindow_receive toy quiet wire (?c, (up id_a, dev_b))
      = (Inr (out, SlidingWindow_build_sack c1), (c1, (up id_a, d1)))"
    using sw_receive_carried [OF w, of dev_b quiet ?c out c1 "up id_a"] dev_sessions_ab
    by (simp add: dev_ids quiet_def end_ab_def)
  obtain p where p: "packet_wf p" "Packet_to_bytes p = Inr wire" "pkt_ptype p \<noteq> HELLO"
    using w by (auto simp: carries_def)
  have "Packet_from_bytes (env_parse quiet) wire = Inr p" by (rule packet_codec.dec_enc [OF p(1,2)])
  then show ?thesis
    using duplicate_not_acknowledged [OF dev_b_wf r _ p(3), of "[]" quiet c1 "up id_a"] r by simp blast
qed

text \<open>C35: acknowledgements leave gaps in the data. An ACK packet draws its number from the same counter as the
  data. When a device has sent an acknowledgement with number \<open>n\<close>, its next data packet has number \<open>n + 1\<close>.
  A peer whose channel has delivered everything up to \<open>n - 1\<close> and that hands only data packets to the channel
  withholds this packet and everything after it: whatever arrives, as long as \<open>n\<close> does not, the
  application receives nothing more.\<close>

theorem ack_leaves_gap:
  assumes "crypto_laws C" and "device_wf C db" and "share_session db sb da sa"
    and "pr_peer_id pb = Some (dev_device_id da)" and "pr_state pb = ESTABLISHED"
    and "0 < env_stamp v \<and> env_stamp v < 256 ^ 8" and "length (env_nonce v) = 12"
    and "sack_wf f"
    and "ses_local_sequence sb + 1 < 2 ^ 32" and "int (length plain) < 2 ^ 31" and "SlidingWindow_can_send cb"
    and "0 \<le> sw_recv_next ca" and "sw_recv_next ca + 1 = ses_local_sequence sb"
    and "ses_local_sequence sb \<notin> fst ` set ps"
  shows "\<exists>ack db1 wire cb' db2. SlidingWindow_build_sack_ack C v f (pb, db) = (Inr ack, (pb, db1)) \<and>
     wire_seq ack = ses_local_sequence sb \<and>
     SlidingWindow_send C v now plain (cb, (pb, db1)) = (Inr (Some (ses_local_sequence sb + 1, wire)), (cb', (pb, db2))) \<and>
     fst (SlidingWindow_accept (ses_local_sequence sb + 1) plain ca) = None \<and> fst (accept_all ps ca) = []"
proof -
  have v: "env_ok v" using assms(6,7) by simp
  let ?d = "put_session (dev_device_id da) (drawn_next sb) db"
  have share: "share_session ?d (drawn_next sb) da sa" by (rule share_session_sender [OF assms(3)]) simp
  have wf: "device_wf C ?d"
    using put_session_wf [OF assms(2) next_sequence_wf [OF device_session_wf [OF assms(2)]]]
      assms(3) by (simp add: share_session_def Session_next_sequence_def)
  have n: "ses_local_sequence sb < 2 ^ 32" "ses_local_sequence (drawn_next sb) < 2 ^ 32" using assms(9) by simp_all
  obtain ack bs where ack: "SlidingWindow_build_sack_ack C v f (pb, db) = (Inr ack, (pb, ?d))"
    "wire_seq ack = ses_local_sequence sb"
    by (rule build_sack_ack_ok [OF assms(1-4) v assms(8) n(1)])
  obtain wire where wire: "channel_wire C v (sw_use_mac cb) plain (pb, ?d) =
       (Inr wire, (pb, put_session (dev_device_id da) (drawn_next (drawn_next sb)) ?d))"
    "wire_seq wire = ses_local_sequence sb + 1"
    using channel_wire_carries [OF assms(1) wf share assms(4) _ v assms(10) n(2), of "sw_use_mac cb"] assms(5) by auto
  have "fst (SlidingWindow_accept (ses_local_sequence sb + 1) plain ca) = None"
    using assms(12,13) by (simp add: SlidingWindow_accept_def)
  moreover have "fst (accept_all ps ca) = []" using accept_all_stalls [OF assms(12)] assms(13,14) by simp
  ultimately show ?thesis
    using ack wire(2) send_ok [OF wire(1) assms(11), of now] by metis
qed

theorem ack_leaves_gap_witness:
  "\<exists>ack db1 wire cb' db2. SlidingWindow_build_sack_ack toy quiet \<lparr>sf_cum_ack = 3, sf_blocks = []\<rparr>
       (up id_a, put_session id_a (drawn_next (end_ab id_a key_a)) dev_b) = (Inr ack, (up id_a, db1)) \<and>
     wire_seq ack = 1 \<and>
     SlidingWindow_send toy quiet 0 [7] (SlidingWindow_new 64 200 8000 5 False, (up id_a, db1)) =
       (Inr (Some (2, wire)), (cb', (up id_a, db2))) \<and>
     fst (accept_all [(2, [7]), (3, [8])] ((SlidingWindow_new 64 200 8000 5 False)\<lparr>sw_recv_next := 0\<rparr>)) = []"
proof -
  let ?s = "drawn_next (end_ab id_a key_a)"
  let ?d = "put_session id_a ?s dev_b"
  have share: "share_session ?d ?s dev_a (end_ab id_b key_b)"
    using share_session_sender [OF share_session_sym [OF dev_ab_share], of ?s] by (simp add: dev_ids)
  have wf: "device_wf toy ?d"
    using put_session_wf [OF dev_b_wf next_sequence_wf [OF device_session_wf [OF dev_b_wf]], of id_a] dev_sessions_ab
    by (simp add: Session_next_sequence_def)
  show ?thesis
    using ack_leaves_gap [OF toy_laws wf share, of "up id_a" quiet "\<lparr>sf_cum_ack = 3, sf_blocks = []\<rparr>" "[7]"
        "SlidingWindow_new 64 200 8000 5 False" "(SlidingWindow_new 64 200 8000 5 False)\<lparr>sw_recv_next := 0\<rparr>"
        "[(2, [7]), (3, [8])]" 0]
    by (simp add: dev_ids quiet_def sack_wf_def u32_def end_ab_def SlidingWindow_can_send_def SlidingWindow_new_def) blast
qed

end
