(* ===== verification/Privacy.thy ===== *)
theory Privacy
  imports Bulk_Transfer
begin

text \<open>
  \<^verbatim>\<open>ztlnp/privacy.py\<close>: padding of plaintexts, timing jitter and cover traffic. What
  \<^verbatim>\<open>os.urandom\<close> returns is an argument: \<open>rnd n\<close> are \<open>n\<close> random bytes and \<open>draw\<close> is a
  single one. Floating-point numbers are reals.
\<close>

section \<open>Padding\<close>

definition MAX_PAD :: int where "MAX_PAD = 255"

datatype PaddingStrategy = PAD_NONE | PAD_FIXED | PAD_RANDOM | PAD_BLOCK

text \<open>
  The number of padding bytes, or \<open>None\<close> where the plaintext is returned as it is. Python's
  \<^verbatim>\<open>%\<close> takes the sign of the divisor, as \<open>mod\<close> does, and raises for zero.
\<close>

definition pad_length :: "PaddingStrategy \<Rightarrow> byte \<Rightarrow> int \<Rightarrow> int \<Rightarrow> int \<Rightarrow> int \<Rightarrow> int option result" where
  "pad_length strategy draw target block_size max_pad len =
     (case strategy of
        PAD_NONE \<Rightarrow> Inr None
      | PAD_FIXED \<Rightarrow>
          (let needed = target - len - 1
           in if needed \<le> 0 \<or> needed > MAX_PAD then Inr None else Inr (Some needed))
      | PAD_RANDOM \<Rightarrow>
          (let effective_max = min max_pad MAX_PAD
           in if effective_max \<le> 0 then Inr None
              else let pad_len = uint draw mod (effective_max + 1)
                   in if pad_len = 0 then Inr None else Inr (Some pad_len))
      | PAD_BLOCK \<Rightarrow>
          (if block_size = 0 then Inl ZeroDivisionError
           else let remainder = (len + 1) mod block_size
                in if remainder = 0 then Inr None
                   else let pad_len = block_size - remainder
                        in if pad_len > MAX_PAD then Inr None else Inr (Some pad_len)))"

definition pad_to_size ::
  "(nat \<Rightarrow> bytes) \<Rightarrow> byte \<Rightarrow> bytes \<Rightarrow> PaddingStrategy \<Rightarrow> int \<Rightarrow> int \<Rightarrow> int \<Rightarrow> (bytes \<times> bool) result" where
  "pad_to_size rnd draw plaintext strategy target block_size max_pad =
     (case pad_length strategy draw target block_size max_pad (int (length plaintext)) of
        Inl e \<Rightarrow> Inl e
      | Inr None \<Rightarrow> Inr (plaintext, False)
      | Inr (Some pad_len) \<Rightarrow>
          (if pad_len < 0 then Inl ValueError
           else Inr (plaintext @ rnd (nat pad_len) @ [word_of_int pad_len], True)))"

definition strip_padding :: "bytes \<Rightarrow> bytes result" where
  "strip_padding padded_plaintext =
     (if length padded_plaintext = 0 then Inl ValueError
      else let pad_len = unat (last padded_plaintext);
               total_remove = pad_len + 1
           in if total_remove > length padded_plaintext then Inl ValueError
              else Inr (take (length padded_plaintext - total_remove) padded_plaintext))"

section \<open>Timing jitter\<close>

text \<open>\<open>raw\<close> are the four random bytes.\<close>

definition random_jitter_ms :: "bytes \<Rightarrow> real \<Rightarrow> real" where
  "random_jitter_ms raw max_jitter_ms =
     (if max_jitter_ms \<le> 0 then 0 else of_int (be_int raw) / 0x100000000 * max_jitter_ms)"

text \<open>The value returned, and the seconds that the thread sleeps, if it does.\<close>

definition jitter_sleep :: "bytes \<Rightarrow> real \<Rightarrow> real \<times> real option" where
  "jitter_sleep raw max_jitter_ms =
     (let delay_ms = random_jitter_ms raw max_jitter_ms
      in (delay_ms, if delay_ms > 0 then Some (delay_ms / 1000) else None))"

section \<open>Cover traffic\<close>

record cover_traffic =
  cov_interval_ms :: real
  cov_cover_size :: int
  cov_use_mac :: bool
  cov_last_send_ms :: real

text \<open>\<open>now\<close> is the clock in seconds.\<close>

definition CoverTraffic_new :: "real \<Rightarrow> real \<Rightarrow> int \<Rightarrow> bool \<Rightarrow> cover_traffic" where
  "CoverTraffic_new now interval_ms cover_payload_size use_mac =
     \<lparr>cov_interval_ms = interval_ms, cov_cover_size = cover_payload_size, cov_use_mac = use_mac,
      cov_last_send_ms = now * 1000\<rparr>"

definition CoverTraffic_record_real_send :: "real \<Rightarrow> cover_traffic \<Rightarrow> cover_traffic" where
  "CoverTraffic_record_real_send now t = t\<lparr>cov_last_send_ms := now * 1000\<rparr>"

definition CoverTraffic_interval_ms :: "cover_traffic \<Rightarrow> real" where
  "CoverTraffic_interval_ms t = cov_interval_ms t"

definition CoverTraffic_maybe_send ::
  "'k crypto \<Rightarrow> 'k env \<Rightarrow> (nat \<Rightarrow> bytes) \<Rightarrow> real \<Rightarrow> (cover_traffic \<times> protocol \<times> 'k device, bytes option) pymethod" where
  "CoverTraffic_maybe_send C v rnd now = (\<lambda>(t, s).
     let now_ms = now * 1000
     in if now_ms - cov_last_send_ms t < cov_interval_ms t then (Inr None, (t, s))
        else if cov_cover_size t < 0 then (Inl ValueError, (t, s))
        else case channel_wire C v (cov_use_mac t) (rnd (nat (cov_cover_size t))) s of
               (Inl e, s') \<Rightarrow> (Inl e, (t, s'))
             | (Inr wire, s') \<Rightarrow> (Inr (Some wire), (t\<lparr>cov_last_send_ms := now_ms\<rparr>, s')))"

definition CoverTraffic_set_interval_ms :: "real \<Rightarrow> cover_traffic \<Rightarrow> unit result \<times> cover_traffic" where
  "CoverTraffic_set_interval_ms value t =
     (if value \<le> 0 then (Inl ValueError, t) else (Inr (), t\<lparr>cov_interval_ms := value\<rparr>))"

section \<open>Lemmas on padding\<close>

text \<open>The three ways a call can end.\<close>

lemma pad_to_size_cases:
  obtains (raised) e where "pad_to_size rnd draw pt st ts bs mp = Inl e"
  | (plain) "pad_length st draw ts bs mp (int (length pt)) = Inr None" and "pad_to_size rnd draw pt st ts bs mp = Inr (pt, False)"
  | (padded) n where "pad_length st draw ts bs mp (int (length pt)) = Inr (Some n)" and "0 \<le> n"
      and "pad_to_size rnd draw pt st ts bs mp = Inr (pt @ rnd (nat n) @ [word_of_int n], True)"
proof (cases "pad_length st draw ts bs mp (int (length pt))")
  case (Inl e)
  then show ?thesis using raised by (simp add: pad_to_size_def)
next
  case (Inr r)
  show ?thesis
  proof (cases r)
    case None
    then show ?thesis using plain Inr by (simp add: pad_to_size_def)
  next
    case (Some n)
    then show ?thesis using raised padded Inr by (cases "n < 0") (simp_all add: pad_to_size_def)
  qed
qed

text \<open>A padding has between 1 and 255 bytes, or the block size is negative.\<close>

lemma pad_length_range:
  assumes "pad_length st draw ts bs mp len = Inr (Some n)"
  shows "n \<le> 255 \<and> (1 \<le> n \<or> n < 0 \<and> st = PAD_BLOCK \<and> bs < 0)"
proof (cases st)
  case PAD_RANDOM
  let ?m = "min mp 255"
  have n: "n = uint draw mod (?m + 1)" "0 < ?m" "n \<noteq> 0"
    using assms PAD_RANDOM by (auto simp: pad_length_def MAX_PAD_def Let_def split: if_splits)
  have "n < ?m + 1" "0 \<le> n" unfolding n(1) using n(2) by (intro pos_mod_bound pos_mod_sign, simp)+
  then show ?thesis using n(3) by linarith
next
  case PAD_BLOCK
  then have n: "n = bs - (len + 1) mod bs" "bs \<noteq> 0" "n \<le> 255"
    using assms by (auto simp: pad_length_def MAX_PAD_def Let_def split: if_splits)
  show ?thesis
  proof (cases "0 < bs")
    case True
    show ?thesis using pos_mod_bound [OF True, of "len + 1"] n(1,3) by linarith
  next
    case False
    then have "bs < 0" using n(2) by simp
    then show ?thesis using neg_mod_bound [of bs "len + 1"] n(1,3) PAD_BLOCK by linarith
  qed
qed (use assms in \<open>auto simp: pad_length_def MAX_PAD_def Let_def split: if_splits\<close>)

lemma pad_length_raises:
  assumes "pad_length st draw ts bs mp len = Inl e"
  shows "st = PAD_BLOCK \<and> bs = 0"
  using assms by (cases st) (auto simp: pad_length_def Let_def split: if_splits)

lemma strip_padded:
  assumes "1 \<le> n" and "n \<le> 255" and "length pad = nat n"
  shows "strip_padding (pt @ pad @ [word_of_int n]) = Inr pt"
proof -
  have "unat (word_of_int n :: byte) = nat n"
    using assms(1,2) by (simp add: unat_eq_nat_uint uint_word_of_int)
  then show ?thesis using assms(3) by (simp add: strip_padding_def)
qed

section \<open>Properties\<close>

text \<open>C36: padding can be removed. When padding was added, stripping it returns the plaintext; when the flag says
  that none was added, the data is the plaintext itself; and the only errors are those of a block size that
  is zero or negative.\<close>

theorem padding_roundtrip:
  assumes "\<forall>n. length (rnd n) = n"
  shows "(\<forall>x. pad_to_size rnd draw pt st ts bs mp = Inr (x, True) \<longrightarrow> strip_padding x = Inr pt) \<and>
     (\<forall>x. pad_to_size rnd draw pt st ts bs mp = Inr (x, False) \<longrightarrow> x = pt) \<and>
     (\<forall>e. pad_to_size rnd draw pt st ts bs mp = Inl e \<longrightarrow> st = PAD_BLOCK \<and> bs \<le> 0)"
proof (cases rule: pad_to_size_cases [of rnd draw pt st ts bs mp])
  case (raised e)
  have "st = PAD_BLOCK \<and> bs \<le> 0"
    using raised pad_length_raises [of st draw ts bs mp "int (length pt)"] pad_length_range [of st draw ts bs mp "int (length pt)"]
    by (fastforce simp: pad_to_size_def split: sum.splits option.splits if_splits)
  then show ?thesis using raised by simp
next
  case (padded n)
  then show ?thesis
    using strip_padded [of n "rnd (nat n)" pt] pad_length_range [OF padded(1)] assms by auto
qed simp

theorem padding_roundtrip_witness:
  "pad_to_size (\<lambda>n. replicate n 9) 0 [1, 2, 3] PAD_BLOCK 256 8 255 = Inr ([1, 2, 3, 9, 9, 9, 9, 4], True) \<and>
   strip_padding [1, 2, 3, 9, 9, 9, 9, 4] = Inr [1, 2, 3]"
proof -
  have "pad_to_size (\<lambda>n. replicate n 9) 0 [1, 2, 3] PAD_BLOCK 256 8 255 = Inr ([1, 2, 3, 9, 9, 9, 9, 4], True)"
    by (simp add: pad_to_size_def pad_length_def MAX_PAD_def Let_def numeral_eq_Suc)
  then show ?thesis
    using padding_roundtrip [of "\<lambda>n. replicate n 9" 0 "[1, 2, 3]" PAD_BLOCK 256 8 255] by auto
qed

text \<open>The lengths that padding produces. Padding adds at least one byte, besides the byte for its length, and at
  most 255. The strategy FIXED reaches the target exactly, but only for plaintexts between 2 and 256 bytes
  shorter than it. The strategy BLOCK with a block size of up to 256 returns a multiple of the block size,
  except for plaintexts one byte short of a multiple: these are returned as they are, so that their length
  shows.\<close>

theorem padding_lengths:
  assumes "\<forall>n. length (rnd n) = n" and "pad_to_size rnd draw pt st ts bs mp = Inr (x, b)"
  shows "(b \<longrightarrow> length pt + 2 \<le> length x \<and> length x \<le> length pt + 256) \<and>
     (st = PAD_FIXED \<longrightarrow> (b \<longleftrightarrow> int (length pt) + 2 \<le> ts \<and> ts \<le> int (length pt) + 256) \<and> (b \<longrightarrow> int (length x) = ts)) \<and>
     (st = PAD_BLOCK \<and> 0 < bs \<and> bs \<le> 256 \<longrightarrow>
        int (length x) mod bs = (if int (length pt) mod bs = bs - 1 then bs - 1 else 0))"
proof -
  let ?l = "int (length pt)"
  have last: "(?l + 1) mod bs = 0 \<longleftrightarrow> ?l mod bs = bs - 1" if "0 < bs"
  proof -
    have "(?l + 1) mod bs = 0 \<longleftrightarrow> (?l + 1) mod bs = (bs - 1 + 1) mod bs" by simp
    also have "\<dots> \<longleftrightarrow> ?l mod bs = (bs - 1) mod bs" by (simp only: mod_eq_dvd_iff) (simp add: algebra_simps)
    finally show ?thesis using that by (simp add: zmod_minus1)
  qed
  show ?thesis
  proof (cases rule: pad_to_size_cases [of rnd draw pt st ts bs mp])
    case (raised e)
    then show ?thesis using assms(2) by simp
  next
    case plain
    have "(?l + 1) mod bs = 0" if "st = PAD_BLOCK" "0 < bs" "bs \<le> 256"
    proof (rule ccontr)
      assume r: "(?l + 1) mod bs \<noteq> 0"
      then have "0 < (?l + 1) mod bs" using pos_mod_sign [OF that(2), of "?l + 1"] by simp
      then show False using plain(1) that r by (simp add: pad_length_def MAX_PAD_def Let_def split: if_splits)
    qed
    then show ?thesis
      using plain assms(2) last by (auto simp: pad_length_def MAX_PAD_def Let_def split: if_splits)
  next
    case (padded n)
    have x: "b" "length x = length pt + nat n + 1" using padded(3) assms by auto
    have n: "1 \<le> n" "n \<le> 255" using pad_length_range [OF padded(1)] padded(2) by auto
    have "int (length x) mod bs = 0 \<and> (?l + 1) mod bs \<noteq> 0" if "st = PAD_BLOCK" "0 < bs"
    proof -
      have e: "n = bs - (?l + 1) mod bs" and r: "(?l + 1) mod bs \<noteq> 0"
        using padded(1) that by (auto simp: pad_length_def MAX_PAD_def Let_def split: if_splits)
      have "int (length x) = (?l + 1) - (?l + 1) mod bs + bs" using x(2) n(1) e by simp
      then show ?thesis using r by (simp add: minus_mod_eq_mult_div)
    qed
    moreover have "st = PAD_FIXED \<longrightarrow> n = ts - ?l - 1"
      using padded(1) by (auto simp: pad_length_def MAX_PAD_def Let_def split: if_splits)
    ultimately show ?thesis using x n last by auto
  qed
qed

theorem padding_lengths_witness:
  "\<exists>x y. pad_to_size (\<lambda>n. replicate n 0) 0 (replicate 62 1) PAD_BLOCK 256 64 255 = Inr (x, True) \<and>
     pad_to_size (\<lambda>n. replicate n 0) 0 (replicate 63 1) PAD_BLOCK 256 64 255 = Inr (y, False) \<and>
     int (length x) mod 64 = 0 \<and> int (length y) mod 64 = 63"
proof -
  let ?rnd = "\<lambda>n. replicate n 0"
  have x: "pad_to_size ?rnd 0 (replicate 62 1) PAD_BLOCK 256 64 255 = Inr (replicate 62 1 @ [0, 1], True)"
    and y: "pad_to_size ?rnd 0 (replicate 63 1) PAD_BLOCK 256 64 255 = Inr (replicate 63 1, False)"
    by (simp_all add: pad_to_size_def pad_length_def MAX_PAD_def)
  then show ?thesis
    using padding_lengths [OF _ x] padding_lengths [OF _ y] by simp
qed

text \<open>Stripping is wrong for data that was not padded. Stripping never returns its argument: it raises or
  removes at least one byte. So a receiver cannot strip without knowing whether the sender has padded, which
  the padded data itself does not tell.\<close>

theorem strip_never_identity:
  "strip_padding x = Inl ValueError \<or> (\<exists>y. strip_padding x = Inr y \<and> length y < length x)"
  by (cases "x = []") (auto simp: strip_padding_def Let_def)

text \<open>The jitter is within its bounds. The delay is not negative and less than the maximum, if that is
  positive; the thread sleeps for exactly the delay that is returned, and not at all if it is zero.\<close>

theorem jitter_bounds:
  assumes "length raw = 4"
  shows "\<exists>delay sleep. jitter_sleep raw max_jitter_ms = (delay, sleep) \<and> 0 \<le> delay \<and>
     (if max_jitter_ms > 0 then delay < max_jitter_ms else delay = 0) \<and>
     sleep = (if delay = 0 then None else Some (delay / 1000))"
proof -
  have "be_int raw < 256 ^ 4" "0 \<le> be_int raw" using be_int_range [OF assms] by simp_all
  then have r: "0 \<le> real_of_int (be_int raw) / 4294967296" "real_of_int (be_int raw) / 4294967296 < 1" by simp_all
  have "0 \<le> random_jitter_ms raw max_jitter_ms"
    using r(1) by (simp add: random_jitter_ms_def)
  moreover have "random_jitter_ms raw max_jitter_ms < max_jitter_ms" if "max_jitter_ms > 0"
    using mult_strict_right_mono [OF r(2) that] that by (simp add: random_jitter_ms_def)
  moreover have "random_jitter_ms raw max_jitter_ms = 0" if "\<not> max_jitter_ms > 0"
    using that by (simp add: random_jitter_ms_def)
  ultimately show ?thesis by (auto simp: jitter_sleep_def Let_def)
qed

theorem jitter_bounds_witness:
  "\<exists>delay sleep. jitter_sleep [128, 0, 0, 0] 10 = (delay, sleep) \<and> 0 \<le> delay \<and> delay < 10 \<and> sleep \<noteq> None"
proof -
  obtain delay sleep where j: "jitter_sleep [128, 0, 0, 0] 10 = (delay, sleep)" "0 \<le> delay" "delay < 10"
    "sleep = (if delay = 0 then None else Some (delay / 1000))"
    using jitter_bounds [of "[128, 0, 0, 0]" 10] by auto
  have "fst (jitter_sleep [128, 0, 0, 0] 10) = 5" by (simp add: jitter_sleep_def random_jitter_ms_def Let_def)
  then show ?thesis using j by (intro exI [of _ delay] exI [of _ sleep]) simp
qed

section \<open>Cover traffic over time\<close>

text \<open>Calls at the given times: a real packet is recorded, or cover traffic is asked for.\<close>

datatype 'k cov_event = RealSend real | MaybeSend "'k env" "nat \<Rightarrow> bytes" real

fun event_time :: "'k cov_event \<Rightarrow> real" where
  "event_time (RealSend now) = now"
| "event_time (MaybeSend v rnd now) = now"

text \<open>The packets that leave: whether each is a cover packet, and when.\<close>

fun cover_run :: "'k crypto \<Rightarrow> 'k cov_event list \<Rightarrow> cover_traffic \<times> protocol \<times> 'k device \<Rightarrow> (bool \<times> real) list" where
  "cover_run C [] s = []"
| "cover_run C (RealSend now # es) s = (False, now) # cover_run C es (CoverTraffic_record_real_send now (fst s), snd s)"
| "cover_run C (MaybeSend v rnd now # es) s =
     (case CoverTraffic_maybe_send C v rnd now s of
        (Inr (Some wire), s') \<Rightarrow> (True, now) # cover_run C es s'
      | (_, s') \<Rightarrow> cover_run C es s')"

lemma maybe_send_cases:
  obtains (sent) wire t' s' where "CoverTraffic_maybe_send C v rnd now (t, s) = (Inr (Some wire), (t', s'))"
    and "cov_interval_ms t \<le> now * 1000 - cov_last_send_ms t" and "t' = t\<lparr>cov_last_send_ms := now * 1000\<rparr>"
  | (silent) r s' where "CoverTraffic_maybe_send C v rnd now (t, s) = (r, (t, s'))" and "\<forall>w. r \<noteq> Inr (Some w)"
proof -
  obtain r s' where w: "channel_wire C v (cov_use_mac t) (rnd (nat (cov_cover_size t))) s = (r, s')" by (meson surj_pair)
  show thesis
  proof (cases "now * 1000 - cov_last_send_ms t < cov_interval_ms t \<or> cov_cover_size t < 0")
    case True
    then have "\<exists>r. CoverTraffic_maybe_send C v rnd now (t, s) = (r, (t, s)) \<and> (\<forall>w. r \<noteq> Inr (Some w))"
      by (auto simp: CoverTraffic_maybe_send_def Let_def)
    then show thesis using silent by blast
  next
    case False
    then show thesis using sent silent w by (cases r) (auto simp: CoverTraffic_maybe_send_def Let_def)
  qed
qed

lemma cover_run_spaced:
  assumes "sorted (map event_time es)" and "\<forall>e \<in> set es. cov_last_send_ms (fst s) \<le> event_time e * 1000"
  shows "\<forall>x \<in> set (cover_run C es s). fst x \<longrightarrow> cov_interval_ms (fst s) \<le> snd x * 1000 - cov_last_send_ms (fst s)"
    and "sorted_wrt (\<lambda>x y. fst y \<longrightarrow> cov_interval_ms (fst s) \<le> (snd y - snd x) * 1000) (cover_run C es s)"
proof -
  have "(\<forall>x \<in> set (cover_run C es s). fst x \<longrightarrow> cov_interval_ms (fst s) \<le> snd x * 1000 - cov_last_send_ms (fst s)) \<and>
    sorted_wrt (\<lambda>x y. fst y \<longrightarrow> cov_interval_ms (fst s) \<le> (snd y - snd x) * 1000) (cover_run C es s)"
    using assms
  proof (induction es arbitrary: s)
    case (Cons e es)
    have es: "sorted (map event_time es)" "\<forall>x \<in> set es. event_time e \<le> event_time x" using Cons.prems(1) by auto
    have l: "cov_last_send_ms (fst s) \<le> event_time e * 1000" using Cons.prems(2) by simp
    let ?t = "(fst s)\<lparr>cov_last_send_ms := event_time e * 1000\<rparr>"
    have step: "(\<forall>x \<in> set (cover_run C es (?t, r)). fst x \<longrightarrow> cov_interval_ms (fst s) \<le> (snd x - event_time e) * 1000) \<and>
      sorted_wrt (\<lambda>x y. fst y \<longrightarrow> cov_interval_ms (fst s) \<le> (snd y - snd x) * 1000) (cover_run C es (?t, r))" for r
      using Cons.IH [OF es(1), of "(?t, r)"] es(2) by (simp add: algebra_simps)
    have later: "fst x \<longrightarrow> cov_interval_ms (fst s) \<le> snd x * 1000 - cov_last_send_ms (fst s)"
      if "x \<in> set (cover_run C es (?t, r))" for x r
      using step [of r] that l by (fastforce simp: algebra_simps)
    show ?case
    proof (cases e)
      case (RealSend now)
      then show ?thesis using step later by (simp add: CoverTraffic_record_real_send_def)
    next
      case (MaybeSend v rnd now)
      show ?thesis
      proof (cases rule: maybe_send_cases [of C v rnd now "fst s" "snd s"])
        case (sent wire t' s')
        then show ?thesis using step later MaybeSend by simp
      next
        case (silent r s')
        then have "cover_run C (e # es) s = cover_run C es (fst s, s')"
          using MaybeSend by (auto split: sum.splits option.splits)
        then show ?thesis using Cons.IH [OF es(1), of "(fst s, s')"] Cons.prems(2) by simp
      qed
    qed
  qed simp
  then show "\<forall>x \<in> set (cover_run C es s). fst x \<longrightarrow> cov_interval_ms (fst s) \<le> snd x * 1000 - cov_last_send_ms (fst s)"
    and "sorted_wrt (\<lambda>x y. fst y \<longrightarrow> cov_interval_ms (fst s) \<le> (snd y - snd x) * 1000) (cover_run C es s)"
    by blast+
qed

text \<open>C37: cover packets keep their distance. Whatever is recorded and asked for, at times that do not decrease, every
  cover packet leaves at least the interval after every packet before it, real or cover, and after the
  creation of the generator.\<close>

theorem cover_spacing:
  assumes "sorted (map event_time es)" and "\<forall>e \<in> set es. t0 \<le> event_time e"
  shows "sorted_wrt (\<lambda>x y. fst y \<longrightarrow> interval_ms \<le> (snd y - snd x) * 1000)
     ((False, t0) # cover_run C es (CoverTraffic_new t0 interval_ms sz use_mac, s))"
  using cover_run_spaced [of es "(CoverTraffic_new t0 interval_ms sz use_mac, s)" C] assms
  by (simp add: CoverTraffic_new_def algebra_simps)

theorem cover_spacing_witness:
  "sorted_wrt (\<lambda>x y. fst y \<longrightarrow> 1000 \<le> (snd y - snd x) * 1000)
     ((False, 0) # cover_run toy [RealSend 1, MaybeSend quiet (\<lambda>n. replicate n 7) (3/2), MaybeSend quiet (\<lambda>n. replicate n 7) 3]
        (CoverTraffic_new 0 1000 64 True, (up id_b, dev_a)))"
  by (rule cover_spacing) auto

lemma channel_data_received:
  assumes laws: "crypto_laws C" and wf: "device_wf C da" and share: "share_session da sa db sb"
    and p: "pr_peer_id pa = Some (dev_device_id db)" "use_mac \<or> pr_state pa = ESTABLISHED" "pr_state pb = ESTABLISHED"
    and v: "env_ok va" and args: "int (length plain) < 2 ^ 31" "ses_local_sequence sa < 2 ^ 32"
    and time: "\<bar>env_replay vb - env_stamp va\<bar> \<le> 30000" and fresh: "replay_fresh (ses_local_sequence sa) sb"
  shows "\<exists>wire da' db'. channel_wire C va use_mac plain (pa, da) = (Inr wire, (pa, da')) \<and>
     Protocol_receive_data C vb wire (pb, db) = (Inr plain, (pb, db'))"
proof -
  have seq: "ses_local_sequence sa < 256 ^ 4" using args(2) by simp
  obtain q c t da' where b: "(if use_mac then Device_build_data_packet_mac else Device_build_data_packet) C
      (env_stamp va) (env_nonce va) (dev_device_id db) plain da = (Inr q, da')"
    and q: "q = sealed_packet DATA (if use_mac then 5 else 1) (dev_device_id da) (dev_device_id db)
      (ses_local_sequence sa) (env_nonce va) (env_stamp va) c t"
    and w: "packet_wf q" and dec: "crypto_decrypt C (ses_session_key sa) (env_nonce va) c [] = Inr plain"
    and au: "session_authentic C sb q = Inr True"
    using v by (auto intro: data_packet_built [OF laws wf share _ args(1) _ seq, of "env_nonce va" "env_stamp va" use_mac])
  obtain wire db' where wire: "Packet_to_bytes q = Inr wire"
    and r: "Device_receive_packet C (env_parse vb) (env_replay vb) wire db = (Inr q, db')"
      "Device_decrypt_packet C db' q = Inr plain"
    using sealed_delivered [OF w share, of C "env_replay vb" plain "env_parse vb"] au time fresh dec
    by (auto simp: q)
  have "channel_wire C va use_mac plain (pa, da) = (Inr wire, (pa, da'))"
    using b wire p send_data_ok [of pa "dev_device_id db" C va plain da q da' wire]
    by (cases use_mac) (simp_all add: channel_wire_def)
  moreover have "Protocol_receive_data C vb wire (pb, db) = (Inr plain, (pb, db'))"
    by (rule receive_data_ok [OF p(3) r(1) _ r(2)]) (simp add: q)
  ultimately show ?thesis by blast
qed

text \<open>Cover packets are sent when due, and reach the application. On a session, as soon as the interval has
  elapsed, a cover packet is produced and the timer restarts. An established receiver that takes it in
  returns its random bytes to the application like any other data.\<close>

theorem cover_reaches_application:
  assumes "crypto_laws C" and "device_wf C da" and "share_session da sa db sb"
    and "pr_peer_id pa = Some (dev_device_id db)" and "cov_use_mac t \<or> pr_state pa = ESTABLISHED"
    and "pr_state pb = ESTABLISHED" and "0 < env_stamp va \<and> env_stamp va < 256 ^ 8" and "length (env_nonce va) = 12"
    and "\<forall>n. length (rnd n) = n" and "0 \<le> cov_cover_size t" and "cov_cover_size t < 2 ^ 31"
    and "ses_local_sequence sa < 2 ^ 32" and "\<bar>env_replay vb - env_stamp va\<bar> \<le> 30000"
    and "ses_local_sequence sa \<notin> ses_peer_seq_window sb" and "ses_peer_max_seq sb - 64 < ses_local_sequence sa"
    and "cov_interval_ms t \<le> now * 1000 - cov_last_send_ms t"
  shows "\<exists>wire da' db'. CoverTraffic_maybe_send C va rnd now (t, (pa, da)) =
       (Inr (Some wire), (t\<lparr>cov_last_send_ms := now * 1000\<rparr>, (pa, da'))) \<and>
     Protocol_receive_data C vb wire (pb, db) = (Inr (rnd (nat (cov_cover_size t))), (pb, db'))"
proof -
  have v: "env_ok va" using assms(7,8) by simp
  have len: "int (length (rnd (nat (cov_cover_size t)))) < 2 ^ 31" using assms(9-11) by simp
  obtain wire da' db' where
    "channel_wire C va (cov_use_mac t) (rnd (nat (cov_cover_size t))) (pa, da) = (Inr wire, (pa, da'))"
    "Protocol_receive_data C vb wire (pb, db) = (Inr (rnd (nat (cov_cover_size t))), (pb, db'))"
    using channel_data_received [OF assms(1-6) v len assms(12,13)] assms(14,15) by blast
  then show ?thesis using assms(10,16) by (auto simp: CoverTraffic_maybe_send_def Let_def)
qed

theorem cover_reaches_application_witness:
  "\<exists>wire da' db'. CoverTraffic_maybe_send toy quiet (\<lambda>n. replicate n 7) 5 (CoverTraffic_new 3 1000 64 True, (up id_b, dev_a)) =
       (Inr (Some wire), ((CoverTraffic_new 3 1000 64 True)\<lparr>cov_last_send_ms := 5000\<rparr>, (up id_b, da'))) \<and>
     Protocol_receive_data toy quiet wire (up id_a, dev_b) = (Inr (replicate 64 7), (up id_a, db'))"
proof -
  let ?t = "CoverTraffic_new 3 1000 64 True"
  have "\<exists>wire da' db'. CoverTraffic_maybe_send toy quiet (\<lambda>n. replicate n 7) 5 (?t, (up id_b, dev_a)) =
       (Inr (Some wire), (?t\<lparr>cov_last_send_ms := 5 * 1000\<rparr>, (up id_b, da'))) \<and>
     Protocol_receive_data toy quiet wire (up id_a, dev_b) = (Inr (replicate (nat (cov_cover_size ?t)) 7), (up id_a, db'))"
    by (rule cover_reaches_application [OF toy_laws dev_a_wf dev_ab_share, where rnd = "\<lambda>n. replicate n 7"])
       (simp_all add: dev_ids quiet_def CoverTraffic_new_def, simp_all add: end_ab_def)
  then show ?thesis by (simp add: CoverTraffic_new_def)
qed

end
