(* ===== verification/Py_Text.thy ===== *)
theory Py_Text
  imports Prelude
begin

text \<open>
  The part of Python's text handling that \<^verbatim>\<open>ztlnp/transport.py\<close> relies on for UDP
  addresses: strings as lists of code points, strict UTF-8 (\<^verbatim>\<open>str.encode\<close>,
  \<^verbatim>\<open>bytes.decode\<close>), \<^verbatim>\<open>str.rpartition\<close>, the conversion
  \<^verbatim>\<open>int(text)\<close> with everything it accepts (surrounding white space, a sign, single
  underscores, the decimal digits of every script), and the decimal form of an integer. The
  lemmas show that the two pairs of conversions are inverse to each other.
\<close>

section \<open>Strings\<close>

type_synonym pystr = "int list"

text \<open>A string literal in the code points of its characters.\<close>

definition py_lit :: "string \<Rightarrow> pystr" where
  "py_lit s = map of_char s"

definition surrogate :: "int \<Rightarrow> bool" where
  "surrogate c \<longleftrightarrow> 0xD800 \<le> c \<and> c \<le> 0xDFFF"

text \<open>The code points that UTF-8 can encode.\<close>

definition scalar :: "int \<Rightarrow> bool" where
  "scalar c \<longleftrightarrow> 0 \<le> c \<and> c < 0x110000 \<and> \<not> surrogate c"

section \<open>UTF-8\<close>

definition byte_of :: "int \<Rightarrow> byte" where
  "byte_of x = word_of_int x"

definition utf8_char :: "int \<Rightarrow> bytes" where
  "utf8_char c =
     (if c < 0x80 then [byte_of c]
      else if c < 0x800 then
        [byte_of (0xC0 + c div 64), byte_of (0x80 + c mod 64)]
      else if c < 0x10000 then
        [byte_of (0xE0 + c div 4096), byte_of (0x80 + c div 64 mod 64),
         byte_of (0x80 + c mod 64)]
      else
        [byte_of (0xF0 + c div 262144), byte_of (0x80 + c div 4096 mod 64),
         byte_of (0x80 + c div 64 mod 64), byte_of (0x80 + c mod 64)])"

text \<open>\<^verbatim>\<open>UnicodeEncodeError\<close> and \<^verbatim>\<open>UnicodeDecodeError\<close> are subclasses of
  \<^verbatim>\<open>ValueError\<close>.\<close>

definition utf8_encode :: "pystr \<Rightarrow> bytes result" where
  "utf8_encode s = (if list_all scalar s then Inr (concat (map utf8_char s)) else Inl ValueError)"

definition continuation :: "byte \<Rightarrow> bool" where
  "continuation b \<longleftrightarrow> 0x80 \<le> uint b \<and> uint b < 0xC0"

text \<open>
  One character and the rest of the bytes. A character has to have its shortest form, and neither
  a surrogate nor a value past U+10FFFF is a character.
\<close>

definition utf8_step :: "byte \<Rightarrow> bytes \<Rightarrow> (int \<times> bytes) option" where
  "utf8_step b0 bs =
     (if uint b0 < 0x80 then Some (uint b0, bs)
      else if uint b0 < 0xC2 then None
      else if uint b0 < 0xE0 then
        (case bs of
           b1 # r \<Rightarrow> (if continuation b1
                      then Some ((uint b0 - 0xC0) * 64 + (uint b1 - 0x80), r) else None)
         | _ \<Rightarrow> None)
      else if uint b0 < 0xF0 then
        (case bs of
           b1 # b2 # r \<Rightarrow>
             (let c = (uint b0 - 0xE0) * 4096 + (uint b1 - 0x80) * 64 + (uint b2 - 0x80)
              in if continuation b1 \<and> continuation b2 \<and> 0x800 \<le> c \<and> \<not> surrogate c
                 then Some (c, r) else None)
         | _ \<Rightarrow> None)
      else
        (case bs of
           b1 # b2 # b3 # r \<Rightarrow>
             (let c = (uint b0 - 0xF0) * 262144 + (uint b1 - 0x80) * 4096
                        + (uint b2 - 0x80) * 64 + (uint b3 - 0x80)
              in if continuation b1 \<and> continuation b2 \<and> continuation b3 \<and>
                    0x10000 \<le> c \<and> c < 0x110000
                 then Some (c, r) else None)
         | _ \<Rightarrow> None))"

lemma utf8_step_shorter: "utf8_step b bs = Some (c, r) \<Longrightarrow> length r \<le> length bs"
  by (auto simp: utf8_step_def Let_def split: if_splits list.splits)

function utf8_decode :: "bytes \<Rightarrow> pystr result" where
  "utf8_decode [] = Inr []"
| "utf8_decode (b # bs) =
     (case utf8_step b bs of
        None \<Rightarrow> Inl ValueError
      | Some (c, r) \<Rightarrow> bindE (utf8_decode r) (\<lambda>s. Inr (c # s)))"
  by pat_completeness auto
termination
  by (relation "measure length") (auto simp: less_Suc_eq_le dest: utf8_step_shorter)

section \<open>rpartition\<close>

text \<open>\<^verbatim>\<open>s.rpartition(sep)\<close> for a separator of one character: split at its last
  occurrence; without one, the first two parts are empty.\<close>

definition rpartition :: "int \<Rightarrow> pystr \<Rightarrow> pystr \<times> pystr \<times> pystr" where
  "rpartition sep s =
     (if sep \<in> set s
      then (rev (tl (dropWhile (\<lambda>c. c \<noteq> sep) (rev s))), [sep],
            rev (takeWhile (\<lambda>c. c \<noteq> sep) (rev s)))
      else ([], [], s))"

section \<open>int(text) and str(int)\<close>

text \<open>The zeros of the scripts with decimal digits (Unicode 14); the ten digits of a script
  are consecutive.\<close>

definition decimal_zeros :: "int list" where
  "decimal_zeros =
     [48, 1632, 1776, 1984, 2406, 2534, 2662, 2790, 2918, 3046, 3174, 3302, 3430, 3558, 3664, 3792,
      3872, 4160, 4240, 6112, 6160, 6470, 6608, 6784, 6800, 6992, 7088, 7232, 7248, 42528, 43216,
      43264, 43472, 43504, 43600, 44016, 65296, 66720, 68912, 69734, 69872, 69942, 70096, 70384,
      70736, 70864, 71248, 71360, 71472, 71904, 72016, 72784, 73040, 73120, 92768, 92864, 93008,
      120782, 120792, 120802, 120812, 120822, 123200, 123632, 125264, 130032]"

definition decimal_value :: "int \<Rightarrow> int option" where
  "decimal_value c = map_option (\<lambda>z. c - z) (find (\<lambda>z. z \<le> c \<and> c < z + 10) decimal_zeros)"

text \<open>White space outside ASCII.\<close>

definition wide_space :: "int \<Rightarrow> bool" where
  "wide_space c \<longleftrightarrow> c \<in> set [0x85, 0xA0, 0x1680, 0x2028, 0x2029, 0x202F, 0x205F, 0x3000] \<or>
     (0x2000 \<le> c \<and> c \<le> 0x200A)"

text \<open>The interpreter first turns digits and white space into ASCII; a character that is neither
  becomes a question mark.\<close>

definition to_ascii :: "int \<Rightarrow> int" where
  "to_ascii c =
     (if c < 127 then c else if wide_space c then 32
      else case decimal_value c of Some d \<Rightarrow> 48 + d | None \<Rightarrow> 63)"

definition ascii_space :: "int \<Rightarrow> bool" where
  "ascii_space c \<longleftrightarrow> c = 32 \<or> (9 \<le> c \<and> c \<le> 13)"

definition ascii_digit :: "int \<Rightarrow> bool" where
  "ascii_digit c \<longleftrightarrow> 48 \<le> c \<and> c \<le> 57"

text \<open>A run of digits with single underscores between digits.\<close>

fun digit_run :: "pystr \<Rightarrow> bool" where
  "digit_run [] \<longleftrightarrow> False"
| "digit_run [c] \<longleftrightarrow> ascii_digit c"
| "digit_run (c # c' # s) \<longleftrightarrow>
     ascii_digit c \<and> (if c' = 95 then digit_run s else digit_run (c' # s))"

definition digits_value :: "pystr \<Rightarrow> int" where
  "digits_value ds = foldl (\<lambda>v c. v * 10 + (c - 48)) 0 ds"

text \<open>The default limit of the interpreter on the decimal digits of a conversion.\<close>

definition int_max_str_digits :: nat where "int_max_str_digits = 4300"

definition py_int :: "pystr \<Rightarrow> int result" where
  "py_int text =
     (let s = dropWhile ascii_space (map to_ascii text);
          neg = (s \<noteq> [] \<and> hd s = 45);
          s = (if s \<noteq> [] \<and> (hd s = 45 \<or> hd s = 43) then tl s else s);
          run = takeWhile (\<lambda>c. ascii_digit c \<or> c = 95) s;
          rest = dropWhile (\<lambda>c. ascii_digit c \<or> c = 95) s;
          ds = filter ascii_digit run
      in if digit_run run \<and> list_all ascii_space rest \<and> length ds \<le> int_max_str_digits
         then Inr (if neg then - digits_value ds else digits_value ds)
         else Inl ValueError)"

fun nat_digits :: "nat \<Rightarrow> pystr" where
  "nat_digits n =
     (if n < 10 then [48 + int n] else nat_digits (n div 10) @ [48 + int (n mod 10)])"

definition py_str_int :: "int \<Rightarrow> pystr result" where
  "py_str_int v =
     (let ds = nat_digits (nat \<bar>v\<bar>)
      in if length ds \<le> int_max_str_digits
         then Inr (if v < 0 then 45 # ds else ds) else Inl ValueError)"

section \<open>UTF-8 decodes what it encodes, and nothing else\<close>

lemma uint_byte [simp]: "0 \<le> x \<Longrightarrow> x < 256 \<Longrightarrow> uint (byte_of x) = x"
  by (simp add: byte_of_def unsigned_of_int take_bit_int_eq_self)

lemma byte_of_uint [simp]: "byte_of (uint b) = b"
  by (simp add: byte_of_def)

lemma uint_byte_bounds: "0 \<le> uint (b :: byte)" "uint (b :: byte) < 256"
  using uint_bounded [of b] by simp_all

lemma base64_digits: "a = b * 64 + r \<Longrightarrow> 0 \<le> r \<Longrightarrow> r < 64 \<Longrightarrow> a div 64 = b \<and> a mod 64 = (r :: int)"
  by auto

lemma utf8_step_two:
  assumes "2 \<le> q" "q < 32" "0 \<le> m" "m < 64"
  shows "utf8_step (byte_of (0xC0 + q)) (byte_of (0x80 + m) # r) = Some (q * 64 + m, r)"
  using assms by (simp add: utf8_step_def continuation_def)

lemma utf8_step_three:
  assumes "0 \<le> p" "p < 16" "0 \<le> q" "q < 64" "0 \<le> m" "m < 64"
    and "c = p * 4096 + q * 64 + m" "0x800 \<le> c" "\<not> surrogate c"
  shows "utf8_step (byte_of (0xE0 + p)) (byte_of (0x80 + q) # byte_of (0x80 + m) # r) = Some (c, r)"
  using assms(1-6,8,9) unfolding assms(7)
  by (simp add: utf8_step_def continuation_def)

lemma utf8_step_four:
  assumes "0 \<le> l" "l < 5" "0 \<le> p" "p < 64" "0 \<le> q" "q < 64" "0 \<le> m" "m < 64"
    and "c = l * 262144 + p * 4096 + q * 64 + m" "0x10000 \<le> c" "c < 0x110000"
  shows "utf8_step (byte_of (0xF0 + l)) (byte_of (0x80 + p) # byte_of (0x80 + q) # byte_of (0x80 + m) # r)
           = Some (c, r)"
  using assms(1-8,10,11) unfolding assms(9)
  by (simp add: utf8_step_def continuation_def)

lemma utf8_step_char:
  assumes "scalar c"
  shows "\<exists>b bs. utf8_char c = b # bs \<and> utf8_step b (bs @ r) = Some (c, r)"
proof -
  have c: "0 \<le> c" "c < 0x110000" "\<not> surrogate c" using assms by (simp_all add: scalar_def)
  define l p m where "l = c div 4096 mod 64" and "p = c div 64 mod 64" and "m = c mod 64"
  have d: "0 \<le> m" "m < 64" "0 \<le> p" "p < 64" "0 \<le> l" "l < 64" by (simp_all add: l_def p_def m_def)
  have "c div 4096 = c div 64 div 64" "c div 262144 = c div 64 div 64 div 64"
    by (simp_all add: zdiv_zmult2_eq [symmetric])
  then have e: "c = c div 64 * 64 + m" "c div 64 = c div 4096 * 64 + p"
    "c div 4096 = c div 262144 * 64 + l"
    by (simp_all add: l_def p_def m_def)
  note chars = utf8_char_def l_def [symmetric] p_def [symmetric] m_def [symmetric]
  consider "c < 0x80" | "0x80 \<le> c" "c < 0x800" | "0x800 \<le> c" "c < 0x10000" | "0x10000 \<le> c"
    by linarith
  then show ?thesis
  proof cases
    case 1
    then show ?thesis using c(1) by (simp add: utf8_char_def utf8_step_def)
  next
    case 2
    then show ?thesis using utf8_step_two [of "c div 64" m r] d e(1) by (simp add: chars)
  next
    case 3
    moreover have "utf8_step (byte_of (0xE0 + c div 4096)) (byte_of (0x80 + p) # byte_of (0x80 + m) # r)
        = Some (c, r)"
      by (rule utf8_step_three) (use 3 c d e in linarith)+
    ultimately show ?thesis by (simp add: chars)
  next
    case 4
    moreover have "utf8_step (byte_of (0xF0 + c div 262144))
        (byte_of (0x80 + l) # byte_of (0x80 + p) # byte_of (0x80 + m) # r) = Some (c, r)"
      by (rule utf8_step_four) (use 4 c d e in linarith)+
    ultimately show ?thesis by (simp add: chars)
  qed
qed

lemma utf8_decode_chars:
  "list_all scalar s \<Longrightarrow> utf8_decode (concat (map utf8_char s)) = Inr s"
proof (induction s)
  case (Cons c s)
  then obtain b bs where "utf8_char c = b # bs"
    "utf8_step b (bs @ concat (map utf8_char s)) = Some (c, concat (map utf8_char s))"
    using utf8_step_char by fastforce
  then show ?case using Cons by simp
qed simp

lemma utf8_roundtrip: "utf8_encode s = Inr bs \<Longrightarrow> utf8_decode bs = Inr s"
  by (auto simp: utf8_encode_def utf8_decode_chars split: if_splits)

lemma utf8_stepE:
  assumes "utf8_step b bs = Some (c, r)"
  obtains (one) "uint b < 0x80" "c = uint b" "r = bs"
    | (two) b1 where "0xC2 \<le> uint b" "uint b < 0xE0" "bs = b1 # r" "continuation b1"
        "c = (uint b - 0xC0) * 64 + (uint b1 - 0x80)"
    | (three) b1 b2 where "0xE0 \<le> uint b" "uint b < 0xF0" "bs = b1 # b2 # r"
        "continuation b1" "continuation b2"
        "c = (uint b - 0xE0) * 4096 + (uint b1 - 0x80) * 64 + (uint b2 - 0x80)"
        "0x800 \<le> c" "\<not> surrogate c"
    | (four) b1 b2 b3 where "0xF0 \<le> uint b" "bs = b1 # b2 # b3 # r"
        "continuation b1" "continuation b2" "continuation b3"
        "c = (uint b - 0xF0) * 262144 + (uint b1 - 0x80) * 4096 + (uint b2 - 0x80) * 64 + (uint b3 - 0x80)"
        "0x10000 \<le> c" "c < 0x110000"
  using assms by (auto simp: utf8_step_def Let_def split: if_splits list.splits)

lemma utf8_char_two:
  assumes "2 \<le> q" "q < 32" "0 \<le> m" "m < 64"
  shows "utf8_char (q * 64 + m) = [byte_of (0xC0 + q), byte_of (0x80 + m)]"
  using base64_digits [of "q * 64 + m" q m] assms by (simp add: utf8_char_def)

lemma utf8_char_three:
  assumes "0 \<le> q" "q < 64" "0 \<le> m" "m < 64"
    and "c = p * 4096 + q * 64 + m" "0x800 \<le> c" "c < 0x10000"
  shows "utf8_char c = [byte_of (0xE0 + p), byte_of (0x80 + q), byte_of (0x80 + m)]"
proof -
  have "c div 64 = p * 64 + q \<and> c mod 64 = m" by (rule base64_digits) (use assms in simp_all)
  moreover from this have "c div 64 div 64 = p \<and> c div 64 mod 64 = q"
    using assms by (intro base64_digits) simp_all
  moreover have "c div 4096 = c div 64 div 64" by (simp add: zdiv_zmult2_eq [symmetric])
  ultimately show ?thesis using assms(6,7) by (simp add: utf8_char_def)
qed

lemma utf8_char_four:
  assumes "0 \<le> p" "p < 64" "0 \<le> q" "q < 64" "0 \<le> m" "m < 64"
    and "c = l * 262144 + p * 4096 + q * 64 + m" "0x10000 \<le> c"
  shows "utf8_char c = [byte_of (0xF0 + l), byte_of (0x80 + p), byte_of (0x80 + q), byte_of (0x80 + m)]"
proof -
  have "c div 64 = (l * 64 + p) * 64 + q \<and> c mod 64 = m" by (rule base64_digits) (use assms in simp_all)
  moreover from this have "c div 64 div 64 = l * 64 + p \<and> c div 64 mod 64 = q"
    using assms by (intro base64_digits) simp_all
  moreover from this have "c div 64 div 64 div 64 = l \<and> c div 64 div 64 mod 64 = p"
    using assms by (intro base64_digits) simp_all
  moreover have "c div 4096 = c div 64 div 64" "c div 262144 = c div 64 div 64 div 64"
    by (simp_all add: zdiv_zmult2_eq [symmetric])
  ultimately show ?thesis using assms(8) by (simp add: utf8_char_def)
qed

lemma utf8_step_canonical:
  assumes "utf8_step b bs = Some (c, r)"
  shows "scalar c \<and> utf8_char c @ r = b # bs"
  using assms
proof (cases rule: utf8_stepE)
  case one
  then show ?thesis using uint_byte_bounds(1) [of b] by (simp add: utf8_char_def scalar_def surrogate_def)
next
  case (two b1)
  have "utf8_char c = [byte_of (0xC0 + (uint b - 0xC0)), byte_of (0x80 + (uint b1 - 0x80))]"
    unfolding two(5) by (rule utf8_char_two) (use two in \<open>simp_all add: continuation_def\<close>)
  then show ?thesis using two by (simp add: scalar_def surrogate_def continuation_def)
next
  case (three b1 b2)
  then have b: "c < 0x10000" by (simp add: continuation_def)
  have "utf8_char c = [byte_of (0xE0 + (uint b - 0xE0)), byte_of (0x80 + (uint b1 - 0x80)),
      byte_of (0x80 + (uint b2 - 0x80))]"
    by (rule utf8_char_three [OF _ _ _ _ three(6,7) b]) (use three in \<open>simp_all add: continuation_def\<close>)
  then show ?thesis using three b by (simp add: scalar_def)
next
  case (four b1 b2 b3)
  have "utf8_char c = [byte_of (0xF0 + (uint b - 0xF0)), byte_of (0x80 + (uint b1 - 0x80)),
      byte_of (0x80 + (uint b2 - 0x80)), byte_of (0x80 + (uint b3 - 0x80))]"
    by (rule utf8_char_four [OF _ _ _ _ _ _ four(6,7)]) (use four in \<open>simp_all add: continuation_def\<close>)
  then show ?thesis using four by (simp add: scalar_def surrogate_def)
qed

lemma utf8_decode_canonical: "utf8_decode bs = Inr s \<Longrightarrow> utf8_encode s = Inr bs"
proof (induction bs arbitrary: s rule: utf8_decode.induct)
  case (2 b bs)
  then obtain c r t where "utf8_step b bs = Some (c, r)" "utf8_decode r = Inr t" "s = c # t"
    by (auto simp: bindE_eq_Inr split: option.splits)
  moreover from this 2 have "utf8_encode t = Inr r" by blast
  ultimately show ?case
    using utf8_step_canonical [of b bs c r] by (auto simp: utf8_encode_def split: if_splits)
qed (simp add: utf8_encode_def)

section \<open>Splitting at the last separator\<close>

lemma rpartition_last: "sep \<notin> set t \<Longrightarrow> rpartition sep (s @ sep # t) = (s, [sep], t)"
  by (simp add: rpartition_def takeWhile_append dropWhile_append)

section \<open>An integer reads back what it writes\<close>

declare nat_digits.simps [simp del]

lemma nat_digits_ascii: "c \<in> set (nat_digits n) \<Longrightarrow> ascii_digit c"
  by (induction n rule: nat_digits.induct)
     (subst (asm) (2) nat_digits.simps, auto simp: ascii_digit_def split: if_splits)

lemma nat_digits_nonempty [simp]: "nat_digits n \<noteq> []"
  by (subst nat_digits.simps) simp

lemma digits_value_snoc: "digits_value (ds @ [c]) = digits_value ds * 10 + (c - 48)"
  by (simp add: digits_value_def)

lemma digits_value_nat_digits: "digits_value (nat_digits n) = int n"
proof (induction n rule: nat_digits.induct)
  case (1 n)
  then show ?case
    by (subst nat_digits.simps) (auto simp: digits_value_snoc digits_value_def zdiv_int zmod_int)
qed

lemma digit_run_ascii: "s \<noteq> [] \<Longrightarrow> \<forall>c\<in>set s. ascii_digit c \<Longrightarrow> digit_run s"
  by (induction s rule: digit_run.induct) (auto simp: ascii_digit_def)

lemma ascii_digit_facts:
  assumes "ascii_digit c"
  shows "to_ascii c = c" "\<not> ascii_space c" "c \<noteq> 45" "c \<noteq> 43" "c \<noteq> 95" "c \<noteq> 58" "scalar c"
  using assms by (auto simp: ascii_digit_def to_ascii_def ascii_space_def scalar_def surrogate_def)

lemma py_int_digits:
  assumes "s \<noteq> []" "\<forall>c\<in>set s. ascii_digit c" "length s \<le> int_max_str_digits"
  shows "py_int s = Inr (digits_value s)" "py_int (45 # s) = Inr (- digits_value s)"
proof -
  have "map to_ascii s = s" using assms(2) ascii_digit_facts(1) by (simp add: map_idI)
  moreover have "dropWhile ascii_space s = s" "hd s \<noteq> 45" "hd s \<noteq> 43"
    using assms(1,2) ascii_digit_facts(2-4) by (cases s; simp)+
  moreover have "takeWhile (\<lambda>c. ascii_digit c \<or> c = 95) s = s"
    "dropWhile (\<lambda>c. ascii_digit c \<or> c = 95) s = []" "filter ascii_digit s = s"
    using assms(2) by (simp_all add: filter_id_conv)
  moreover have "digit_run s" using assms digit_run_ascii by blast
  moreover have "to_ascii 45 = 45" "\<not> ascii_space 45" by (simp_all add: to_ascii_def ascii_space_def)
  ultimately show "py_int s = Inr (digits_value s)" "py_int (45 # s) = Inr (- digits_value s)"
    using assms(1,3) by (simp_all add: py_int_def Let_def del: takeWhile_eq_all_conv dropWhile_eq_Nil_conv)
qed

lemma py_int_str: "py_str_int v = Inr s \<Longrightarrow> py_int s = Inr v"
  by (auto simp: py_str_int_def Let_def py_int_digits nat_digits_ascii digits_value_nat_digits
      split: if_splits)

lemma py_str_int_chars:
  assumes "py_str_int v = Inr s"
  shows "58 \<notin> set s" "list_all scalar s"
  using assms ascii_digit_facts(6,7) nat_digits_ascii
  by (fastforce simp: py_str_int_def Let_def list_all_iff scalar_def surrogate_def split: if_splits)+

end
