(* ===== verification/Udp_Transport.thy ===== *)
theory Udp_Transport
  imports Transport Py_Text
begin

text \<open>
  \<^verbatim>\<open>ztlnp/transport.py\<close>: the UDP transport, the address parser and the abstract
  base class. The operating system's sockets are a parameter, a record of the calls the class
  makes over the state of the network; a socket is a number in it. What the base class
  promises of a closed transport is the locale \<open>transport_contract\<close>, which both transports
  interpret.
\<close>

section \<open>The sockets of the operating system\<close>

text \<open>One field per call. \<^verbatim>\<open>recvfrom\<close> may wait for ever; the other calls return or
  raise. Only IPv4 datagram sockets are created, so an address is a host and a port.\<close>

record 's sockets =
  sk_socket :: "('s, nat) pymethod"
  sk_setsockopt :: "nat \<Rightarrow> ('s, unit) pymethod"
  sk_bind :: "nat \<Rightarrow> pystr \<times> int \<Rightarrow> ('s, unit) pymethod"
  sk_getsockname :: "nat \<Rightarrow> 's \<Rightarrow> (pystr \<times> int) result"
  sk_sendto :: "nat \<Rightarrow> bytes \<Rightarrow> pystr \<times> int \<Rightarrow> ('s, int) pymethod"
  sk_settimeout :: "nat \<Rightarrow> real option \<Rightarrow> ('s, unit) pymethod"
  sk_recvfrom :: "nat \<Rightarrow> int \<Rightarrow> 's \<Rightarrow> (bytes \<times> pystr \<times> int) outcome \<times> 's"
  sk_close :: "nat \<Rightarrow> ('s, unit) pymethod"

section \<open>Addresses\<close>

definition parse_udp_addr :: "bytes \<Rightarrow> (pystr \<times> int) result" where
  "parse_udp_addr addr =
     bindE (utf8_decode addr) (\<lambda>text.
       case rpartition 58 text of (host, _, port_str) \<Rightarrow>
         bindE (py_int port_str) (\<lambda>port. Inr (host, port)))"

text \<open>\<^verbatim>\<open>f"{host}:{port}".encode()\<close>\<close>

definition format_udp_addr :: "pystr \<Rightarrow> int \<Rightarrow> bytes result" where
  "format_udp_addr host port =
     bindE (py_str_int port) (\<lambda>port_str. utf8_encode (host @ [58] @ port_str))"

section \<open>UdpTransport\<close>

record udp_transport =
  udp_max_datagram :: int
  udp_sock :: nat
  udp_closed :: bool

definition UdpTransport_new ::
  "'s sockets \<Rightarrow> pystr \<times> int \<Rightarrow> int \<Rightarrow> ('s, udp_transport) pymethod" where
  "UdpTransport_new S bind_addr max_datagram =
     bindS (sk_socket S) (\<lambda>sock.
     bindS (sk_setsockopt S sock) (\<lambda>_.
     bindS (sk_bind S sock bind_addr) (\<lambda>_ net.
       (Inr \<lparr>udp_max_datagram = max_datagram, udp_sock = sock, udp_closed = False\<rparr>, net))))"

definition UdpTransport_local_addr :: "'s sockets \<Rightarrow> udp_transport \<Rightarrow> 's \<Rightarrow> (pystr \<times> int) result" where
  "UdpTransport_local_addr S self net = sk_getsockname S (udp_sock self) net"

definition UdpTransport_local_addr_bytes :: "'s sockets \<Rightarrow> udp_transport \<Rightarrow> 's \<Rightarrow> bytes result" where
  "UdpTransport_local_addr_bytes S self net =
     bindE (sk_getsockname S (udp_sock self) net) (\<lambda>(host, port). format_udp_addr host port)"

definition UdpTransport_send ::
  "'s sockets \<Rightarrow> bytes \<Rightarrow> bytes \<Rightarrow> (udp_transport \<times> 's, unit) pymethod" where
  "UdpTransport_send S dest_addr data = (\<lambda>(self, net).
     if udp_closed self then (Inl TransportClosed, (self, net))
     else case parse_udp_addr dest_addr of
       Inl e \<Rightarrow> (Inl e, (self, net))
     | Inr (host, port) \<Rightarrow>
         (case sk_sendto S (udp_sock self) data (host, port) net of
            (Inl e, net') \<Rightarrow> (Inl e, (self, net'))
          | (Inr _, net') \<Rightarrow> (Inr (), (self, net'))))"

text \<open>Only the call of \<^verbatim>\<open>recvfrom\<close> stands in the \<^verbatim>\<open>try\<close> block.\<close>

definition UdpTransport_recv ::
  "'s sockets \<Rightarrow> real option \<Rightarrow> udp_transport \<times> 's \<Rightarrow> (bytes \<times> bytes) outcome \<times> (udp_transport \<times> 's)" where
  "UdpTransport_recv S timeout = (\<lambda>(self, net).
     if udp_closed self then (Raises TransportClosed, (self, net))
     else case sk_settimeout S (udp_sock self) timeout net of
       (Inl e, net1) \<Rightarrow> (Raises e, (self, net1))
     | (Inr _, net1) \<Rightarrow>
         (case sk_recvfrom S (udp_sock self) (udp_max_datagram self) net1 of
            (Raises e, net2) \<Rightarrow>
              (Raises (if e = SocketTimeout then TransportTimeout else e), (self, net2))
          | (Blocks, net2) \<Rightarrow> (Blocks, (self, net2))
          | (Returns (data, host, port), net2) \<Rightarrow>
              (case format_udp_addr host port of
                 Inl e \<Rightarrow> (Raises e, (self, net2))
               | Inr src_addr \<Rightarrow> (Returns (src_addr, data), (self, net2)))))"

text \<open>\<^verbatim>\<open>socket.timeout\<close> is a subclass of \<^verbatim>\<open>OSError\<close>.\<close>

definition UdpTransport_close :: "'s sockets \<Rightarrow> (udp_transport \<times> 's, unit) pymethod" where
  "UdpTransport_close S = (\<lambda>(self, net).
     let self' = self\<lparr>udp_closed := True\<rparr>
     in case sk_close S (udp_sock self') net of
       (Inl e, net') \<Rightarrow>
         (if e = OSError \<or> e = SocketTimeout then Inr () else Inl e, (self', net'))
     | (Inr _, net') \<Rightarrow> (Inr (), (self', net')))"

section \<open>The contract of Transport\<close>

text \<open>\<^verbatim>\<open>with transport: body\<close>: \<^verbatim>\<open>__enter__\<close> returns the object,
  \<^verbatim>\<open>__exit__\<close> closes it however the body ends and does not suppress an exception.\<close>

definition with_transport ::
  "('s, unit) pymethod \<Rightarrow> ('s, 'a) pymethod \<Rightarrow> ('s, 'a) pymethod" where
  "with_transport close body s =
     (case body s of (r, s1) \<Rightarrow>
       (case close s1 of (Inl e, s2) \<Rightarrow> (Inl e, s2) | (Inr _, s2) \<Rightarrow> (r, s2)))"

datatype transport_call = Call_send bytes bytes | Call_recv "real option" | Call_close

text \<open>The state after a call.\<close>

fun perform ::
  "(bytes \<Rightarrow> bytes \<Rightarrow> ('s, unit) pymethod) \<Rightarrow>
   (real option \<Rightarrow> 's \<Rightarrow> (bytes \<times> bytes) outcome \<times> 's) \<Rightarrow>
   ('s, unit) pymethod \<Rightarrow> transport_call \<Rightarrow> 's \<Rightarrow> 's" where
  "perform send recv close (Call_send dest data) s = snd (send dest data s)"
| "perform send recv close (Call_recv timeout) s = snd (recv timeout s)"
| "perform send recv close Call_close s = snd (close s)"

locale transport_contract =
  fixes send :: "bytes \<Rightarrow> bytes \<Rightarrow> ('s, unit) pymethod"
    and recv :: "real option \<Rightarrow> 's \<Rightarrow> (bytes \<times> bytes) outcome \<times> 's"
    and close :: "('s, unit) pymethod"
    and closed :: "'s \<Rightarrow> bool"
  assumes closes: "closed (snd (close s))"
    and send_closed: "closed s \<Longrightarrow> send dest data s = (Inl TransportClosed, s)"
    and recv_closed: "closed s \<Longrightarrow> recv timeout s = (Raises TransportClosed, s)"
begin

lemma call_stays_closed: "closed s \<Longrightarrow> closed (perform send recv close c s)"
  by (cases c) (simp_all add: closes send_closed recv_closed)

lemma fold_stays_closed: "closed s \<Longrightarrow> closed (fold (perform send recv close) cs s)"
  by (induction cs arbitrary: s) (simp_all add: call_stays_closed)

lemma refused_once_closed:
  assumes "closed s" and "s' = fold (perform send recv close) cs s"
  shows "send dest data s' = (Inl TransportClosed, s') \<and>
         recv timeout s' = (Raises TransportClosed, s')"
  using fold_stays_closed [OF assms(1)] by (simp add: assms(2) send_closed recv_closed)

lemma with_closes: "closed (snd (with_transport close body s))"
  using closes [of "snd (body s)"] by (auto simp: with_transport_def split: prod.splits sum.splits)

end

lemma udp_close_closed: "udp_closed (fst (snd (UdpTransport_close S s)))"
  by (auto simp: UdpTransport_close_def Let_def split: prod.splits sum.splits)

interpretation udp: transport_contract
  "UdpTransport_send S" "UdpTransport_recv S" "UdpTransport_close S" "\<lambda>s. udp_closed (fst s)"
  by unfold_locales
     (auto simp: UdpTransport_send_def UdpTransport_recv_def udp_close_closed split: prod.splits)

interpretation inproc: transport_contract
  "InProcessTransport_send self" "InProcessTransport_recv self"
  "\<lambda>h. (Inr (), InProcessTransport_close self h)" "\<lambda>h. ip_closed (h self)"
  by unfold_locales (simp_all add: transport_defs)

text \<open>A sequence of calls on a transport of either class.\<close>

definition udp_calls ::
  "'s sockets \<Rightarrow> transport_call list \<Rightarrow> udp_transport \<times> 's \<Rightarrow> udp_transport \<times> 's" where
  "udp_calls S cs s = fold (perform (UdpTransport_send S) (UdpTransport_recv S) (UdpTransport_close S)) cs s"

definition ip_calls :: "tref \<Rightarrow> transport_call list \<Rightarrow> heap \<Rightarrow> heap" where
  "ip_calls self cs h =
     fold (perform (InProcessTransport_send self) (InProcessTransport_recv self)
       (\<lambda>h. (Inr (), InProcessTransport_close self h))) cs h"

section \<open>Addresses read back\<close>

lemma format_udp_addr_parse:
  assumes "format_udp_addr host port = Inr addr"
  shows "parse_udp_addr addr = Inr (host, port)"
proof -
  obtain s where s: "py_str_int port = Inr s" and "utf8_encode (host @ 58 # s) = Inr addr"
    using assms by (auto simp: format_udp_addr_def bindE_eq_Inr)
  then show ?thesis
    using rpartition_last [OF py_str_int_chars(1) [OF s], of host]
    by (simp add: parse_udp_addr_def utf8_roundtrip py_int_str)
qed

lemma nat_digits_length: "n < 10 ^ k \<Longrightarrow> 0 < k \<Longrightarrow> length (nat_digits n) \<le> k"
proof (induction k arbitrary: n)
  case (Suc k)
  then show ?case
    by (subst nat_digits.simps) (cases k; auto simp: less_mult_imp_div_less mult.commute)
qed simp

text \<open>What \<^verbatim>\<open>recvfrom\<close> and \<^verbatim>\<open>getsockname\<close> report for an IPv4 socket.\<close>

definition inet_name :: "pystr \<times> int \<Rightarrow> bool" where
  "inet_name a \<longleftrightarrow> list_all scalar (fst a) \<and> 0 \<le> snd a \<and> snd a \<le> 65535"

lemma format_udp_addr_ok:
  assumes "inet_name (host, port)"
  shows "\<exists>addr. format_udp_addr host port = Inr addr"
proof -
  have "length (nat_digits (nat \<bar>port\<bar>)) \<le> 5"
    by (rule nat_digits_length) (use assms in \<open>auto simp: inet_name_def nat_less_iff\<close>)
  then obtain s where s: "py_str_int port = Inr s"
    by (simp add: py_str_int_def Let_def int_max_str_digits_def split: if_splits)
  with py_str_int_chars(2) [OF s] assms show ?thesis
    by (simp add: format_udp_addr_def utf8_encode_def inet_name_def scalar_def surrogate_def)
qed

lemma udp_recv_datagram:
  assumes "\<not> udp_closed self" and "sk_settimeout S (udp_sock self) timeout net = (Inr u, net1)"
    and "sk_recvfrom S (udp_sock self) (udp_max_datagram self) net1 = (Returns (data, host, port), net2)"
    and "format_udp_addr host port = Inr src"
  shows "UdpTransport_recv S timeout (self, net) = (Returns (src, data), (self, net2))"
  using assms by (simp add: UdpTransport_recv_def)

lemma udp_send_parsed:
  assumes "\<not> udp_closed self" and "parse_udp_addr dest = Inr a"
  shows "UdpTransport_send S dest data (self, net) =
     (case sk_sendto S (udp_sock self) data a net of
        (r, net') \<Rightarrow> (map_sum id (\<lambda>_. ()) r, (self, net')))"
  using assms by (auto simp: UdpTransport_send_def split: prod.splits sum.splits)

section \<open>A network of loopback sockets\<close>

text \<open>A concrete instance of the parameter: sockets of one machine, each with its name, its
  time limit, the datagrams that wait and whether it is open. Unknown destinations lose the
  datagram, as UDP does.\<close>

record lo_socket =
  lo_name :: "pystr \<times> int"
  lo_timeout :: "real option"
  lo_queue :: "(bytes \<times> pystr \<times> int) list"
  lo_open :: bool

definition lo_update :: "nat \<Rightarrow> (lo_socket \<Rightarrow> lo_socket) \<Rightarrow> lo_socket list \<Rightarrow> 'a \<Rightarrow> 'a result \<times> lo_socket list" where
  "lo_update i f net x =
     (if i < length net \<and> lo_open (net ! i) then (Inr x, net[i := f (net ! i)]) else (Inl OSError, net))"

definition loopback :: "lo_socket list sockets" where
  "loopback = \<lparr>
     sk_socket = (\<lambda>net. (Inr (length net),
       net @ [\<lparr>lo_name = ([], 0), lo_timeout = None, lo_queue = [], lo_open = True\<rparr>])),
     sk_setsockopt = (\<lambda>i net. lo_update i id net ()),
     sk_bind = (\<lambda>i (host, port) net.
       lo_update i (\<lambda>k. k\<lparr>lo_name := (host, if port = 0 then 50000 + int i else port)\<rparr>) net ()),
     sk_getsockname = (\<lambda>i net. if i < length net then Inr (lo_name (net ! i)) else Inl OSError),
     sk_sendto = (\<lambda>i data dest net.
       if i < length net then
         (Inr (int (length data)),
          map (\<lambda>k. if lo_name k = dest then k\<lparr>lo_queue := lo_queue k @ [(data, lo_name (net ! i))]\<rparr> else k) net)
       else (Inl OSError, net)),
     sk_settimeout = (\<lambda>i t net.
       if (case t of None \<Rightarrow> False | Some x \<Rightarrow> x < 0) then (Inl ValueError, net)
       else lo_update i (\<lambda>k. k\<lparr>lo_timeout := t\<rparr>) net ()),
     sk_recvfrom = (\<lambda>i n net.
       if \<not> i < length net then (Raises OSError, net)
       else case lo_queue (net ! i) of
         [] \<Rightarrow> (if lo_timeout (net ! i) = None then Blocks else Raises SocketTimeout, net)
       | (data, src) # q \<Rightarrow>
           (Returns (take (nat n) data, src), net[i := (net ! i)\<lparr>lo_queue := q\<rparr>])),
     sk_close = (\<lambda>i net. lo_update i (\<lambda>k. k\<lparr>lo_open := False\<rparr>) net ())\<rparr>"

text \<open>A server at port 9000, and a client at the port the system chose.\<close>

definition localhost :: pystr where "localhost = py_lit ''127.0.0.1''"

definition server :: udp_transport where
  "server = \<lparr>udp_max_datagram = 65535, udp_sock = 0, udp_closed = False\<rparr>"

definition client :: udp_transport where
  "client = \<lparr>udp_max_datagram = 65535, udp_sock = 1, udp_closed = False\<rparr>"

definition lo_net :: "lo_socket list" where
  "lo_net = snd (bindS (UdpTransport_new loopback (localhost, 9000) 65535)
     (\<lambda>_. UdpTransport_new loopback (localhost, 0) 65535) [])"

definition hello_sent :: "lo_socket list" where
  "hello_sent = snd (snd (UdpTransport_send loopback (map of_char ''127.0.0.1:9000'') [104, 105] (client, lo_net)))"

lemma server_addr: "parse_udp_addr (map of_char ''127.0.0.1:9000'') = Inr (localhost, 9000)"
  by code_simp

lemma lo_net_sockets:
  "lo_net =
     [\<lparr>lo_name = (localhost, 9000), lo_timeout = None, lo_queue = [], lo_open = True\<rparr>,
      \<lparr>lo_name = (localhost, 50001), lo_timeout = None, lo_queue = [], lo_open = True\<rparr>]"
  by (simp add: lo_net_def loopback_def UdpTransport_new_def bindS_def lo_update_def)

lemma hello_sent_sockets:
  "hello_sent =
     [\<lparr>lo_name = (localhost, 9000), lo_timeout = None, lo_queue = [([104, 105], localhost, 50001)],
       lo_open = True\<rparr>, lo_net ! 1]"
  using server_addr
  by (simp add: hello_sent_def UdpTransport_send_def lo_net_sockets client_def loopback_def)

section \<open>Properties\<close>

text \<open>C27: a datagram that arrives on an open UDP transport is returned with an address that can
  be answered. Whatever the sockets do: when \<^verbatim>\<open>recvfrom\<close> reports a datagram from an
  IPv4 name, \<^verbatim>\<open>recv\<close> returns its data, and sending to the address it returned, at any
  later time and on any open UDP transport, hands exactly the reported host and port to
  \<^verbatim>\<open>sendto\<close>.\<close>

theorem udp_reply_to_sender:
  assumes "\<not> udp_closed self" and "sk_settimeout S (udp_sock self) timeout net = (Inr u, net1)"
    and "sk_recvfrom S (udp_sock self) (udp_max_datagram self) net1 = (Returns (data, host, port), net2)"
    and "inet_name (host, port)"
  shows "\<exists>src. UdpTransport_recv S timeout (self, net) = (Returns (src, data), (self, net2)) \<and>
    (\<forall>other reply net3. \<not> udp_closed other \<longrightarrow>
      UdpTransport_send S src reply (other, net3) =
        (case sk_sendto S (udp_sock other) reply (host, port) net3 of
           (r, net4) \<Rightarrow> (map_sum id (\<lambda>_. ()) r, (other, net4))))"
proof -
  obtain src where src: "format_udp_addr host port = Inr src"
    using format_udp_addr_ok [OF assms(4)] by blast
  show ?thesis
    by (intro exI [of _ src] conjI allI impI udp_recv_datagram [OF assms(1-3) src]
        udp_send_parsed [OF _ format_udp_addr_parse [OF src]])
qed

theorem udp_reply_to_sender_witness:
  "\<exists>src. UdpTransport_recv loopback None (server, hello_sent) = (Returns (src, [104, 105]), (server, lo_net)) \<and>
     UdpTransport_send loopback src [111, 107] (server, lo_net) =
       (case sk_sendto loopback 0 [111, 107] (localhost, 50001) lo_net of
          (r, net4) \<Rightarrow> (map_sum id (\<lambda>_. ()) r, (server, net4)))"
proof -
  have h: "\<not> udp_closed server"
    "sk_settimeout loopback (udp_sock server) None hello_sent = (Inr (), hello_sent)"
    "sk_recvfrom loopback (udp_sock server) (udp_max_datagram server) hello_sent
       = (Returns ([104, 105], localhost, 50001), lo_net)"
    by (simp_all add: server_def loopback_def lo_update_def hello_sent_sockets lo_net_sockets)
  have n: "inet_name (localhost, 50001)" by code_simp
  have "udp_sock server = 0" by (simp add: server_def)
  then show ?thesis using udp_reply_to_sender [OF h n] h(1) by metis
qed

text \<open>A closed transport stays closed. Once \<^verbatim>\<open>close\<close> has been called on a UDP
  transport, or on an end of an in-process pair, every further \<^verbatim>\<open>send\<close> and
  \<^verbatim>\<open>recv\<close> raises \<open>TransportClosed\<close> and changes nothing, whatever was called in
  between and whatever the socket's own \<^verbatim>\<open>close\<close> did.\<close>

theorem closed_transport_refuses:
  "(let s' = udp_calls S cs (snd (UdpTransport_close S s))
    in UdpTransport_send S dest data s' = (Inl TransportClosed, s') \<and>
       UdpTransport_recv S timeout s' = (Raises TransportClosed, s')) \<and>
   (let h' = ip_calls self cs (InProcessTransport_close self h)
    in InProcessTransport_send self dest data h' = (Inl TransportClosed, h') \<and>
       InProcessTransport_recv self timeout h' = (Raises TransportClosed, h'))"
proof -
  have "ip_closed (InProcessTransport_close self h self)" by (simp add: InProcessTransport_close_def)
  then show ?thesis
    using udp.refused_once_closed [OF udp_close_closed udp_calls_def]
      inproc.refused_once_closed [OF _ ip_calls_def]
    by (simp add: Let_def)
qed

text \<open>An address without a colon is not refused: its text is read as a port and the host is
  empty.\<close>

theorem port_alone_is_an_address:
  assumes "utf8_decode addr = Inr text" and "58 \<notin> set text" and "py_int text = Inr port"
  shows "parse_udp_addr addr = Inr ([], port)"
  using assms by (simp add: parse_udp_addr_def rpartition_def)

end
