(* ===== verification/Exchange.thy ===== *)
theory Exchange
  imports Bulk_Transfer
begin

text \<open>
  Two devices in step: the invariant that a handshake establishes and that every packet from the
  first device to the second keeps, whether it arrives or is lost. It carries the proofs about
  sequences of messages.
\<close>

section \<open>In step\<close>

text \<open>The next number of \<open>da\<close> is \<open>n\<close>, and \<open>db\<close> has seen smaller numbers only.\<close>

definition in_step :: "'k crypto \<Rightarrow> 'k device \<Rightarrow> 'k device \<Rightarrow> int \<Rightarrow> bool" where
  "in_step C da db n \<longleftrightarrow> device_wf C da \<and> device_wf C db \<and>
     (\<exists>sa sb. share_session da sa db sb \<and> ses_local_sequence sa = n \<and> ses_peer_max_seq sb < n \<and>
        (\<forall>q \<in> ses_peer_seq_window sb. q < n))"

lemma in_stepE:
  assumes "in_step C da db n"
  obtains sa sb where "device_wf C da" "device_wf C db" "share_session da sa db sb" "ses_local_sequence sa = n"
    "ses_peer_max_seq sb < n" "\<forall>q \<in> ses_peer_seq_window sb. q < n"
  using assms by (auto simp: in_step_def)

lemma in_stepI:
  assumes "device_wf C da" "device_wf C db" "share_session da sa db sb" "ses_local_sequence sa = n"
    "ses_peer_max_seq sb < n" "\<forall>q \<in> ses_peer_seq_window sb. q < n"
  shows "in_step C da db n"
  using assms unfolding in_step_def by blast

lemma in_step_sent:
  assumes "device_wf C da'" "device_wf C db" "share_session da' sa' db sb" "ses_local_sequence sa' = n + 1"
    "ses_peer_max_seq sb < n" "\<forall>q \<in> ses_peer_seq_window sb. q < n"
  shows "in_step C da' db (n + 1)"
  unfolding in_step_def using assms by fastforce

lemma in_step_received:
  assumes "device_wf C da" "device_wf C db'" "share_session da sa db' (snd (Session_check_replay now n ts sb))"
    "ses_local_sequence sa = n + 1" "\<bar>now - ts\<bar> \<le> 30000" "ses_peer_max_seq sb < n" "\<forall>q \<in> ses_peer_seq_window sb. q < n"
  shows "in_step C da db' (n + 1)"
proof -
  let ?s = "snd (Session_check_replay now n ts sb)"
  have "replay_fresh n sb" using assms(6,7) by auto
  then have "ses_peer_seq_window ?s \<subseteq> insert n (ses_peer_seq_window sb)" "ses_peer_max_seq ?s = n"
    using replay_step [OF _ assms(5), of n sb] assms(6) by auto
  then show ?thesis unfolding in_step_def using assms by fastforce
qed

section \<open>One packet\<close>

text \<open>A DATA packet is built, and when it arrives in time it is accepted and decrypts to its plaintext.\<close>

lemma packet_delivered:
  assumes laws: "crypto_laws C" and step: "in_step C da db n" and v: "env_ok va"
    and args: "int (length plain) < 2 ^ 31" "n < 2 ^ 32"
    and time: "\<bar>env_replay vb - env_stamp va\<bar> \<le> 30000"
  obtains p wire da' db' where
    "(if mac then Device_build_data_packet_mac else Device_build_data_packet) C
       (env_stamp va) (env_nonce va) (dev_device_id db) plain da = (Inr p, da')"
    and "Packet_to_bytes p = Inr wire"
    and "Device_receive_packet C (env_parse vb) (env_replay vb) wire db = (Inr p, db')"
    and "Device_decrypt_packet C db' p = Inr plain"
    and "pkt_ptype p = DATA" "pkt_flags p = (if mac then 5 else 1)" "wire_seq wire = n"
    and "in_step C da' db (n + 1)" "in_step C da' db' (n + 1)"
    and "dev_device_id da' = dev_device_id da" "dev_device_id db' = dev_device_id db"
proof -
  obtain sa sb where s: "device_wf C da" "device_wf C db" "share_session da sa db sb" "ses_local_sequence sa = n"
    "ses_peer_max_seq sb < n" "\<forall>q \<in> ses_peer_seq_window sb. q < n" by (rule in_stepE [OF step])
  have v': "length (env_nonce va) = 12" "clock_ok (env_stamp va)" and seq: "ses_local_sequence sa < 256 ^ 4"
    using v args(2) s(4) by simp_all
  let ?da = "put_session (dev_device_id db) (drawn_next sa) da"
  obtain p c t where b: "build_sealed C (if mac then by_mac C else by_signature C) (env_stamp va) (env_nonce va) DATA
      (if mac then 5 else 1) (dev_device_id db) plain da = (Inr p, ?da)"
    and p: "p = sealed_packet DATA (if mac then 5 else 1) (dev_device_id da) (dev_device_id db)
      (ses_local_sequence sa) (env_nonce va) (env_stamp va) c t"
    and w: "packet_wf p" and dec: "crypto_decrypt C (ses_session_key sa) (env_nonce va) c [] = Inr plain"
    and au: "session_authentic C sb p = Inr True"
    by (rule sealed_built [OF laws s(1,3) v'(1) args(1) v'(2) seq, of mac DATA])
  obtain wire where wire: "Packet_to_bytes p = Inr wire" using packet_codec.enc_total [OF w] by blast
  let ?sb = "snd (Session_check_replay (env_replay vb) n (env_stamp va) sb)"
  let ?db = "put_session (dev_device_id da) ?sb db"
  have sb: "dict_get (dev_sessions db) (dev_device_id da) = Some sb" using s(3) by (simp add: share_session_def)
  have fresh: "replay_fresh n sb" using s(5,6) by auto
  obtain s' where "Session_check_replay (env_replay vb) n (env_stamp va) sb = (Inr (), s')"
    using check_replay_fresh [OF fresh time] by blast
  then have r: "Device_receive_packet C (env_parse vb) (env_replay vb) wire db = (Inr p, ?db)"
    using receive_sealed [OF w wire, of db sb C "env_replay vb" s' "env_parse vb"] sb au by (simp add: p s(4))
  show ?thesis
  proof (rule that [OF _ wire r])
    show "(if mac then Device_build_data_packet_mac else Device_build_data_packet) C
       (env_stamp va) (env_nonce va) (dev_device_id db) plain da = (Inr p, ?da)"
      using b by (cases mac) (simp_all add: Device_build_data_packet_mac_def Device_build_data_packet_def
        FLAG_ENCRYPTED_def FLAG_MAC_AUTH_def)
    show "Device_decrypt_packet C ?db p = Inr plain"
      using dec s(3) by (simp add: Device_decrypt_packet_def Device_get_session_def put_session_def dict_simps
          share_session_def p)
    show "wire_seq wire = n" using wire_sequence [OF w wire] by (simp add: wire_seq_def p s(4))
    have wfa: "device_wf C ?da" using build_sealed_wf [OF s(1)] b by (metis snd_conv)
    have wfb: "device_wf C ?db" using receive_packet_wf [OF s(2)] r by (metis snd_conv)
    show "in_step C ?da db (n + 1)"
      by (rule in_step_sent [OF wfa s(2) share_session_sender [OF s(3)] _ s(5,6)]) (simp_all add: s(4))
    show "in_step C ?da ?db (n + 1)"
      by (rule in_step_received [OF wfa wfb share_session_step [OF s(3)] _ time s(5,6)]) (simp_all add: s(4))
  qed (simp_all add: p put_session_def)
qed

lemma data_exchanged:
  assumes "crypto_laws C" "in_step C da db n" "env_ok va" "int (length plain) < 2 ^ 31" "n < 2 ^ 32"
    "\<bar>env_replay vb - env_stamp va\<bar> \<le> 30000"
    and "pr_state pa = ESTABLISHED" "pr_peer_id pa = Some (dev_device_id db)" "pr_state pb = ESTABLISHED"
  obtains wire da' db' where "Protocol_send_data C va plain (pa, da) = (Inr wire, (pa, da'))"
    and "Protocol_receive_data C vb wire (pb, db) = (Inr plain, (pb, db'))"
    and "wire_seq wire = n" "in_step C da' db (n + 1)" "in_step C da' db' (n + 1)"
    and "dev_device_id da' = dev_device_id da" "dev_device_id db' = dev_device_id db"
proof -
  obtain p wire da' db' where
    b: "(if False then Device_build_data_packet_mac else Device_build_data_packet) C
       (env_stamp va) (env_nonce va) (dev_device_id db) plain da = (Inr p, da')" "Packet_to_bytes p = Inr wire"
    and r: "Device_receive_packet C (env_parse vb) (env_replay vb) wire db = (Inr p, db')"
      "Device_decrypt_packet C db' p = Inr plain" "pkt_ptype p = DATA"
    and rest: "wire_seq wire = n" "in_step C da' db (n + 1)" "in_step C da' db' (n + 1)"
      "dev_device_id da' = dev_device_id da" "dev_device_id db' = dev_device_id db"
    by (rule packet_delivered [OF assms(1-6), of False])
  show ?thesis
    using that [OF send_data_ok [OF assms(7,8) _ b(2)] receive_data_ok [OF assms(9) r(1,3,2)] rest] b(1) by simp
qed

section \<open>A handshake puts two devices in step\<close>

lemma new_device_fields:
  "dev_sessions (Device_new C k name) = []" "dev_ephemeral_private (Device_new C k name) = []"
  by (simp_all add: Device_new_def crypto_engine_defs)

lemma proto_steps_wf:
  assumes "device_wf C d" and "(proto_step C)\<^sup>*\<^sup>* (Protocol_new, d) (p, d')"
  shows "device_wf C d'"
  using proto_steps_inv [OF assms(2) new_protocol_inv [OF assms(1)]] by (fastforce simp: protocol_inv_def)

lemma initiator_wf:
  assumes "device_wf C da" and "Protocol_initiate C v1 peer (Protocol_new, da) = (r1, s1)"
    and "Protocol_process_incoming C v3 h2 s1 = (r2, s2)" and "Protocol_process_incoming C v5 k2 s2 = (r3, (pa, da'))"
  shows "device_wf C da'"
proof -
  have "proto_step C (Protocol_new, da) s1" and "proto_step C s1 s2" and "proto_step C s2 (pa, da')"
    using proto_step.intros assms(2-4) by (metis snd_conv)+
  then have "(proto_step C)\<^sup>*\<^sup>* (Protocol_new, da) (pa, da')"
    by (meson converse_rtranclp_into_rtranclp rtranclp.rtrancl_refl)
  with assms(1) show ?thesis by (rule proto_steps_wf)
qed

lemma responder_wf:
  assumes "device_wf C db" and "Protocol_process_incoming C v2 h1 (Protocol_new, db) = (r1, t1)"
    and "Protocol_process_incoming C v4 k1 t1 = (r2, (pb, db'))"
  shows "device_wf C db'"
proof -
  have "proto_step C (Protocol_new, db) t1" and "proto_step C t1 (pb, db')"
    using proto_step.intros assms(2-3) by (metis snd_conv)+
  then have "(proto_step C)\<^sup>*\<^sup>* (Protocol_new, db) (pb, db')"
    by (meson converse_rtranclp_into_rtranclp rtranclp.rtrancl_refl)
  with assms(1) show ?thesis by (rule proto_steps_wf)
qed

lemma handshake_in_step:
  assumes laws: "crypto_laws C"
    and v: "env_ok v1" "env_ok v2" "env_ok v3" "env_ok v4"
    and time: "\<bar>env_confirm v4 - env_stamp v3\<bar> \<le> 30000" "\<bar>env_replay v5 - env_stamp v4\<bar> \<le> 30000"
  obtains h1 h2 k1 k2 s1 t1 s2 pa da pb db where
    "Protocol_initiate C v1 (dev_device_id (Device_new C kb nb)) (Protocol_new, Device_new C ka na) = (Inr h1, s1)"
    "Protocol_process_incoming C v2 h1 (Protocol_new, Device_new C kb nb) = (Inr (Some h2), t1)"
    "Protocol_process_incoming C v3 h2 s1 = (Inr (Some k1), s2)"
    "Protocol_process_incoming C v4 k1 t1 = (Inr (Some k2), (pb, db))"
    "Protocol_process_incoming C v5 k2 s2 = (Inr None, (pa, da))"
    "pr_state pa = ESTABLISHED" "pr_peer_id pa = Some (dev_device_id db)"
    "pr_state pb = ESTABLISHED" "pr_peer_id pb = Some (dev_device_id da)"
    "in_step C da db 1" "in_step C db da 1"
    "dev_device_id da = dev_device_id (Device_new C ka na)" "dev_device_id db = dev_device_id (Device_new C kb nb)"
proof -
  let ?da = "Device_new C ka na" and ?db = "Device_new C kb nb"
  have v': "\<forall>v \<in> {v1, v2, v3, v4}. 0 < env_stamp v \<and> env_stamp v < 256 ^ 8 \<and> length (env_nonce v) = 12"
    using v by simp
  obtain h1 h2 k1 k2 s1 t1 s2 pa da pb db sa sb where hs:
    "Protocol_initiate C v1 (dev_device_id ?db) (Protocol_new, ?da) = (Inr h1, s1)"
    "Protocol_process_incoming C v2 h1 (Protocol_new, ?db) = (Inr (Some h2), t1)"
    "Protocol_process_incoming C v3 h2 s1 = (Inr (Some k1), s2)"
    "Protocol_process_incoming C v4 k1 t1 = (Inr (Some k2), (pb, db))"
    "Protocol_process_incoming C v5 k2 s2 = (Inr None, (pa, da))"
    and p: "pr_state pa = ESTABLISHED" "pr_peer_id pa = Some (dev_device_id db)"
      "pr_state pb = ESTABLISHED" "pr_peer_id pb = Some (dev_device_id da)"
      "dev_device_id da = dev_device_id ?da" "dev_device_id db = dev_device_id ?db"
    and s: "share_session da sa db sb" "ses_local_sequence sa = 1" "ses_local_sequence sb = 1"
      "ses_peer_seq_window sa = {0}" "ses_peer_seq_window sb = {0}" "ses_peer_max_seq sa = 0" "ses_peer_max_seq sb = 0"
    using handshake_shared [OF laws Device_new_wf Device_new_wf _ _ _ v' time, of ka na kb nb]
    by (auto simp: new_device_fields)
  have wf: "device_wf C da" "device_wf C db"
    using initiator_wf [OF Device_new_wf hs(1,3,5)] responder_wf [OF Device_new_wf hs(2,4)] by simp_all
  have "in_step C da db 1" "in_step C db da 1"
    using in_stepI [OF wf s(1)] in_stepI [OF wf(2,1) share_session_sym [OF s(1)]] s(2-) by simp_all
  then show ?thesis using that [OF hs p(1-4) _ _ p(5,6)] by blast
qed

end
