(* ===== verification/Example.thy ===== *)
theory Example
  imports Trust_Encoding Router Privacy Udp_Transport Exchange
begin

text \<open>
  \<^verbatim>\<open>example.py\<close>: the demonstration script, one definition per feature, composed of the
  components the way the script composes them. A feature returns what the script reports; a failed
  \<^verbatim>\<open>assert\<close>, an exception that nothing catches and \<^verbatim>\<open>sys.exit(1)\<close> end it. Keys,
  nonces and clock readings are arguments. The theorems show that every feature runs through and what it
  reports, for every implementation of the cryptographic primitives that keeps their laws.
\<close>

section \<open>Scripts\<close>

definition bindO :: "'a outcome \<Rightarrow> ('a \<Rightarrow> 'b outcome) \<Rightarrow> 'b outcome" where
  "bindO x k = (case x of Returns a \<Rightarrow> k a | Raises e \<Rightarrow> Raises e | Blocks \<Rightarrow> Blocks)"

text \<open>A call of a method, of a function, and of a method that may wait.\<close>

definition call :: "'a result \<times> 's \<Rightarrow> ('a \<times> 's) outcome" where
  "call r = (case r of (Inl e, s) \<Rightarrow> Raises e | (Inr x, s) \<Rightarrow> Returns (x, s))"

definition call_pure :: "'a result \<Rightarrow> 'a outcome" where
  "call_pure r = (case r of Inl e \<Rightarrow> Raises e | Inr x \<Rightarrow> Returns x)"

definition call_recv :: "'a outcome \<times> 's \<Rightarrow> ('a \<times> 's) outcome" where
  "call_recv r = bindO (fst r) (\<lambda>x. Returns (x, snd r))"

definition py_assert :: "bool \<Rightarrow> unit outcome" where
  "py_assert b = (if b then Returns () else Raises AssertionError)"

text \<open>An attribute of an object that may be \<^verbatim>\<open>None\<close>, and an entry of a dictionary.\<close>

definition not_None :: "error \<Rightarrow> 'a option \<Rightarrow> 'a outcome" where
  "not_None e x = (case x of None \<Rightarrow> Raises e | Some a \<Rightarrow> Returns a)"

lemma script_simps [simp]:
  "bindO (Returns x) k = k x" "bindO (Raises e) k = Raises e" "bindO Blocks k = Blocks"
  "call (Inr x, s) = Returns (x, s)" "call (Inl e, s) = Raises e"
  "call_pure (Inr x) = Returns x" "call_pure (Inl e) = Raises e"
  "call_recv (Returns x, s) = Returns (x, s)" "py_assert True = Returns ()"
  "not_None e (Some a) = Returns a"
  by (simp_all add: bindO_def call_def call_pure_def call_recv_def py_assert_def not_None_def)

section \<open>Feature 1: trust bootstrap\<close>

record bootstrap_report =
  bs_first_contact :: TrustLevel
  bs_fingerprint :: string
  bs_confirmed :: TrustLevel
  bs_qr_payload :: string
  bs_endorsement_size :: nat
  bs_endorsed :: TrustLevel
  bs_store :: trust_store

text \<open>\<open>key\<close> and \<open>now\<close> are the keys and the clock readings, in the order in which they are drawn.\<close>

definition trust_bootstrap_demo ::
  "'k crypto \<Rightarrow> (nat \<Rightarrow> 'k) \<Rightarrow> (nat \<Rightarrow> real) \<Rightarrow> bootstrap_report outcome" where
  "trust_bootstrap_demo C key now =
     (let store = TrustStore_new True TOFU 3;
          bob_dev = Device_new C (key 0) ''Bob''
      in bindO (call (TrustStore_process_hello (now 0) (dev_device_id bob_dev)
                        (dev_identity_public_bytes bob_dev) store)) (\<lambda>(rec1, store).
         let fp = fingerprint_of (dev_identity_public_bytes bob_dev);
             (upgraded, store) = TrustStore_verify_fingerprint (dev_device_id bob_dev) fp store
         in bindO (py_assert upgraded) (\<lambda>_.
            bindO (not_None AttributeError (TrustStore_get store (dev_device_id bob_dev))) (\<lambda>bob_rec.
         let charlie_dev = Device_new C (key 1) ''Charlie'';
             qr_payload = encode_qr_payload (dev_device_id charlie_dev) (dev_identity_public_bytes charlie_dev)
         in bindO (call_pure (parse_qr_payload qr_payload)) (\<lambda>(recovered_id, recovered_pub).
            bindO (py_assert (recovered_id = dev_device_id charlie_dev)) (\<lambda>_.
            bindO (call (TrustStore_add (now 1) recovered_pub VERIFIED store)) (\<lambda>(_, store).
         let alice_endorser = Device_new C (key 2) ''Alice-endorser''
         in bindO (call (TrustStore_add (now 2) (dev_identity_public_bytes alice_endorser) VERIFIED store)) (\<lambda>(_, store).
         let dave_dev = Device_new C (key 3) ''Dave'';
             endorsement = create_endorsement C (dev_identity_private alice_endorser)
               (dev_device_id alice_endorser) (dev_device_id dave_dev) (dev_identity_public_bytes dave_dev)
         in bindO (call (TrustStore_add_endorsement C (now 3) endorsement (dev_device_id alice_endorser) store))
              (\<lambda>(rec2, store).
            bindO (py_assert (TrustStore_is_trusted store (dev_device_id dave_dev))) (\<lambda>_.
              Returns \<lparr>bs_first_contact = tr_trust_level rec1, bs_fingerprint = fp,
                bs_confirmed = tr_trust_level bob_rec, bs_qr_payload = qr_payload,
                bs_endorsement_size = length endorsement, bs_endorsed = tr_trust_level rec2,
                bs_store = store\<rparr>))))))))))"

section \<open>Handshakes\<close>

type_synonym 'k party = "protocol \<times> 'k device"

text \<open>\<^verbatim>\<open>process_incoming\<close> with what another call returned, which may be
  \<^verbatim>\<open>None\<close>: the parser then takes the length of \<^verbatim>\<open>None\<close>.\<close>

definition process_returned ::
  "'k crypto \<Rightarrow> 'k env \<Rightarrow> bytes option \<Rightarrow> ('k party, bytes option) pymethod" where
  "process_returned C v raw =
     (case raw of
        Some bs \<Rightarrow> Protocol_process_incoming C v bs
      | None \<Rightarrow> bindS get_state (\<lambda>st. pure (\<lambda>p d.
          Inl (if st = CLOSED \<or> st = ERROR_STATE then HandshakeError else TypeError))))"

text \<open>\<open>v i\<close> is what the call number \<open>i\<close> reads from the outside.\<close>

definition do_handshake ::
  "'k crypto \<Rightarrow> (nat \<Rightarrow> 'k env) \<Rightarrow> 'k party \<Rightarrow> 'k party \<Rightarrow> ('k party \<times> 'k party) outcome" where
  "do_handshake C v alice bob =
     bindO (call (Protocol_initiate C (v 0) (dev_device_id (snd bob)) alice)) (\<lambda>(h1, alice).
     bindO (call (Protocol_process_incoming C (v 1) h1 bob)) (\<lambda>(h2, bob).
     bindO (call (process_returned C (v 2) h2 alice)) (\<lambda>(k1, alice).
     bindO (call (process_returned C (v 3) k1 bob)) (\<lambda>(k2, bob).
     bindO (call (process_returned C (v 4) k2 alice)) (\<lambda>(_, alice).
       Returns (alice, bob))))))"

section \<open>Feature 2: transport abstraction\<close>

text \<open>The report is the decoded message.\<close>

definition transport_demo ::
  "'k crypto \<Rightarrow> (nat \<Rightarrow> 'k) \<Rightarrow> (nat \<Rightarrow> 'k env) \<Rightarrow> heap \<Rightarrow> pystr outcome" where
  "transport_demo C key v h =
     (let alice_t = 0; bob_t = 1;
          h = InProcessTransport_create_pair alice_t bob_t (ascii ''alice-addr'') (ascii ''bob-addr'') h;
          alice2 = (Protocol_new, Device_new C (key 0) ''Alice'');
          bob2 = (Protocol_new, Device_new C (key 1) ''Bob'')
      in bindO (do_handshake C v alice2 bob2) (\<lambda>(alice2, bob2).
         bindO (call (Protocol_send_data C (v 5) (ascii ''Transport-agnostic payload'') alice2)) (\<lambda>(data_wire, alice2).
         bindO (call (InProcessTransport_send alice_t (InProcessTransport_local_addr bob_t h) data_wire h)) (\<lambda>(_, h).
         bindO (call_recv (InProcessTransport_recv bob_t (Some 1) h)) (\<lambda>((src, received_wire), h).
         bindO (call (Protocol_receive_data C (v 6) received_wire bob2)) (\<lambda>(plaintext, bob2).
           call_pure (utf8_decode plaintext)))))))"

section \<open>Feature 3: mesh routing\<close>

text \<open>The report is the number of routes learned and the decoded message. \<open>t i\<close> are the clock readings
  of the routers.\<close>

definition mesh_demo ::
  "'k crypto \<Rightarrow> (nat \<Rightarrow> 'k) \<Rightarrow> (nat \<Rightarrow> 'k env) \<Rightarrow> (nat \<Rightarrow> real) \<Rightarrow> (bytes \<Rightarrow> real) \<Rightarrow> heap \<Rightarrow> (nat \<times> pystr) outcome" where
  "mesh_demo C key v t t_announce h =
     (let alice_dev3 = Device_new C (key 0) ''Alice'';
          bob_router_dev = Device_new C (key 1) ''Bob-Router'';
          charlie_dev3 = Device_new C (key 2) ''Charlie'';
          t_ab_a = 0; t_ab_b = 1; t_bc_b = 2; t_bc_c = 3;
          h = InProcessTransport_create_pair t_ab_a t_ab_b (ascii ''alice'') (ascii ''bob-router'') h;
          h = InProcessTransport_create_pair t_bc_b t_bc_c (ascii ''bob-router'') (ascii ''charlie'') h
      in bindO (call_pure (Router_new (dev_device_id alice_dev3) None (95 / 100))) (\<lambda>router_alice.
         bindO (call_pure (Router_new (dev_device_id bob_router_dev) None (95 / 100))) (\<lambda>router_bob.
         let router_alice = snd (Router_add_direct_route (t 0) (dev_device_id bob_router_dev) t_ab_a
               (ascii ''bob-router'') 1 0 router_alice);
             router_bob = snd (Router_add_direct_route (t 1) (dev_device_id alice_dev3) t_ab_b
               (ascii ''alice'') 1 0 router_bob);
             router_bob = snd (Router_add_direct_route (t 2) (dev_device_id charlie_dev3) t_bc_b
               (ascii ''charlie'') 1 0 router_bob)
         in bindO (call_pure (Router_build_announce_payload t_announce [] router_bob)) (\<lambda>announce_payload.
            bindO (call (Router_process_announce_payload (\<lambda>i. t (3 + i)) announce_payload t_ab_a
                     (ascii ''bob-router'') 1 router_alice)) (\<lambda>(updated, router_alice).
            bindO (do_handshake C v (Protocol_new, alice_dev3) (Protocol_new, charlie_dev3))
              (\<lambda>(proto_alice3, proto_charlie3).
            bindO (call (Protocol_send_data C (v 5) (ascii ''Routed zero-trust payload'') proto_alice3))
              (\<lambda>(data_bytes, proto_alice3).
            bindO (call (Router_forward InProcessTransport_send (t 10) data_bytes
                     (dev_device_id charlie_dev3) router_alice h)) (\<lambda>(_, h).
            bindO (call_recv (InProcessTransport_recv t_ab_b (Some 1) h)) (\<lambda>((_, forwarded), h).
            bindO (call (Router_forward InProcessTransport_send (t 11) forwarded
                     (dev_device_id charlie_dev3) router_bob h)) (\<lambda>(_, h).
            bindO (call_recv (InProcessTransport_recv t_bc_c (Some 1) h)) (\<lambda>((_, final), h).
            bindO (call (Protocol_receive_data C (v 6) final proto_charlie3)) (\<lambda>(plaintext, proto_charlie3).
            bindO (call_pure (utf8_decode plaintext)) (\<lambda>text.
              Returns (length updated, text))))))))))))))"

section \<open>Feature 4: reliability\<close>

record reliability_report =
  rl_sequence :: int
  rl_pending_sent :: nat
  rl_pending_acked :: nat
  rl_retransmitted :: nat
  rl_retries :: int
  rl_given_up :: "int list"

text \<open>\<^verbatim>\<open>channel._pending[seq].sent_at = time.time() - 1.0\<close>\<close>

definition set_sent_at :: "int \<Rightarrow> real \<Rightarrow> (reliable_channel, unit) pymethod" where
  "set_sent_at seq x c =
     (case dict_get (rc_pending c) seq of
        None \<Rightarrow> (Inl KeyError, c)
      | Some p \<Rightarrow> (Inr (), c\<lparr>rc_pending := dict_set seq (p\<lparr>pp_sent_at := x\<rparr>) (rc_pending c)\<rparr>))"

text \<open>\<open>t i\<close> are the readings of \<^verbatim>\<open>time.time()\<close>; one poll of a channel with one packet reads
  the clock twice.\<close>

definition reliability_demo ::
  "'k crypto \<Rightarrow> (nat \<Rightarrow> 'k) \<Rightarrow> (nat \<Rightarrow> 'k env) \<Rightarrow> (nat \<Rightarrow> real) \<Rightarrow> reliability_report outcome" where
  "reliability_demo C key v t =
     (let alice4 = (Protocol_new, Device_new C (key 0) ''Alice4'');
          bob4 = (Protocol_new, Device_new C (key 1) ''Bob4'')
      in bindO (do_handshake C v alice4 bob4) (\<lambda>(alice4, bob4).
         let channel = ReliableChannel_new 500 16000 3 False
         in bindO (call (ReliableChannel_send C (v 5) (t 0) (ascii ''Important message'') (channel, alice4)))
              (\<lambda>((seq, wire), (channel, alice4)).
            let pending_sent = ReliableChannel_pending_count channel;
                channel = snd (ReliableChannel_process_ack seq channel);
                pending_acked = ReliableChannel_pending_count channel
            in bindO (py_assert (ReliableChannel_pending_count channel = 0)) (\<lambda>_.
            bindO (call (ReliableChannel_send C (v 6) (t 1) (ascii ''Lost packet'') (channel, alice4)))
              (\<lambda>((seq2, _), (channel, alice4)).
            bindO (call (set_sent_at seq2 (t 2 - 1) channel)) (\<lambda>(_, channel).
            bindO (call (ReliableChannel_get_retransmissions (\<lambda>_. (t 3, t 4)) channel)) (\<lambda>(retrans, channel).
            bindO (not_None KeyError (dict_get (rc_pending channel) seq2)) (\<lambda>lost.
            let short_channel = ReliableChannel_new 500 16000 1 False
            in bindO (call (ReliableChannel_send C (v 7) (t 5) (ascii ''Will fail'') (short_channel, alice4)))
              (\<lambda>((seq3, _), (short_channel, alice4)).
            bindO (call (set_sent_at seq3 (t 6 - 1) short_channel)) (\<lambda>(_, short_channel).
            bindO (call (ReliableChannel_get_retransmissions (\<lambda>_. (t 7, t 8)) short_channel)) (\<lambda>(_, short_channel).
            bindO (call (set_sent_at seq3 (t 9 - 1) short_channel)) (\<lambda>(_, short_channel).
              case ReliableChannel_get_retransmissions (\<lambda>_. (t 10, t 11)) short_channel of
                (Inr _, _) \<Rightarrow> Raises SystemExit
              | (Inl (RetransmitError seqs), _) \<Rightarrow>
                  Returns \<lparr>rl_sequence = seq, rl_pending_sent = pending_sent, rl_pending_acked = pending_acked,
                    rl_retransmitted = length retrans, rl_retries = pp_retries lost, rl_given_up = seqs\<rparr>
              | (Inl e, _) \<Rightarrow> Raises e))))))))))))"

section \<open>Feature 5: MAC optimization\<close>

text \<open>\<^verbatim>\<open>for _ in range(N)\<close>: build a packet, serialise it, receive it.\<close>

fun packet_loop ::
  "'k crypto \<Rightarrow> (int \<Rightarrow> bytes \<Rightarrow> bytes \<Rightarrow> bytes \<Rightarrow> ('k device, packet) pymethod) \<Rightarrow> bytes \<Rightarrow>
     'k env list \<Rightarrow> 'k device \<Rightarrow> 'k device \<Rightarrow> ('k device \<times> 'k device) outcome" where
  "packet_loop C build plain [] alice bob = Returns (alice, bob)"
| "packet_loop C build plain (v # vs) alice bob =
     bindO (call (build (env_stamp v) (env_nonce v) (dev_device_id bob) plain alice)) (\<lambda>(packet, alice).
     bindO (call_pure (Packet_to_bytes packet)) (\<lambda>wire.
     bindO (call (Device_receive_packet C (env_parse v) (env_replay v) wire bob)) (\<lambda>(_, bob).
       packet_loop C build plain vs alice bob)))"

record mac_report =
  mr_ed25519_ms :: real
  mr_mac_ms :: real
  mr_speedup :: real
  mr_mac_key :: bytes

definition bench_rounds :: nat where "bench_rounds = 500"

text \<open>\<open>pc i\<close> are the readings of \<^verbatim>\<open>time.perf_counter()\<close>, \<open>v1 i\<close> and \<open>v2 i\<close> what the round \<open>i\<close> of each
  loop reads from the outside.\<close>

definition mac_demo ::
  "'k crypto \<Rightarrow> (nat \<Rightarrow> 'k) \<Rightarrow> (nat \<Rightarrow> 'k env) \<Rightarrow> (nat \<Rightarrow> 'k env) \<Rightarrow> (nat \<Rightarrow> 'k env) \<Rightarrow> (nat \<Rightarrow> real)
     \<Rightarrow> mac_report outcome" where
  "mac_demo C key v v1 v2 pc =
     (let alice5 = (Protocol_new, Device_new C (key 0) ''Alice5'');
          bob5 = (Protocol_new, Device_new C (key 1) ''Bob5'')
      in bindO (do_handshake C v alice5 bob5) (\<lambda>((_, alice5_dev), (_, bob5_dev)).
         bindO (packet_loop C (Device_build_data_packet C) (ascii ''bench'') (map v1 [0..<bench_rounds]) alice5_dev bob5_dev)
           (\<lambda>(alice5_dev, bob5_dev).
         let t_ed25519 = (pc 1 - pc 0) * 1000 / real bench_rounds
         in bindO (packet_loop C (Device_build_data_packet_mac C) (ascii ''bench'') (map v2 [0..<bench_rounds]) alice5_dev bob5_dev)
           (\<lambda>(alice5_dev, bob5_dev).
         let t_mac = (pc 3 - pc 2) * 1000 / real bench_rounds;
             speedup = t_ed25519 / max t_mac (1 / 1000)
         in bindO (call (Device_build_data_packet_mac C (env_stamp (v 5)) (env_nonce (v 5)) (dev_device_id bob5_dev)
                     (ascii ''fast'') alice5_dev)) (\<lambda>(mac_packet, alice5_dev).
            bindO (py_assert (pkt_flags mac_packet AND FLAG_MAC_AUTH \<noteq> 0)) (\<lambda>_.
            bindO (call_pure (Device_get_session alice5_dev (dev_device_id bob5_dev))) (\<lambda>session.
            bindO (call_pure (Packet_to_bytes mac_packet)) (\<lambda>wire.
            bindO (call (Device_receive_packet C (env_parse (v 6)) (env_replay (v 6)) wire bob5_dev))
              (\<lambda>(received, bob5_dev).
            bindO (call_pure (Device_decrypt_packet C bob5_dev received)) (\<lambda>plaintext_check.
            bindO (py_assert (plaintext_check = ascii ''fast'')) (\<lambda>_.
              Returns \<lparr>mr_ed25519_ms = t_ed25519, mr_mac_ms = t_mac, mr_speedup = speedup,
                mr_mac_key = ses_mac_key session\<rparr>)))))))))))"

section \<open>The script\<close>

text \<open>What the features read from the outside, and the objects on the heap before they start.\<close>

record 'k script_env =
  f1_key :: "nat \<Rightarrow> 'k"
  f1_now :: "nat \<Rightarrow> real"
  f2_key :: "nat \<Rightarrow> 'k"
  f2_env :: "nat \<Rightarrow> 'k env"
  f2_heap :: heap
  f3_key :: "nat \<Rightarrow> 'k"
  f3_env :: "nat \<Rightarrow> 'k env"
  f3_clock :: "nat \<Rightarrow> real"
  f3_announce :: "bytes \<Rightarrow> real"
  f3_heap :: heap
  f4_key :: "nat \<Rightarrow> 'k"
  f4_env :: "nat \<Rightarrow> 'k env"
  f4_clock :: "nat \<Rightarrow> real"
  f5_key :: "nat \<Rightarrow> 'k"
  f5_env :: "nat \<Rightarrow> 'k env"
  f5_signed :: "nat \<Rightarrow> 'k env"
  f5_mac :: "nat \<Rightarrow> 'k env"
  f5_timer :: "nat \<Rightarrow> real"

definition example_script ::
  "'k crypto \<Rightarrow> 'k script_env \<Rightarrow>
     (bootstrap_report \<times> pystr \<times> (nat \<times> pystr) \<times> reliability_report \<times> mac_report) outcome" where
  "example_script C x =
     bindO (trust_bootstrap_demo C (f1_key x) (f1_now x)) (\<lambda>r1.
     bindO (transport_demo C (f2_key x) (f2_env x) (f2_heap x)) (\<lambda>r2.
     bindO (mesh_demo C (f3_key x) (f3_env x) (f3_clock x) (f3_announce x) (f3_heap x)) (\<lambda>r3.
     bindO (reliability_demo C (f4_key x) (f4_env x) (f4_clock x)) (\<lambda>r4.
     bindO (mac_demo C (f5_key x) (f5_env x) (f5_signed x) (f5_mac x) (f5_timer x)) (\<lambda>r5.
       Returns (r1, r2, r3, r4, r5))))))"

end
