(* ===== verification/Sha256_Vector_C.thy ===== *)
theory Sha256_Vector_C
  imports Sha256_Vectors
begin

text \<open>
  The digest of a third 32-byte key, evaluated like those of \<open>Sha256_Vectors\<close>: the runs with three
  devices need three different identities.
\<close>

definition key_c :: bytes where
  "key_c = replicate 32 0xC3"

lemma sha_block_c:
  "sha_words (sha_pad key_c) =
     [0xc3c3c3c3, 0xc3c3c3c3, 0xc3c3c3c3, 0xc3c3c3c3, 0xc3c3c3c3, 0xc3c3c3c3, 0xc3c3c3c3, 0xc3c3c3c3, 0x80000000, 0x00000000, 0x00000000, 0x00000000, 0x00000000, 0x00000000, 0x00000000, 0x00000100]"
  by code_simp

lemma sha_sched_c1:
  "sha_schedule 16
     [0xc3c3c3c3, 0xc3c3c3c3, 0xc3c3c3c3, 0xc3c3c3c3, 0xc3c3c3c3, 0xc3c3c3c3, 0xc3c3c3c3, 0xc3c3c3c3, 0x80000000, 0x00000000, 0x00000000, 0x00000000, 0x00000000, 0x00000000, 0x00000000, 0x00000100] =
     [0x32d2d2d2, 0x3372d2d2, 0x6612be59, 0x66125635, 0x3bd0ee36, 0x94986e30, 0x9da6027b, 0x42923559, 0x74c8a7b9, 0xc229ebef, 0xad48fd09, 0x048b8161, 0xf5a71f62, 0x4e4382af, 0xaf32831b, 0x3c65fa0d]"
  by code_simp

lemma sha_sched_c2:
  "sha_schedule 16
     [0x32d2d2d2, 0x3372d2d2, 0x6612be59, 0x66125635, 0x3bd0ee36, 0x94986e30, 0x9da6027b, 0x42923559, 0x74c8a7b9, 0xc229ebef, 0xad48fd09, 0x048b8161, 0xf5a71f62, 0x4e4382af, 0xaf32831b, 0x3c65fa0d] =
     [0x1d7e60c3, 0x349c1bce, 0x5aa02a30, 0x3acda460, 0x0293172f, 0x0e8f05c3, 0xfafff4cb, 0x1809b3fd, 0x6b619f84, 0x46032891, 0x06ff2830, 0x14f0b456, 0x2d55064f, 0x18674aee, 0x4e989905, 0x119a6804]"
  by code_simp

lemma sha_sched_c3:
  "sha_schedule 16
     [0x1d7e60c3, 0x349c1bce, 0x5aa02a30, 0x3acda460, 0x0293172f, 0x0e8f05c3, 0xfafff4cb, 0x1809b3fd, 0x6b619f84, 0x46032891, 0x06ff2830, 0x14f0b456, 0x2d55064f, 0x18674aee, 0x4e989905, 0x119a6804] =
     [0x5f3c6876, 0x160f841c, 0xd6e72b60, 0x36473945, 0xd2a06792, 0x4e484abc, 0xe1785b06, 0x05bc4389, 0x88b548e8, 0x717d3c53, 0xce344c71, 0xfbb46756, 0x38aa46ab, 0xde6e675d, 0x4ff52c15, 0x9706e260]"
  by code_simp

lemma sha_rounds_c1:
  "foldl sha_round (0x6a09e667, 0xbb67ae85, 0x3c6ef372, 0xa54ff53a, 0x510e527f, 0x9b05688c, 0x1f83d9ab, 0x5be0cd19)
     [(0x428a2f98, 0xc3c3c3c3), (0x71374491, 0xc3c3c3c3), (0xb5c0fbcf, 0xc3c3c3c3), (0xe9b5dba5, 0xc3c3c3c3), (0x3956c25b, 0xc3c3c3c3), (0x59f111f1, 0xc3c3c3c3), (0x923f82a4, 0xc3c3c3c3), (0xab1c5ed5, 0xc3c3c3c3)] =
     (0xee125e60, 0x33eea051, 0xa370b51f, 0x7e604eb1, 0x6d96bf14, 0x7010d4b9, 0x0eb36ea2, 0x8b153396)"
  by code_simp

lemma sha_rounds_c2:
  "foldl sha_round (0xee125e60, 0x33eea051, 0xa370b51f, 0x7e604eb1, 0x6d96bf14, 0x7010d4b9, 0x0eb36ea2, 0x8b153396)
     [(0xd807aa98, 0x80000000), (0x12835b01, 0x00000000), (0x243185be, 0x00000000), (0x550c7dc3, 0x00000000), (0x72be5d74, 0x00000000), (0x80deb1fe, 0x00000000), (0x9bdc06a7, 0x00000000), (0xc19bf174, 0x00000100)] =
     (0x36bcfda8, 0x3e8ae76a, 0xe818fbd5, 0xadb33e08, 0x39ec42b8, 0x93c3c9c3, 0xbff724a1, 0xca8813f9)"
  by code_simp

lemma sha_rounds_c3:
  "foldl sha_round (0x36bcfda8, 0x3e8ae76a, 0xe818fbd5, 0xadb33e08, 0x39ec42b8, 0x93c3c9c3, 0xbff724a1, 0xca8813f9)
     [(0xe49b69c1, 0x32d2d2d2), (0xefbe4786, 0x3372d2d2), (0x0fc19dc6, 0x6612be59), (0x240ca1cc, 0x66125635), (0x2de92c6f, 0x3bd0ee36), (0x4a7484aa, 0x94986e30), (0x5cb0a9dc, 0x9da6027b), (0x76f988da, 0x42923559)] =
     (0xdb015080, 0x2f6564a3, 0xc91b9350, 0x35172aad, 0x8b87fc83, 0x98bb9508, 0x7cb8ab09, 0x6c850f7f)"
  by code_simp

lemma sha_rounds_c4:
  "foldl sha_round (0xdb015080, 0x2f6564a3, 0xc91b9350, 0x35172aad, 0x8b87fc83, 0x98bb9508, 0x7cb8ab09, 0x6c850f7f)
     [(0x983e5152, 0x74c8a7b9), (0xa831c66d, 0xc229ebef), (0xb00327c8, 0xad48fd09), (0xbf597fc7, 0x048b8161), (0xc6e00bf3, 0xf5a71f62), (0xd5a79147, 0x4e4382af), (0x06ca6351, 0xaf32831b), (0x14292967, 0x3c65fa0d)] =
     (0xff82b7b7, 0x5c038261, 0x60409844, 0xe208e9c9, 0x63c3e027, 0x9e35ae8e, 0xdcf30b55, 0x49ceb1a9)"
  by code_simp

lemma sha_rounds_c5:
  "foldl sha_round (0xff82b7b7, 0x5c038261, 0x60409844, 0xe208e9c9, 0x63c3e027, 0x9e35ae8e, 0xdcf30b55, 0x49ceb1a9)
     [(0x27b70a85, 0x1d7e60c3), (0x2e1b2138, 0x349c1bce), (0x4d2c6dfc, 0x5aa02a30), (0x53380d13, 0x3acda460), (0x650a7354, 0x0293172f), (0x766a0abb, 0x0e8f05c3), (0x81c2c92e, 0xfafff4cb), (0x92722c85, 0x1809b3fd)] =
     (0x2f493a49, 0x926b0424, 0x9842a0e0, 0x356d832b, 0x4fee0175, 0x2b5e6cca, 0x8fcac3b8, 0xef6c357b)"
  by code_simp

lemma sha_rounds_c6:
  "foldl sha_round (0x2f493a49, 0x926b0424, 0x9842a0e0, 0x356d832b, 0x4fee0175, 0x2b5e6cca, 0x8fcac3b8, 0xef6c357b)
     [(0xa2bfe8a1, 0x6b619f84), (0xa81a664b, 0x46032891), (0xc24b8b70, 0x06ff2830), (0xc76c51a3, 0x14f0b456), (0xd192e819, 0x2d55064f), (0xd6990624, 0x18674aee), (0xf40e3585, 0x4e989905), (0x106aa070, 0x119a6804)] =
     (0x55640189, 0xee5fabf2, 0xd675103d, 0xe8084980, 0xf178d38e, 0xae77f2b0, 0xaa960cc8, 0x19300bdd)"
  by code_simp

lemma sha_rounds_c7:
  "foldl sha_round (0x55640189, 0xee5fabf2, 0xd675103d, 0xe8084980, 0xf178d38e, 0xae77f2b0, 0xaa960cc8, 0x19300bdd)
     [(0x19a4c116, 0x5f3c6876), (0x1e376c08, 0x160f841c), (0x2748774c, 0xd6e72b60), (0x34b0bcb5, 0x36473945), (0x391c0cb3, 0xd2a06792), (0x4ed8aa4a, 0x4e484abc), (0x5b9cca4f, 0xe1785b06), (0x682e6ff3, 0x05bc4389)] =
     (0xb348faa4, 0x4b6d0527, 0xa2a69511, 0x977712ac, 0x29181acc, 0x60fbc29d, 0x7d6f626e, 0xf0e64649)"
  by code_simp

lemma sha_rounds_c8:
  "foldl sha_round (0xb348faa4, 0x4b6d0527, 0xa2a69511, 0x977712ac, 0x29181acc, 0x60fbc29d, 0x7d6f626e, 0xf0e64649)
     [(0x748f82ee, 0x88b548e8), (0x78a5636f, 0x717d3c53), (0x84c87814, 0xce344c71), (0x8cc70208, 0xfbb46756), (0x90befffa, 0x38aa46ab), (0xa4506ceb, 0xde6e675d), (0xbef9a3f7, 0x4ff52c15), (0xc67178f2, 0x9706e260)] =
     (0xe17642a8, 0x61e5c661, 0x2531f6ff, 0xee22d66b, 0xb453beed, 0xfd0971f3, 0x05870a66, 0xf436f928)"
  by code_simp

lemma sha_pairs_c:
  "zip sha_K ([0xc3c3c3c3, 0xc3c3c3c3, 0xc3c3c3c3, 0xc3c3c3c3, 0xc3c3c3c3, 0xc3c3c3c3, 0xc3c3c3c3, 0xc3c3c3c3, 0x80000000, 0x00000000, 0x00000000, 0x00000000, 0x00000000, 0x00000000, 0x00000000, 0x00000100] @
     [0x32d2d2d2, 0x3372d2d2, 0x6612be59, 0x66125635, 0x3bd0ee36, 0x94986e30, 0x9da6027b, 0x42923559, 0x74c8a7b9, 0xc229ebef, 0xad48fd09, 0x048b8161, 0xf5a71f62, 0x4e4382af, 0xaf32831b, 0x3c65fa0d] @
     [0x1d7e60c3, 0x349c1bce, 0x5aa02a30, 0x3acda460, 0x0293172f, 0x0e8f05c3, 0xfafff4cb, 0x1809b3fd, 0x6b619f84, 0x46032891, 0x06ff2830, 0x14f0b456, 0x2d55064f, 0x18674aee, 0x4e989905, 0x119a6804] @
     [0x5f3c6876, 0x160f841c, 0xd6e72b60, 0x36473945, 0xd2a06792, 0x4e484abc, 0xe1785b06, 0x05bc4389, 0x88b548e8, 0x717d3c53, 0xce344c71, 0xfbb46756, 0x38aa46ab, 0xde6e675d, 0x4ff52c15, 0x9706e260]) =
     [(0x428a2f98, 0xc3c3c3c3), (0x71374491, 0xc3c3c3c3), (0xb5c0fbcf, 0xc3c3c3c3), (0xe9b5dba5, 0xc3c3c3c3), (0x3956c25b, 0xc3c3c3c3), (0x59f111f1, 0xc3c3c3c3), (0x923f82a4, 0xc3c3c3c3), (0xab1c5ed5, 0xc3c3c3c3)] @
     [(0xd807aa98, 0x80000000), (0x12835b01, 0x00000000), (0x243185be, 0x00000000), (0x550c7dc3, 0x00000000), (0x72be5d74, 0x00000000), (0x80deb1fe, 0x00000000), (0x9bdc06a7, 0x00000000), (0xc19bf174, 0x00000100)] @
     [(0xe49b69c1, 0x32d2d2d2), (0xefbe4786, 0x3372d2d2), (0x0fc19dc6, 0x6612be59), (0x240ca1cc, 0x66125635), (0x2de92c6f, 0x3bd0ee36), (0x4a7484aa, 0x94986e30), (0x5cb0a9dc, 0x9da6027b), (0x76f988da, 0x42923559)] @
     [(0x983e5152, 0x74c8a7b9), (0xa831c66d, 0xc229ebef), (0xb00327c8, 0xad48fd09), (0xbf597fc7, 0x048b8161), (0xc6e00bf3, 0xf5a71f62), (0xd5a79147, 0x4e4382af), (0x06ca6351, 0xaf32831b), (0x14292967, 0x3c65fa0d)] @
     [(0x27b70a85, 0x1d7e60c3), (0x2e1b2138, 0x349c1bce), (0x4d2c6dfc, 0x5aa02a30), (0x53380d13, 0x3acda460), (0x650a7354, 0x0293172f), (0x766a0abb, 0x0e8f05c3), (0x81c2c92e, 0xfafff4cb), (0x92722c85, 0x1809b3fd)] @
     [(0xa2bfe8a1, 0x6b619f84), (0xa81a664b, 0x46032891), (0xc24b8b70, 0x06ff2830), (0xc76c51a3, 0x14f0b456), (0xd192e819, 0x2d55064f), (0xd6990624, 0x18674aee), (0xf40e3585, 0x4e989905), (0x106aa070, 0x119a6804)] @
     [(0x19a4c116, 0x5f3c6876), (0x1e376c08, 0x160f841c), (0x2748774c, 0xd6e72b60), (0x34b0bcb5, 0x36473945), (0x391c0cb3, 0xd2a06792), (0x4ed8aa4a, 0x4e484abc), (0x5b9cca4f, 0xe1785b06), (0x682e6ff3, 0x05bc4389)] @
     [(0x748f82ee, 0x88b548e8), (0x78a5636f, 0x717d3c53), (0x84c87814, 0xce344c71), (0x8cc70208, 0xfbb46756), (0x90befffa, 0x38aa46ab), (0xa4506ceb, 0xde6e675d), (0xbef9a3f7, 0x4ff52c15), (0xc67178f2, 0x9706e260)]"
  by (simp add: sha_K_def)

lemma sha_all_rounds_c:
  "foldl sha_round sha_H0 (
     [(0x428a2f98, 0xc3c3c3c3), (0x71374491, 0xc3c3c3c3), (0xb5c0fbcf, 0xc3c3c3c3), (0xe9b5dba5, 0xc3c3c3c3), (0x3956c25b, 0xc3c3c3c3), (0x59f111f1, 0xc3c3c3c3), (0x923f82a4, 0xc3c3c3c3), (0xab1c5ed5, 0xc3c3c3c3)] @
     [(0xd807aa98, 0x80000000), (0x12835b01, 0x00000000), (0x243185be, 0x00000000), (0x550c7dc3, 0x00000000), (0x72be5d74, 0x00000000), (0x80deb1fe, 0x00000000), (0x9bdc06a7, 0x00000000), (0xc19bf174, 0x00000100)] @
     [(0xe49b69c1, 0x32d2d2d2), (0xefbe4786, 0x3372d2d2), (0x0fc19dc6, 0x6612be59), (0x240ca1cc, 0x66125635), (0x2de92c6f, 0x3bd0ee36), (0x4a7484aa, 0x94986e30), (0x5cb0a9dc, 0x9da6027b), (0x76f988da, 0x42923559)] @
     [(0x983e5152, 0x74c8a7b9), (0xa831c66d, 0xc229ebef), (0xb00327c8, 0xad48fd09), (0xbf597fc7, 0x048b8161), (0xc6e00bf3, 0xf5a71f62), (0xd5a79147, 0x4e4382af), (0x06ca6351, 0xaf32831b), (0x14292967, 0x3c65fa0d)] @
     [(0x27b70a85, 0x1d7e60c3), (0x2e1b2138, 0x349c1bce), (0x4d2c6dfc, 0x5aa02a30), (0x53380d13, 0x3acda460), (0x650a7354, 0x0293172f), (0x766a0abb, 0x0e8f05c3), (0x81c2c92e, 0xfafff4cb), (0x92722c85, 0x1809b3fd)] @
     [(0xa2bfe8a1, 0x6b619f84), (0xa81a664b, 0x46032891), (0xc24b8b70, 0x06ff2830), (0xc76c51a3, 0x14f0b456), (0xd192e819, 0x2d55064f), (0xd6990624, 0x18674aee), (0xf40e3585, 0x4e989905), (0x106aa070, 0x119a6804)] @
     [(0x19a4c116, 0x5f3c6876), (0x1e376c08, 0x160f841c), (0x2748774c, 0xd6e72b60), (0x34b0bcb5, 0x36473945), (0x391c0cb3, 0xd2a06792), (0x4ed8aa4a, 0x4e484abc), (0x5b9cca4f, 0xe1785b06), (0x682e6ff3, 0x05bc4389)] @
     [(0x748f82ee, 0x88b548e8), (0x78a5636f, 0x717d3c53), (0x84c87814, 0xce344c71), (0x8cc70208, 0xfbb46756), (0x90befffa, 0x38aa46ab), (0xa4506ceb, 0xde6e675d), (0xbef9a3f7, 0x4ff52c15), (0xc67178f2, 0x9706e260)]) =
     (0xe17642a8, 0x61e5c661, 0x2531f6ff, 0xee22d66b, 0xb453beed, 0xfd0971f3, 0x05870a66, 0xf436f928)"
  by (simp only: sha_H0_def foldl_append sha_rounds_c1 sha_rounds_c2 sha_rounds_c3 sha_rounds_c4 sha_rounds_c5 sha_rounds_c6 sha_rounds_c7 sha_rounds_c8)

definition id_c :: bytes where
  "id_c = [0x4b, 0x80, 0x29, 0x0f, 0x1d, 0x4d, 0x74, 0xe6, 0x61, 0xa0, 0xea, 0x71, 0x93, 0x72, 0xcb, 0xa5, 0x05, 0x62, 0x11, 0x6c, 0x98, 0x0e, 0xda, 0x7f, 0x25, 0x0a, 0xe4, 0x11, 0x50, 0x17, 0xc6, 0x41]"

lemma sha256_key_c: "sha256 key_c = id_c"
proof -
  have "sha256 key_c = sha_digest (sha_add sha_H0 (0xe17642a8, 0x61e5c661, 0x2531f6ff, 0xee22d66b, 0xb453beed, 0xfd0971f3, 0x05870a66, 0xf436f928))"
    by (rule sha256_one_block [OF sha_block_c _ sha_sched_c1 sha_sched_c2 sha_sched_c3 sha_pairs_c sha_all_rounds_c]) simp
  also have "\<dots> = id_c"
    by code_simp
  finally show ?thesis .
qed

lemma length_key_c [simp]: "length key_c = 32" "length id_c = 32"
  by (simp_all add: key_c_def id_c_def)

lemma ids_differ_c [simp]: "id_a \<noteq> id_c" "id_b \<noteq> id_c" "id_c \<noteq> id_a" "id_c \<noteq> id_b"
  by (simp_all add: id_a_def id_b_def id_c_def)

end
