(* ===== verification/Example_Runs.thy ===== *)
theory Example_Runs
  imports Example Sha256_Vector_C
begin

text \<open>
  The features of \<^verbatim>\<open>example.py\<close> run through: what each of them reports, for every
  implementation of the cryptographic primitives that keeps their laws and for every clock that does what
  the feature needs of it.
\<close>

section \<open>Lemmas\<close>

text \<open>What the calls of a handshake read from the outside.\<close>

definition handshake_env :: "(nat \<Rightarrow> 'k env) \<Rightarrow> bool" where
  "handshake_env v \<longleftrightarrow> (\<forall>i < 4. 0 < env_stamp (v i) \<and> env_stamp (v i) < 256 ^ 8 \<and> length (env_nonce (v i)) = 12) \<and>
     \<bar>env_confirm (v 3) - env_stamp (v 2)\<bar> \<le> 30000 \<and> \<bar>env_replay (v 4) - env_stamp (v 3)\<bar> \<le> 30000"

text \<open>A packet stamped by one call and checked by another.\<close>

definition message_env :: "'k env \<Rightarrow> 'k env \<Rightarrow> bool" where
  "message_env va vb \<longleftrightarrow> 0 < env_stamp va \<and> env_stamp va < 256 ^ 8 \<and> length (env_nonce va) = 12 \<and>
     \<bar>env_replay vb - env_stamp va\<bar> \<le> 30000"

lemma do_handshake_ok:
  assumes "crypto_laws C" and "handshake_env v"
  obtains pa da pb db where
    "do_handshake C v (Protocol_new, Device_new C ka na) (Protocol_new, Device_new C kb nb)
       = Returns ((pa, da), (pb, db))"
    "pr_state pa = ESTABLISHED" "pr_peer_id pa = Some (dev_device_id db)" "pr_state pb = ESTABLISHED"
    "in_step C da db 1"
    "dev_device_id da = dev_device_id (Device_new C ka na)" "dev_device_id db = dev_device_id (Device_new C kb nb)"
proof -
  have v: "env_ok (v 0)" "env_ok (v 1)" "env_ok (v 2)" "env_ok (v 3)"
    "\<bar>env_confirm (v 3) - env_stamp (v 2)\<bar> \<le> 30000" "\<bar>env_replay (v 4) - env_stamp (v 3)\<bar> \<le> 30000"
    using assms(2) by (simp_all add: handshake_env_def)
  show ?thesis
  proof (rule handshake_in_step [OF assms(1) v, where ka = ka and na = na and kb = kb and nb = nb], goal_cases)
    case (1 h1 h2 k1 k2 s1 t1 s2 pa da pb db)
    then show ?thesis by (intro that [of pa da pb db]) (simp_all add: do_handshake_def process_returned_def)
  qed
qed

lemma pair_linked:
  assumes "a \<noteq> b"
  shows "ip_peer (InProcessTransport_create_pair a b addr_a addr_b h a) = Some b"
    "\<not> ip_closed (InProcessTransport_create_pair a b addr_a addr_b h a)"
    "\<not> ip_closed (InProcessTransport_create_pair a b addr_a addr_b h b)"
    "ip_inbox (InProcessTransport_create_pair a b addr_a addr_b h b) = []"
    "r \<noteq> a \<Longrightarrow> r \<noteq> b \<Longrightarrow> InProcessTransport_create_pair a b addr_a addr_b h r = h r"
  using assms by (simp_all add: InProcessTransport_create_pair_def InProcessTransport_new_def Let_def)

text \<open>A datagram over a link that holds no other.\<close>

lemma link_delivers:
  assumes "ip_peer (h a) = Some b" "\<not> ip_closed (h a)" "\<not> ip_closed (h b)" "ip_inbox (h b) = []" "a \<noteq> b" "0 \<le> s"
  obtains h1 where "InProcessTransport_send a dest wire h = (Inr (), h1)"
    and "InProcessTransport_recv b (Some s) h1 = (Returns (ip_local_addr (h a), wire), h)"
proof (rule that)
  show "InProcessTransport_send a dest wire h = (Inr (), inbox_put b (ip_local_addr (h a), wire) h)"
    using assms by (simp add: InProcessTransport_send_def)
  show "InProcessTransport_recv b (Some s) (inbox_put b (ip_local_addr (h a), wire) h)
      = (Returns (ip_local_addr (h a), wire), h)"
    using assms by (auto simp: InProcessTransport_recv_def inbox_put_def)
qed

text \<open>A handshake of two new devices and one message.\<close>

lemma demo_message:
  assumes "crypto_laws C" and "handshake_env v" and "message_env va vb" and "int (length plain) < 2 ^ 31"
  obtains alice bob wire alice' bob' where
    "do_handshake C v (Protocol_new, Device_new C ka na) (Protocol_new, Device_new C kb nb) = Returns (alice, bob)"
    "Protocol_send_data C va plain alice = (Inr wire, alice')"
    "Protocol_receive_data C vb wire bob = (Inr plain, bob')"
proof -
  obtain pa da pb db where hs: "do_handshake C v (Protocol_new, Device_new C ka na)
      (Protocol_new, Device_new C kb nb) = Returns ((pa, da), (pb, db))"
    and p: "pr_state pa = ESTABLISHED" "pr_peer_id pa = Some (dev_device_id db)" "pr_state pb = ESTABLISHED"
    and s: "in_step C da db 1"
    using do_handshake_ok [OF assms(1,2)] by metis
  have v: "env_ok va" "\<bar>env_replay vb - env_stamp va\<bar> \<le> 30000"
    using assms(3) by (simp_all add: message_env_def)
  show ?thesis
    by (rule data_exchanged [OF assms(1) s v(1) assms(4) _ v(2) p]) (simp, rule that [OF hs])
qed

section \<open>Transport abstraction\<close>

lemma transport_demo_runs:
  assumes "crypto_laws C" and "handshake_env v" and "message_env (v 5) (v 6)"
  shows "transport_demo C key v h = Returns (py_lit ''Transport-agnostic payload'')"
proof -
  let ?h = "InProcessTransport_create_pair 0 1 (ascii ''alice-addr'') (ascii ''bob-addr'') h"
  let ?m = "ascii ''Transport-agnostic payload''"
  obtain alice bob wire alice' bob' where m:
    "do_handshake C v (Protocol_new, Device_new C (key 0) ''Alice'') (Protocol_new, Device_new C (key 1) ''Bob'')
       = Returns (alice, bob)"
    "Protocol_send_data C (v 5) ?m alice = (Inr wire, alice')" "Protocol_receive_data C (v 6) wire bob = (Inr ?m, bob')"
    by (rule demo_message [OF assms, of ?m]) (simp_all add: ascii_def)
  obtain h1 where t: "InProcessTransport_send 0 (InProcessTransport_local_addr 1 ?h) wire ?h = (Inr (), h1)"
    "InProcessTransport_recv 1 (Some 1) h1 = (Returns (ip_local_addr (?h 0), wire), ?h)"
    by (rule link_delivers [of ?h 0 1 1 "InProcessTransport_local_addr 1 ?h" wire]) (simp_all add: pair_linked)
  have "utf8_decode ?m = Inr (py_lit ''Transport-agnostic payload'')" by code_simp
  with m t show ?thesis by (simp add: transport_demo_def Let_def)
qed

section \<open>Trust bootstrap\<close>

lemma TrustStore_add_new:
  assumes "dict_get (ts_records st) (sha256 k) = None" and "length k = 32"
  obtains r where "tr_ed25519_public r = k" "tr_trust_level r = l" "tr_endorsement_depth r = 0"
    and "TrustStore_add now k l st = (Inr r, st\<lparr>ts_records := dict_set (sha256 k) r (ts_records st)\<rparr>)"
  using assms by (simp add: TrustStore_add_def TrustRecord_new_def Let_def)

lemma TrustStore_add_ok:
  assumes "length k = 32"
  obtains r where "TrustStore_add now k l st = (Inr r, st\<lparr>ts_records := dict_set (sha256 k) r (ts_records st)\<rparr>)"
  by (metis assms store_keyring.add_succeeds TrustStore_add_Inr(1) put_record_def)

lemma first_contact_confirmed:
  assumes "ts_records st = []" and "ts_allow_tofu st" and "length k = 32"
  obtains r where "tr_trust_level r = TOFU"
    and "TrustStore_process_hello now (sha256 k) k st = (Inr r, st\<lparr>ts_records := [(sha256 k, r)]\<rparr>)"
    and "TrustStore_verify_fingerprint (sha256 k) (fingerprint_of k) (st\<lparr>ts_records := [(sha256 k, r)]\<rparr>)
      = (True, st\<lparr>ts_records := [(sha256 k, r\<lparr>tr_trust_level := VERIFIED\<rparr>)]\<rparr>)"
proof -
  obtain r where "tr_ed25519_public r = k" "tr_trust_level r = TOFU"
    "TrustStore_add now k TOFU st = (Inr r, st\<lparr>ts_records := dict_set (sha256 k) r (ts_records st)\<rparr>)"
    by (rule TrustStore_add_new [of st k TOFU now]) (simp_all add: assms)
  then show ?thesis
    using that [of r] assms
    by (simp add: TrustStore_process_hello_def TrustStore_verify_fingerprint_def max_def less_eq_TrustLevel_def)
qed

lemma new_device_identity:
  "dev_device_id (Device_new C k n) = sha256 (ed_pub C k)"
  "dev_identity_public_bytes (Device_new C k n) = ed_pub C k" "dev_identity_private (Device_new C k n) = k"
  by (simp_all add: Device_new_def crypto_engine_defs)

lemma trust_bootstrap_runs:
  assumes laws: "crypto_laws C"
    and ids: "sha256 (ed_pub C (key 2)) \<notin> {sha256 (ed_pub C (key 0)), sha256 (ed_pub C (key 1))}"
  shows "\<exists>rep. trust_bootstrap_demo C key now = Returns rep \<and> bs_first_contact rep = TOFU \<and>
     bs_confirmed rep = VERIFIED \<and> bs_endorsement_size rep = 160 \<and> bs_endorsed rep = ENDORSED"
proof -
  let ?k = "\<lambda>i. ed_pub C (key i)"
  have ed: "ed_laws C" and len: "length (?k i) = 32" "length (ed_sign C (key i) b) = 64" for i b
    using laws by (simp_all add: crypto_laws_def ed_laws_def)
  let ?st0 = "TrustStore_new True TOFU 3"
  obtain r1 where r1: "tr_trust_level r1 = TOFU"
    and s1: "TrustStore_process_hello (now 0) (sha256 (?k 0)) (?k 0) ?st0 = (Inr r1, ?st0\<lparr>ts_records := [(sha256 (?k 0), r1)]\<rparr>)"
      "TrustStore_verify_fingerprint (sha256 (?k 0)) (fingerprint_of (?k 0)) (?st0\<lparr>ts_records := [(sha256 (?k 0), r1)]\<rparr>)
        = (True, ?st0\<lparr>ts_records := [(sha256 (?k 0), r1\<lparr>tr_trust_level := VERIFIED\<rparr>)]\<rparr>)"
    by (rule first_contact_confirmed [of ?st0 "?k 0" "now 0"]) (simp_all add: TrustStore_new_def len)
  define st1 where "st1 = ?st0\<lparr>ts_records := [(sha256 (?k 0), r1\<lparr>tr_trust_level := VERIFIED\<rparr>)]\<rparr>"
  obtain r2 where s2: "TrustStore_add (now 1) (?k 1) VERIFIED st1
      = (Inr r2, st1\<lparr>ts_records := dict_set (sha256 (?k 1)) r2 (ts_records st1)\<rparr>)"
    by (rule TrustStore_add_ok [OF len(1)])
  define st2 where "st2 = st1\<lparr>ts_records := dict_set (sha256 (?k 1)) r2 (ts_records st1)\<rparr>"
  obtain r3 where r3: "tr_ed25519_public r3 = ?k 2" "tr_trust_level r3 = VERIFIED" "tr_endorsement_depth r3 = 0"
    and s3: "TrustStore_add (now 2) (?k 2) VERIFIED st2
      = (Inr r3, st2\<lparr>ts_records := dict_set (sha256 (?k 2)) r3 (ts_records st2)\<rparr>)"
    by (rule TrustStore_add_new [of st2 "?k 2" VERIFIED "now 2"]) (use ids in \<open>simp_all add: st1_def st2_def dict_simps len\<close>)
  define st3 where "st3 = st2\<lparr>ts_records := dict_set (sha256 (?k 2)) r3 (ts_records st2)\<rparr>"
  define e where "e = create_endorsement C (key 2) (sha256 (?k 2)) (sha256 (?k 3)) (?k 3)"
  obtain r4 where r4: "tr_trust_level r4 = ENDORSED"
    and s4: "TrustStore_add_endorsement C (now 3) e (sha256 (?k 2)) st3
      = (Inr r4, st3\<lparr>ts_records := dict_set (sha256 (?k 3)) r4 (ts_records st3)\<rparr>)"
    unfolding e_def
    by (rule endorsement_accepted [OF ed, of st3 "sha256 (?k 2)" r3 "key 2" "sha256 (?k 3)" "?k 3" "now 3"])
       (simp_all add: r3 len TrustStore_get_def dict_simps TrustStore_new_def st1_def st2_def st3_def)
  have "TrustStore_get st1 (sha256 (?k 0)) = Some (r1\<lparr>tr_trust_level := VERIFIED\<rparr>)"
    by (simp add: st1_def TrustStore_get_def)
  moreover have "TrustStore_is_trusted (st3\<lparr>ts_records := dict_set (sha256 (?k 3)) r4 (ts_records st3)\<rparr>) (sha256 (?k 3))"
    by (simp add: TrustStore_is_trusted_def dict_simps st1_def st2_def st3_def TrustStore_new_def r4 less_eq_TrustLevel_def)
  moreover have "length e = 160" by (simp add: e_def create_endorsement_def crypto_sign_def Let_def len)
  ultimately show ?thesis
    using r1 r4 s1 s2 s3 s4 unfolding st1_def [symmetric] st2_def [symmetric] st3_def [symmetric]
    by (simp add: trust_bootstrap_demo_def Let_def new_device_identity qr_roundtrip len e_def [symmetric])
qed

section \<open>Mesh routing\<close>

lemma single_route_best:
  assumes "dict_get_or [] (rt_routes tb) d = [e]" and "now - re_last_seen e \<le> rt_stale_after tb" and "1 \<le> re_hop_count e"
  shows "RouteTable_best now tb d = Inr (Some e)"
proof -
  obtain s where "RouteEntry_score e = Inr s" using score_quality [OF assms(3)] by blast
  then show ?thesis using assms(1,2) by (simp add: RouteTable_best_def fresh_routes_def)
qed

lemma single_route_forward:
  assumes "dict_get_or [] (rt_routes (ro_table r)) d = [e]" and "now - re_last_seen e \<le> rt_stale_after (ro_table r)"
    and "1 \<le> re_hop_count e"
  shows "Router_forward send now raw d r w = send (re_transport e) (re_next_hop_addr e) raw w"
  by (simp add: Router_forward_def Router_get_route_def single_route_best [OF assms])

text \<open>A router that knows two neighbours announces itself and both of them.\<close>

lemma two_neighbours_announced:
  assumes "rt_routes (ro_table r) = [(a, [ea]), (c, [ec])]" and "distinct [ro_local_id r, a, c]"
    and "re_hop_count ea = 1" "re_hop_count ec = 1" "length (ro_local_id r) = 32" "length a = 32" "length c = 32"
    and "now_of a - re_last_seen ea \<le> rt_stale_after (ro_table r)" "now_of c - re_last_seen ec \<le> rt_stale_after (ro_table r)"
  obtains payload where "Router_build_announce_payload now_of [] r = Inr payload" and "length payload = 102"
    and "unpack_routes payload = [(ro_local_id r, 0), (a, 2), (c, 2)]"
proof -
  have best: "RouteTable_best (now_of a) (ro_table r) a = Inr (Some ea)"
    "RouteTable_best (now_of c) (ro_table r) c = Inr (Some ec)"
    using assms by (auto intro!: single_route_best simp: dict_get_or_def)
  have "Router_announced now_of [] r = Inr [(ro_local_id r, 0), (a, 2), (c, 2)]"
    using assms(1-4) best by (auto simp: Router_announced_def RouteTable_known_destinations_def keep_lowest_def)
  moreover obtain payload where "pack_routes [(ro_local_id r, 0), (a, 2), (c, 2)] = Inr payload"
    "length payload = 102" "unpack_routes payload = [(ro_local_id r, 0), (a, 2), (c, 2)]"
    using unpack_pack_routes [of "[(ro_local_id r, 0), (a, 2), (c, 2)]"] assms(5-7) by auto
  ultimately show ?thesis
    using that by (simp add: Router_build_announce_payload_def del: pack_routes.simps)
qed

lemma route_learned:
  assumes "rt_routes (ro_table r) = [(b, es)]" and "distinct [b, ro_local_id r, c]" and "length payload = 102"
    and "unpack_routes payload = [(b, 0), (ro_local_id r, 2), (c, 2)]"
  obtains updated r' where "Router_process_announce_payload clock payload via addr trust r = (Inr updated, r')"
    and "length updated = 2" and "rt_stale_after (ro_table r') = rt_stale_after (ro_table r)"
    and "dict_get_or [] (rt_routes (ro_table r')) c = [learned_entry r (clock 2) via addr trust (c, 2)]"
proof -
  let ?b = "learned_entry r (clock 0) via addr trust (b, 0)" and ?c = "learned_entry r (clock 2) via addr trust (c, 2)"
  let ?r = "r\<lparr>ro_table := fold RouteTable_add [?b, ?c] (ro_table r)\<rparr>"
  have "Router_process_announce_payload clock payload via addr trust r = (Inr [?b, ?c], ?r)"
    using assms(2-4) by (auto simp: Router_process_announce_payload_def ENTRY_SIZE_def numeral_2_eq_2)
  moreover have "dict_get_or [] (rt_routes (ro_table ?r)) c = [?c]"
    using assms(1,2) by (auto simp: RouteTable_add_def dict_get_or_def dict_simps)
  moreover have "rt_stale_after (ro_table ?r) = rt_stale_after (ro_table r)" by (simp add: RouteTable_add_def)
  ultimately show ?thesis using that [of "[?b, ?c]" ?r] by simp
qed

text \<open>The transports of the three nodes.\<close>

definition mesh_heap :: "heap \<Rightarrow> heap" where
  "mesh_heap h = InProcessTransport_create_pair 2 3 (ascii ''bob-router'') (ascii ''charlie'')
     (InProcessTransport_create_pair 0 1 (ascii ''alice'') (ascii ''bob-router'') h)"

lemma mesh_links:
  "ip_peer (mesh_heap h 0) = Some 1" "\<not> ip_closed (mesh_heap h 0)" "\<not> ip_closed (mesh_heap h 1)" "ip_inbox (mesh_heap h 1) = []"
  "ip_peer (mesh_heap h 2) = Some 3" "\<not> ip_closed (mesh_heap h 2)" "\<not> ip_closed (mesh_heap h 3)" "ip_inbox (mesh_heap h 3) = []"
  by (simp_all add: mesh_heap_def pair_linked)

text \<open>A direct route with the default trust and latency.\<close>

definition direct_entry :: "real \<Rightarrow> bytes \<Rightarrow> tref \<Rightarrow> bytes \<Rightarrow> route_entry" where
  "direct_entry now d via addr = \<lparr>re_device_id = d, re_transport = via, re_next_hop_addr = addr, re_hop_count = 1,
     re_trust_score = 1, re_latency_ms = 0, re_last_seen = now\<rparr>"

lemma direct_route_added:
  "snd (Router_add_direct_route now d via addr 1 0 r) = r\<lparr>ro_table := RouteTable_add (direct_entry now d via addr) (ro_table r)\<rparr>"
  by (simp add: Router_add_direct_route_def direct_entry_def Let_def)

text \<open>The routers of the demonstration: Alice, at \<open>a\<close>, learns the way to Charlie, at \<open>c\<close>, from Bob, at \<open>b\<close>.\<close>

lemma mesh_routes:
  fixes t :: "nat \<Rightarrow> real"
  assumes ids: "distinct [a, b, c]" "length a = 32" "length b = 32" "length c = 32"
    and clock: "\<forall>x \<in> range t \<union> range t_announce. \<forall>i. x - t i \<le> 300"
  defines "r0 \<equiv> \<lambda>i. \<lparr>ro_local_id = i, ro_table = RouteTable_new 300, ro_max_advertised_trust = 95 / 100\<rparr>"
  defines "ra \<equiv> snd (Router_add_direct_route (t 0) b 0 (ascii ''bob-router'') 1 0 (r0 a))"
    and "rb \<equiv> snd (Router_add_direct_route (t 2) c 2 (ascii ''charlie'') 1 0
           (snd (Router_add_direct_route (t 1) a 1 (ascii ''alice'') 1 0 (r0 b))))"
  obtains payload updated ra' where
    "Router_build_announce_payload t_announce [] rb = Inr payload"
    "Router_process_announce_payload (\<lambda>i. t (3 + i)) payload 0 (ascii ''bob-router'') 1 ra = (Inr updated, ra')"
    "length updated = 2"
    "\<And>wire w. Router_forward send (t 10) wire c ra' w = send 0 (ascii ''bob-router'') wire w"
    "\<And>wire w. Router_forward send (t 11) wire c rb w = send 2 (ascii ''charlie'') wire w"
proof -
  have ne: "a \<noteq> b" "a \<noteq> c" "b \<noteq> c" using ids(1) by simp_all
  have old: "x - t i \<le> 300" if "x \<in> range t \<union> range t_announce" for x i using clock that by blast
  let ?ea = "direct_entry (t 0) b 0 (ascii ''bob-router'')" and ?eA = "direct_entry (t 1) a 1 (ascii ''alice'')"
    and ?eC = "direct_entry (t 2) c 2 (ascii ''charlie'')"
  have ra: "rt_routes (ro_table ra) = [(b, [?ea])]" "ro_local_id ra = a" "rt_stale_after (ro_table ra) = 300"
    by (simp_all add: ra_def r0_def direct_route_added RouteTable_add_def RouteTable_new_def dict_get_or_def direct_entry_def)
  have rb: "rt_routes (ro_table rb) = [(a, [?eA]), (c, [?eC])]" "ro_local_id rb = b" "rt_stale_after (ro_table rb) = 300"
    using ne by (simp_all add: rb_def r0_def direct_route_added RouteTable_add_def RouteTable_new_def dict_get_or_def direct_entry_def)
  note e = direct_entry_def
  obtain payload where pl: "Router_build_announce_payload t_announce [] rb = Inr payload" "length payload = 102"
    "unpack_routes payload = [(ro_local_id rb, 0), (a, 2), (c, 2)]"
    by (rule two_neighbours_announced [of rb a ?eA c ?eC t_announce]) (use ne ids rb old in \<open>auto simp: e\<close>)
  obtain updated ra' where up: "Router_process_announce_payload (\<lambda>i. t (3 + i)) payload 0 (ascii ''bob-router'') 1 ra
       = (Inr updated, ra')" "length updated = 2" "rt_stale_after (ro_table ra') = 300"
    and route: "dict_get_or [] (rt_routes (ro_table ra')) c = [learned_entry ra (t (3 + 2)) 0 (ascii ''bob-router'') 1 (c, 2)]"
    by (rule route_learned [of ra b "[?ea]" c payload "\<lambda>i. t (3 + i)" 0 "ascii ''bob-router''" 1]) (use ne pl ra rb in auto)
  show ?thesis
  proof (rule that [OF pl(1) up(1,2)])
    show "Router_forward send (t 10) wire c ra' w = send 0 (ascii ''bob-router'') wire w" for wire w
      using single_route_forward [OF route, of "t 10" send wire w] old [of "t 10"] up(3) by (simp add: learned_entry_def)
    show "Router_forward send (t 11) wire c rb w = send 2 (ascii ''charlie'') wire w" for wire w
      using single_route_forward [of rb c ?eC "t 11" send wire w] old [of "t 11"] ne rb by (simp add: dict_get_or_def e)
  qed
qed

lemma mesh_demo_runs:
  assumes laws: "crypto_laws C" and v: "handshake_env v" "message_env (v 5) (v 6)"
    and ids: "distinct (map (\<lambda>i. sha256 (ed_pub C (key i))) [0, 1, 2])"
    and clock: "\<forall>x \<in> range t \<union> range t_announce. \<forall>i. x - t i \<le> 300"
  shows "mesh_demo C key v t t_announce h = Returns (2, py_lit ''Routed zero-trust payload'')"
proof -
  let ?id = "\<lambda>i. sha256 (ed_pub C (key i))" and ?m = "ascii ''Routed zero-trust payload''"
  let ?r0 = "\<lambda>i. \<lparr>ro_local_id = i, ro_table = RouteTable_new 300, ro_max_advertised_trust = 95 / 100\<rparr> :: router"
  obtain payload updated ra' where r:
    "Router_build_announce_payload t_announce [] (snd (Router_add_direct_route (t 2) (?id 2) 2 (ascii ''charlie'') 1 0
           (snd (Router_add_direct_route (t 1) (?id 0) 1 (ascii ''alice'') 1 0 (?r0 (?id 1)))))) = Inr payload"
    "Router_process_announce_payload (\<lambda>i. t (3 + i)) payload 0 (ascii ''bob-router'') 1
       (snd (Router_add_direct_route (t 0) (?id 1) 0 (ascii ''bob-router'') 1 0 (?r0 (?id 0)))) = (Inr updated, ra')"
    "length updated = 2"
    "\<And>wire w. Router_forward InProcessTransport_send (t 10) wire (?id 2) ra' w = InProcessTransport_send 0 (ascii ''bob-router'') wire w"
    "\<And>wire w. Router_forward InProcessTransport_send (t 11) wire (?id 2)
       (snd (Router_add_direct_route (t 2) (?id 2) 2 (ascii ''charlie'') 1 0
           (snd (Router_add_direct_route (t 1) (?id 0) 1 (ascii ''alice'') 1 0 (?r0 (?id 1)))))) w
       = InProcessTransport_send 2 (ascii ''charlie'') wire w"
    by (rule mesh_routes [OF _ _ _ _ clock, of "?id 0" "?id 1" "?id 2" InProcessTransport_send]) (use ids in simp_all)
  obtain alice bob wire alice' bob' where m:
    "do_handshake C v (Protocol_new, Device_new C (key 0) ''Alice'') (Protocol_new, Device_new C (key 2) ''Charlie'')
       = Returns (alice, bob)"
    "Protocol_send_data C (v 5) ?m alice = (Inr wire, alice')" "Protocol_receive_data C (v 6) wire bob = (Inr ?m, bob')"
    by (rule demo_message [OF laws v, of ?m]) (simp_all add: ascii_def)
  obtain h1 where t1: "InProcessTransport_send 0 (ascii ''bob-router'') wire (mesh_heap h) = (Inr (), h1)"
    "InProcessTransport_recv 1 (Some 1) h1 = (Returns (ip_local_addr (mesh_heap h 0), wire), mesh_heap h)"
    by (rule link_delivers [OF mesh_links(1-4), of 1 "ascii ''bob-router''" wire]) simp_all
  obtain h2 where t2: "InProcessTransport_send 2 (ascii ''charlie'') wire (mesh_heap h) = (Inr (), h2)"
    "InProcessTransport_recv 3 (Some 1) h2 = (Returns (ip_local_addr (mesh_heap h 2), wire), mesh_heap h)"
    by (rule link_delivers [OF mesh_links(5-8), of 1 "ascii ''charlie''" wire]) simp_all
  have new: "Router_new (?id i) None (95 / 100) = Inr (?r0 (?id i))" for i by (simp add: Router_new_def)
  have "utf8_decode ?m = Inr (py_lit ''Routed zero-trust payload'')" by code_simp
  with r m t1 t2 new [of 0] new [of 1] show ?thesis
    by (simp add: mesh_demo_def new_device_identity mesh_heap_def [symmetric] del: One_nat_def)
qed

section \<open>Reliability\<close>

lemma reliable_sent:
  assumes "crypto_laws C" "in_step C da db n" "env_ok v" "int (length plain) < 2 ^ 31" "n < 2 ^ 32"
    and "pr_state p = ESTABLISHED" "pr_peer_id p = Some (dev_device_id db)" and "\<not> rc_use_mac c"
  obtains wire da' where "in_step C da' db (n + 1)" and "ReliableChannel_send C v now plain (c, (p, da)) =
     (Inr (n, wire), (c\<lparr>rc_pending := dict_set n \<lparr>pp_sequence = n, pp_packet_bytes = wire, pp_sent_at = now,
        pp_retries = 0, pp_next_timeout_ms = rc_base_timeout_ms c\<rparr> (rc_pending c)\<rparr>, (p, da')))"
proof -
  let ?v = "v\<lparr>env_replay := env_stamp v\<rparr>"
  obtain wire da' where "Protocol_send_data C v plain (p, da) = (Inr wire, (p, da'))" "wire_seq wire = n"
    "in_step C da' db (n + 1)"
    by (rule data_exchanged [OF assms(1-5) _ assms(6,7), of ?v p]) (use assms(6) in simp_all)
  then show ?thesis
    using that [of da' wire] assms(8) by (simp add: ReliableChannel_send_def channel_wire_def Let_def)
qed

lemma reliability_demo_runs:
  assumes laws: "crypto_laws C" and hv: "handshake_env v" and mv: "\<forall>i \<in> {5, 6, 7}. env_ok (v i)"
    and clock: "mono t"
  shows "reliability_demo C key v t = Returns \<lparr>rl_sequence = 1, rl_pending_sent = 1, rl_pending_acked = 0,
     rl_retransmitted = 1, rl_retries = 1, rl_given_up = [3]\<rparr>"
proof -
  let ?c = "ReliableChannel_new 500 16000 3 False" and ?s = "ReliableChannel_new 500 16000 1 False"
  have e: "env_ok (v 5)" "env_ok (v 6)" "env_ok (v 7)" using mv by simp_all
  have t: "t 2 \<le> t 3" "t 6 \<le> t 7" "t 9 \<le> t 10" using monoD [OF clock] by simp_all
  obtain pa da pb db where hs: "do_handshake C v (Protocol_new, Device_new C (key 0) ''Alice4'')
      (Protocol_new, Device_new C (key 1) ''Bob4'') = Returns ((pa, da), (pb, db))"
    and p: "pr_state pa = ESTABLISHED" "pr_peer_id pa = Some (dev_device_id db)" and s: "in_step C da db 1"
    using do_handshake_ok [OF laws hv] by metis
  note sent = reliable_sent [OF laws _ _ _ _ p]
  obtain w1 d1 where d1: "in_step C d1 db 2" "ReliableChannel_send C (v 5) (t 0) (ascii ''Important message'') (?c, (pa, da)) =
     (Inr (1, w1), (?c\<lparr>rc_pending := dict_set 1 \<lparr>pp_sequence = 1, pp_packet_bytes = w1, pp_sent_at = t 0,
        pp_retries = 0, pp_next_timeout_ms = rc_base_timeout_ms ?c\<rparr> (rc_pending ?c)\<rparr>, (pa, d1)))"
    by (rule sent [OF s e(1), of "ascii ''Important message''" ?c "t 0"]) (simp_all add: ascii_def ReliableChannel_new_def)
  obtain w2 d2 where d2: "in_step C d2 db 3" "ReliableChannel_send C (v 6) (t 1) (ascii ''Lost packet'') (?c, (pa, d1)) =
     (Inr (2, w2), (?c\<lparr>rc_pending := dict_set 2 \<lparr>pp_sequence = 2, pp_packet_bytes = w2, pp_sent_at = t 1,
        pp_retries = 0, pp_next_timeout_ms = rc_base_timeout_ms ?c\<rparr> (rc_pending ?c)\<rparr>, (pa, d2)))"
    by (rule sent [OF d1(1) e(2), of "ascii ''Lost packet''" ?c "t 1"]) (simp_all add: ascii_def ReliableChannel_new_def)
  obtain w3 d3 where d3: "ReliableChannel_send C (v 7) (t 5) (ascii ''Will fail'') (?s, (pa, d2)) =
     (Inr (3, w3), (?s\<lparr>rc_pending := dict_set 3 \<lparr>pp_sequence = 3, pp_packet_bytes = w3, pp_sent_at = t 5,
        pp_retries = 0, pp_next_timeout_ms = rc_base_timeout_ms ?s\<rparr> (rc_pending ?s)\<rparr>, (pa, d3)))"
    by (rule sent [OF d2(1) e(3), of "ascii ''Will fail''" ?s "t 5"]) (simp_all add: ascii_def ReliableChannel_new_def)
  show ?thesis
    using hs d1(2) d2(2) d3 t
    by (simp add: reliability_demo_def Let_def ReliableChannel_process_ack_def set_sent_at_def poll_one_due ReliableChannel_pending_count_def
      ReliableChannel_new_def PendingPacket_record_retransmit_def)
qed

section \<open>MAC optimization\<close>

text \<open>Every round of a loop that stays within the sequence numbers is accepted.\<close>

lemma packet_loop_ok:
  assumes laws: "crypto_laws C" and "in_step C da db n" and "\<forall>v \<in> set vs. message_env v v"
    and "n + int (length vs) \<le> 2 ^ 32" and len: "int (length plain) < 2 ^ 31"
  obtains da' db' where
    "packet_loop C ((if mac then Device_build_data_packet_mac else Device_build_data_packet) C) plain vs da db
       = Returns (da', db')"
    and "in_step C da' db' (n + int (length vs))"
  using assms(2-4)
proof (induction vs arbitrary: da db n thesis)
  case Nil
  then show ?case by simp
next
  case (Cons v vs)
  have v: "env_ok v" "\<bar>env_replay v - env_stamp v\<bar> \<le> 30000" and n: "n < 2 ^ 32"
    using Cons.prems by (simp_all add: message_env_def)
  obtain p wire da1 db1 where b: "(if mac then Device_build_data_packet_mac else Device_build_data_packet) C
       (env_stamp v) (env_nonce v) (dev_device_id db) plain da = (Inr p, da1)" "Packet_to_bytes p = Inr wire"
    "Device_receive_packet C (env_parse v) (env_replay v) wire db = (Inr p, db1)"
    and s: "in_step C da1 db1 (n + 1)"
    by (rule packet_delivered [OF laws Cons.prems(2) v(1) len n v(2), of mac])
  obtain da' db' where "packet_loop C ((if mac then Device_build_data_packet_mac else Device_build_data_packet) C)
      plain vs da1 db1 = Returns (da', db')" "in_step C da' db' (n + 1 + int (length vs))"
    by (rule Cons.IH [OF _ s]) (use Cons.prems in simp_all)
  then show ?case using Cons.prems(1) [of da' db'] b by (simp add: algebra_simps)
qed

lemma mac_demo_runs:
  assumes laws: "crypto_laws C" and hv: "handshake_env v" and mv: "message_env (v 5) (v 6)"
    and rounds: "\<forall>i < 500. message_env (v1 i) (v1 i) \<and> message_env (v2 i) (v2 i)"
  shows "\<exists>k. length k = 64 \<and> mac_demo C key v v1 v2 pc = Returns \<lparr>mr_ed25519_ms = (pc 1 - pc 0) * 2,
     mr_mac_ms = (pc 3 - pc 2) * 2, mr_speedup = (pc 1 - pc 0) * 2 / max ((pc 3 - pc 2) * 2) (1 / 1000), mr_mac_key = k\<rparr>"
proof -
  obtain pa da pb db where hs: "do_handshake C v (Protocol_new, Device_new C (key 0) ''Alice5'')
      (Protocol_new, Device_new C (key 1) ''Bob5'') = Returns ((pa, da), (pb, db))" and s: "in_step C da db 1"
    using do_handshake_ok [OF laws hv] by metis
  have bench: "int (length (ascii ''bench'')) < 2 ^ 31" and fast: "int (length (ascii ''fast'')) < 2 ^ 31"
    by (simp_all add: ascii_def)
  have vs: "\<forall>v \<in> set (map v1 [0..<bench_rounds]). message_env v v" "\<forall>v \<in> set (map v2 [0..<bench_rounds]). message_env v v"
    using rounds by (simp_all add: bench_rounds_def)
  obtain d1 e1 where l1: "packet_loop C (Device_build_data_packet C) (ascii ''bench'') (map v1 [0..<bench_rounds]) da db
      = Returns (d1, e1)" "in_step C d1 e1 501"
    using packet_loop_ok [OF laws s vs(1) _ bench, of False] by (auto simp: bench_rounds_def)
  obtain d2 e2 where l2: "packet_loop C (Device_build_data_packet_mac C) (ascii ''bench'') (map v2 [0..<bench_rounds]) d1 e1
      = Returns (d2, e2)" "in_step C d2 e2 1001"
    using packet_loop_ok [OF laws l1(2) vs(2) _ bench, of True] by (auto simp: bench_rounds_def)
  have v: "env_ok (v 5)" "\<bar>env_replay (v 6) - env_stamp (v 5)\<bar> \<le> 30000" using mv by (simp_all add: message_env_def)
  obtain p wire d3 e3 where b: "Device_build_data_packet_mac C (env_stamp (v 5)) (env_nonce (v 5)) (dev_device_id e2)
      (ascii ''fast'') d2 = (Inr p, d3)" "Packet_to_bytes p = Inr wire"
    "Device_receive_packet C (env_parse (v 6)) (env_replay (v 6)) wire e2 = (Inr p, e3)"
    "Device_decrypt_packet C e3 p = Inr (ascii ''fast'')" "pkt_flags p = 5" "in_step C d3 e2 1002"
    by (rule packet_delivered [OF laws l2(2) v(1) fast _ v(2), of True]) simp_all
  obtain sa where sa: "dict_get (dev_sessions d3) (dev_device_id e2) = Some sa" "session_wf (dev_device_id e2) sa"
    using b(6) device_session_wf by (metis in_stepE share_session_def)
  have ms: "x * 1000 / real bench_rounds = x * 2" for x by (simp add: bench_rounds_def)
  have "(5 :: int) AND FLAG_MAC_AUTH \<noteq> 0" by (simp add: FLAG_MAC_AUTH_def)
  then have "mac_demo C key v v1 v2 pc = Returns \<lparr>mr_ed25519_ms = (pc 1 - pc 0) * 2, mr_mac_ms = (pc 3 - pc 2) * 2,
     mr_speedup = (pc 1 - pc 0) * 2 / max ((pc 3 - pc 2) * 2) (1 / 1000), mr_mac_key = ses_mac_key sa\<rparr>"
    using hs l1(1) l2(1) b(1-5) sa(1)
    by (simp add: mac_demo_def Let_def Device_get_session_def ms del: left_diff_distrib_numeral)
  moreover have "length (ses_mac_key sa) = 64" using sa(2) by (simp add: session_wf_def)
  ultimately show ?thesis by blast
qed

section \<open>The whole script\<close>

text \<open>What the script needs of its surroundings: nonces of 12 bytes and timestamps that fit the packet header;
  packets that are checked within 30 seconds of their timestamp; identities that differ where the script takes
  them to be different devices; routers that are used within five minutes; a clock that does not run backwards
  while the reliable channels are polled.\<close>

definition script_env_ok :: "'k crypto \<Rightarrow> 'k script_env \<Rightarrow> bool" where
  "script_env_ok C x \<longleftrightarrow>
     sha256 (ed_pub C (f1_key x 2)) \<notin> {sha256 (ed_pub C (f1_key x 0)), sha256 (ed_pub C (f1_key x 1))} \<and>
     handshake_env (f2_env x) \<and> message_env (f2_env x 5) (f2_env x 6) \<and>
     handshake_env (f3_env x) \<and> message_env (f3_env x 5) (f3_env x 6) \<and>
     distinct (map (\<lambda>i. sha256 (ed_pub C (f3_key x i))) [0, 1, 2]) \<and>
     (\<forall>y \<in> range (f3_clock x) \<union> range (f3_announce x). \<forall>i. y - f3_clock x i \<le> 300) \<and>
     handshake_env (f4_env x) \<and> (\<forall>i \<in> {5, 6, 7}. env_ok (f4_env x i)) \<and> mono (f4_clock x) \<and>
     handshake_env (f5_env x) \<and> message_env (f5_env x 5) (f5_env x 6) \<and>
     (\<forall>i < 500. message_env (f5_signed x i) (f5_signed x i) \<and> message_env (f5_mac x i) (f5_mac x i))"

definition quiet_script :: "bytes script_env" where
  "quiet_script = \<lparr>f1_key = (\<lambda>i. if i = 2 then key_a else key_b), f1_now = (\<lambda>_. 0),
     f2_key = (\<lambda>_. key_a), f2_env = (\<lambda>_. quiet), f2_heap = (\<lambda>_. InProcessTransport_new []),
     f3_key = (\<lambda>i. [key_a, key_b, key_c] ! i), f3_env = (\<lambda>_. quiet), f3_clock = (\<lambda>_. 0), f3_announce = (\<lambda>_. 0),
     f3_heap = (\<lambda>_. InProcessTransport_new []),
     f4_key = (\<lambda>_. key_a), f4_env = (\<lambda>_. quiet), f4_clock = (\<lambda>_. 0),
     f5_key = (\<lambda>_. key_a), f5_env = (\<lambda>_. quiet), f5_signed = (\<lambda>_. quiet), f5_mac = (\<lambda>_. quiet), f5_timer = real\<rparr>"

lemma quiet_script_ok: "script_env_ok toy quiet_script"
proof -
  have "env_ok quiet" "handshake_env (\<lambda>_. quiet)" "message_env quiet quiet"
    by (simp_all add: handshake_env_def message_env_def quiet_def)
  moreover have "ed_pub toy key_a = key_a" "ed_pub toy key_b = key_b" "ed_pub toy key_c = key_c"
    by (simp_all add: toy_public_key)
  ultimately show ?thesis
    by (simp add: script_env_ok_def quiet_script_def sha256_key_a sha256_key_b sha256_key_c numeral_2_eq_2 monoI)
qed

section \<open>Properties\<close>

text \<open>C8: the demonstration runs through. With any primitives that keep their laws, the script reaches its end:
  no assertion fails, no exception escapes, nothing waits for ever. It reports trust on first use, the
  confirmation by fingerprint and the endorsement; the message over the transport and the message over two hops
  arrive unchanged, after two routes have been learned; one packet is acknowledged, one is retransmitted once,
  and the packet that exhausts its retries is the one given up; five hundred signed and five hundred MAC packets
  are accepted, and the session has a MAC key of 64 bytes.\<close>

theorem example_runs_through:
  assumes "crypto_laws C" and "script_env_ok C x"
  shows "\<exists>r1 r5. example_script C x = Returns (r1, py_lit ''Transport-agnostic payload'',
       (2, py_lit ''Routed zero-trust payload''),
       \<lparr>rl_sequence = 1, rl_pending_sent = 1, rl_pending_acked = 0, rl_retransmitted = 1, rl_retries = 1, rl_given_up = [3]\<rparr>,
       r5) \<and>
     bs_first_contact r1 = TOFU \<and> bs_confirmed r1 = VERIFIED \<and> bs_endorsed r1 = ENDORSED \<and> bs_endorsement_size r1 = 160 \<and>
     length (mr_mac_key r5) = 64"
proof -
  note ok = assms(2) [unfolded script_env_ok_def]
  obtain r1 where 1: "trust_bootstrap_demo C (f1_key x) (f1_now x) = Returns r1" "bs_first_contact r1 = TOFU"
    "bs_confirmed r1 = VERIFIED" "bs_endorsed r1 = ENDORSED" "bs_endorsement_size r1 = 160"
    using trust_bootstrap_runs [OF assms(1), of "f1_key x" "f1_now x"] ok by blast
  obtain k r5 where 5: "mac_demo C (f5_key x) (f5_env x) (f5_signed x) (f5_mac x) (f5_timer x) = Returns r5"
    "mr_mac_key r5 = k" "length k = 64"
    using mac_demo_runs [OF assms(1), of "f5_env x" "f5_signed x" "f5_mac x" "f5_key x" "f5_timer x"] ok by fastforce
  have 2: "transport_demo C (f2_key x) (f2_env x) (f2_heap x) = Returns (py_lit ''Transport-agnostic payload'')"
    by (rule transport_demo_runs [OF assms(1)]) (use ok in blast)+
  have 3: "mesh_demo C (f3_key x) (f3_env x) (f3_clock x) (f3_announce x) (f3_heap x)
      = Returns (2, py_lit ''Routed zero-trust payload'')"
    by (rule mesh_demo_runs [OF assms(1)]) (use ok in blast)+
  have 4: "reliability_demo C (f4_key x) (f4_env x) (f4_clock x) = Returns \<lparr>rl_sequence = 1, rl_pending_sent = 1,
      rl_pending_acked = 0, rl_retransmitted = 1, rl_retries = 1, rl_given_up = [3]\<rparr>"
    by (rule reliability_demo_runs [OF assms(1)]) (use ok in blast)+
  show ?thesis
    by (rule exI [of _ r1], rule exI [of _ r5]) (simp add: example_script_def 1 2 3 4 5)
qed

theorem example_runs_through_witness:
  "\<exists>r1 r2 r5. example_script toy quiet_script = Returns (r1, r2, (2, py_lit ''Routed zero-trust payload''),
       \<lparr>rl_sequence = 1, rl_pending_sent = 1, rl_pending_acked = 0, rl_retransmitted = 1, rl_retries = 1, rl_given_up = [3]\<rparr>,
       r5) \<and> length (mr_mac_key r5) = 64"
  using example_runs_through [OF toy_laws quiet_script_ok] by metis

end
