(* ===== verification/Hostile_Network.thy ===== *)
theory Hostile_Network
  imports Exchange "HOL-Library.Multiset"
begin

text \<open>
  Two devices that share a session on a network that does what it likes: it loses, delays, reorders,
  duplicates and changes packets and injects bytes of its own. The run of the two devices is a sequence of
  their operations, in which whatever bytes arrive are an argument of the reception. That
  authenticators cannot be forged is a hypothesis on the run (\<open>unforged\<close>): when a packet from
  the sender verifies, one of the two devices has authenticated the same bytes before.
\<close>

section \<open>Runs of two devices\<close>

text \<open>The packet that an operation builds.\<close>

fun built :: "'a result \<Rightarrow> 'a list" where
  "built (Inr x) = [x]"
| "built (Inl e) = []"

lemma built_iff [simp]: "q \<in> set (built r) \<longleftrightarrow> r = Inr q"
  by (cases r) auto

fun device_emits :: "'k crypto \<Rightarrow> 'k device_op \<Rightarrow> 'k device \<Rightarrow> packet list" where
  "device_emits C (Dev_hello k n r) d = built (fst (Device_build_hello_packet C k n r d))"
| "device_emits C (Dev_data n nonce p t) d = built (fst (Device_build_data_packet C n nonce p t d))"
| "device_emits C (Dev_data_mac n nonce p t) d = built (fst (Device_build_data_packet_mac C n nonce p t d))"
| "device_emits C (Dev_ack n nonce p q) d = built (fst (Device_build_ack_packet C n nonce p q d))"
| "device_emits C (Dev_bye n nonce p) d = built (fst (Device_build_bye_packet C n nonce p d))"
| "device_emits C _ d = []"

text \<open>The data that an operation sends, with its number, and the data from \<open>peer\<close> that it delivers.\<close>

fun device_sends :: "'k crypto \<Rightarrow> 'k device_op \<Rightarrow> 'k device \<Rightarrow> (int \<times> bytes) list" where
  "device_sends C (Dev_data n nonce p t) d = map (\<lambda>q. (pkt_sequence q, t)) (device_emits C (Dev_data n nonce p t) d)"
| "device_sends C (Dev_data_mac n nonce p t) d =
     map (\<lambda>q. (pkt_sequence q, t)) (device_emits C (Dev_data_mac n nonce p t) d)"
| "device_sends C _ d = []"

definition receive_from :: "'k crypto \<Rightarrow> bytes \<Rightarrow> int \<Rightarrow> int \<Rightarrow> bytes \<Rightarrow> 'k device \<Rightarrow> (int \<times> bytes) result" where
  "receive_from C peer n m raw d =
     (case Device_receive_packet C n m raw d of (r, d') \<Rightarrow>
        bindE r (\<lambda>p. if pkt_ptype p \<noteq> DATA \<or> pkt_sender_id p \<noteq> peer then Inl HandshakeError
           else bindE (Device_decrypt_packet C d' p) (\<lambda>t. Inr (pkt_sequence p, t))))"

fun device_delivers :: "'k crypto \<Rightarrow> bytes \<Rightarrow> 'k device_op \<Rightarrow> 'k device \<Rightarrow> (int \<times> bytes) list" where
  "device_delivers C peer (Dev_receive n m raw) d = built (receive_from C peer n m raw d)"
| "device_delivers C peer _ d = []"

text \<open>The two devices, all packets they have authenticated, and the data sent and delivered.\<close>

record 'k world =
  w_a :: "'k device"
  w_b :: "'k device"
  w_log :: "packet list"
  w_sent :: "(int \<times> bytes) list"
  w_got :: "(int \<times> bytes) list"

datatype 'k net_event = At_sender "'k device_op" | At_receiver "'k device_op"

fun net_exec :: "'k crypto \<Rightarrow> 'k net_event \<Rightarrow> 'k world \<Rightarrow> 'k world" where
  "net_exec C (At_sender x) w =
     w\<lparr>w_a := device_exec C x (w_a w), w_log := w_log w @ device_emits C x (w_a w),
       w_sent := w_sent w @ device_sends C x (w_a w)\<rparr>"
| "net_exec C (At_receiver x) w =
     w\<lparr>w_b := device_exec C x (w_b w), w_log := w_log w @ device_emits C x (w_b w),
       w_got := w_got w @ device_delivers C (dev_device_id (w_a w)) x (w_b w)\<rparr>"

fun net_run :: "'k crypto \<Rightarrow> 'k net_event list \<Rightarrow> 'k world \<Rightarrow> 'k world" where
  "net_run C [] w = w"
| "net_run C (e # es) w = net_run C es (net_exec C e w)"

text \<open>Before the run: \<open>hist\<close> are the packets that have been authenticated so far.\<close>

definition new_world :: "packet list \<Rightarrow> 'k device \<Rightarrow> 'k device \<Rightarrow> 'k world" where
  "new_world hist da db = \<lparr>w_a = da, w_b = db, w_log = hist, w_sent = [], w_got = []\<rparr>"

text \<open>No forgery arrives at the receiver.\<close>

fun genuine :: "'k crypto \<Rightarrow> 'k net_event \<Rightarrow> 'k world \<Rightarrow> bool" where
  "genuine C (At_receiver (Dev_receive n m raw)) w \<longleftrightarrow>
     (case Packet_from_bytes n raw of
        Inl e \<Rightarrow> True
      | Inr p \<Rightarrow> pkt_sender_id p = dev_device_id (w_a w) \<longrightarrow>
          (case dict_get (dev_sessions (w_b w)) (pkt_sender_id p) of
             None \<Rightarrow> True
           | Some s \<Rightarrow> session_authentic C s p = Inr True \<longrightarrow>
               (\<exists>q \<in> set (w_log w). Packet_signed_bytes q = Packet_signed_bytes p)))"
| "genuine C _ w \<longleftrightarrow> True"

fun unforged :: "'k crypto \<Rightarrow> 'k net_event list \<Rightarrow> 'k world \<Rightarrow> bool" where
  "unforged C [] w \<longleftrightarrow> True"
| "unforged C (e # es) w \<longleftrightarrow> genuine C e w \<and> unforged C es (net_exec C e w)"

text \<open>
  What the two do with each other during the run: they keep their identity keys and the session, and
  the sender's DATA packets are all for the receiver. Everything else is free: acknowledgements,
  handshakes with others, and any data that the receiver sends.
\<close>

fun stays :: "bytes \<Rightarrow> 'k device_op \<Rightarrow> bool" where
  "stays k (Dev_rotate x n) \<longleftrightarrow> False"
| "stays k (Dev_complete p e x i) \<longleftrightarrow> p \<noteq> k"
| "stays k (Dev_remove p) \<longleftrightarrow> p \<noteq> k"
| "stays k _ \<longleftrightarrow> True"

fun data_only_for :: "bytes \<Rightarrow> 'k device_op \<Rightarrow> bool" where
  "data_only_for k (Dev_data n nonce p t) \<longleftrightarrow> p = k \<and> int (length t) < 2 ^ 31"
| "data_only_for k (Dev_data_mac n nonce p t) \<longleftrightarrow> p = k \<and> int (length t) < 2 ^ 31"
| "data_only_for k _ \<longleftrightarrow> True"

fun event_ok :: "bytes \<Rightarrow> bytes \<Rightarrow> 'k net_event \<Rightarrow> bool" where
  "event_ok a b (At_sender x) \<longleftrightarrow> stays b x \<and> data_only_for b x"
| "event_ok a b (At_receiver x) \<longleftrightarrow> stays a x"

section \<open>The signed bytes determine the packet\<close>

abbreviation id_widths :: "packet \<Rightarrow> bool" where
  "id_widths p \<equiv> length (pkt_sender_id p) = 32 \<and> length (pkt_recipient_id p) = 32 \<and> length (pkt_nonce p) = 12"

lemma post_init_widths: "Packet_post_init now p = Inr q \<Longrightarrow> id_widths q"
  by (auto simp: Packet_post_init_def split: if_splits)

lemma parsed_widths: "Packet_from_bytes now raw = Inr p \<Longrightarrow> id_widths p"
  by (auto simp: Packet_from_bytes_def Let_def bindE_eq_Inr split: if_splits dest: post_init_widths)

lemma signed_bytes_Inr:
  assumes "Packet_signed_bytes p = Inr b" and "id_widths p"
  shows "b = packet_layout p @ pkt_payload p" and "0 \<le> pkt_sequence p \<and> pkt_sequence p < 256 ^ 4"
    and "length (packet_layout p) = 100"
  using assms
  by (auto simp: Packet_signed_bytes_def Packet_header_bytes_def packet_layout_def bindE_eq_Inr pack_uint_def
      split: if_splits simp del: be_bytes.simps)

lemma PacketType_value_inj: "PacketType_value t = PacketType_value u \<Longrightarrow> t = u"
  by (metis PacketType_of_value sum.inject(2))

lemma signed_bytes_inj:
  assumes "Packet_signed_bytes p = Inr b" "Packet_signed_bytes q = Inr b" "id_widths p" "id_widths q"
  shows "pkt_ptype p = pkt_ptype q" "pkt_sender_id p = pkt_sender_id q" "pkt_sequence p = pkt_sequence q"
    "pkt_nonce p = pkt_nonce q" "pkt_payload p = pkt_payload q"
proof -
  note p = signed_bytes_Inr [OF assms(1,3)] and q = signed_bytes_Inr [OF assms(2,4)]
  show "pkt_payload p = pkt_payload q" using p(1,3) q(1,3) by simp
  have "packet_layout p = packet_layout q" using p(1,3) q(1,3) by simp
  then have e: "be_bytes 1 (PacketType_value (pkt_ptype p)) = be_bytes 1 (PacketType_value (pkt_ptype q))"
    "pkt_sender_id p = pkt_sender_id q" "be_bytes 4 (pkt_sequence p) = be_bytes 4 (pkt_sequence q)"
    "pkt_nonce p = pkt_nonce q"
    using assms(3,4) by (simp_all add: packet_layout_def del: be_bytes.simps One_nat_def)
  show "pkt_sender_id p = pkt_sender_id q" "pkt_nonce p = pkt_nonce q" by (rule e)+
  show "pkt_sequence p = pkt_sequence q"
    using arg_cong [OF e(3), of be_int] p(2) q(2) by (simp add: be_int_be_bytes del: be_bytes.simps be_int.simps)
  have "PacketType_value (pkt_ptype p) = PacketType_value (pkt_ptype q)"
    using arg_cong [OF e(1), of be_int] PacketType_value_range [of "pkt_ptype p"] PacketType_value_range [of "pkt_ptype q"]
    by (simp add: be_int_be_bytes del: be_bytes.simps be_int.simps)
  then show "pkt_ptype p = pkt_ptype q" by (rule PacketType_value_inj)
qed

section \<open>What the operations keep\<close>

text \<open>\<open>d'\<close> has the identity of \<open>d\<close> and its session with \<open>k\<close>, up to counters.\<close>

definition keeps :: "bytes \<Rightarrow> 'k device \<Rightarrow> 'k device \<Rightarrow> bool" where
  "keeps k d d' \<longleftrightarrow> dev_device_id d' = dev_device_id d \<and>
     (\<forall>s. dict_get (dev_sessions d) k = Some s \<longrightarrow>
        (\<exists>s'. dict_get (dev_sessions d') k = Some s' \<and> ses_session_key s' = ses_session_key s))"

lemma keeps_refl [simp]: "keeps k d d"
  by (simp add: keeps_def)

lemma keeps_put:
  "dict_get (dev_sessions d) p = Some s \<Longrightarrow> ses_session_key s' = ses_session_key s \<Longrightarrow> keeps k d (put_session p s' d)"
  by (auto simp: keeps_def put_session_def dict_simps)

lemma keeps_sealed: "keeps k d (snd (build_sealed C auth n nonce pt fl p t d))"
  using keeps_put [of d p] by (auto simp: build_sealed_def Device_get_session_def Session_next_sequence_def Let_def split: option.splits sum.splits)

lemma keeps_receive: "keeps k d (snd (Device_receive_packet C n m raw d))"
proof (cases rule: receive_packet_cases [where C = C and n = n and m = m and raw = raw and d = d])
  case (session p s)
  then show ?thesis using keeps_put [OF session(3), of "snd (replay_checked m p s)" k] by simp
qed simp_all

lemma keeps_ephemeral: "keeps k d (snd (Device_generate_ephemeral_keypair C x p d))"
  by (simp add: keeps_def Device_generate_ephemeral_keypair_def Let_def split: option.splits prod.splits)

lemma keeps_complete: "p \<noteq> k \<Longrightarrow> keeps k d (snd (Device_complete_key_exchange C p e x i d))"
  by (auto simp: keeps_def Device_complete_key_exchange_def dict_simps Let_def split: option.splits sum.splits prod.splits)

lemma keeps_exec: "stays k x \<Longrightarrow> keeps k d (device_exec C x d)"
proof (cases x)
  case (Dev_ack n nonce p q)
  then show ?thesis by (simp add: Device_build_ack_packet_def keeps_sealed split: sum.splits)
next
  case (Dev_remove p)
  then show "stays k x \<Longrightarrow> ?thesis" by (simp add: Device_remove_session_def keeps_def dict_simps)
next
  case (Dev_pending p y)
  then show ?thesis by (simp add: Device_register_pending_peer_def keeps_def)
qed (simp_all add: keeps_sealed keeps_receive keeps_ephemeral keeps_complete build_hello_state
      Device_build_data_packet_def Device_build_data_packet_mac_def Device_build_bye_packet_def)

lemma stays_keeps_session: "stays k x \<Longrightarrow> keeps_session k x"
  by (cases x) simp_all

section \<open>What the operations build\<close>

lemma sealed_built_fields:
  assumes "fst (build_sealed C auth n nonce pt fl p t d) = Inr q"
  shows "\<exists>s. dict_get (dev_sessions d) p = Some s \<and> crypto_encrypt C (ses_session_key s) nonce t [] = Inr (pkt_payload q)"
    and "pkt_nonce q = nonce" and "pkt_sender_id q = dev_device_id d" and "pkt_ptype q = pt" and "id_widths q"
  using assms
  by (auto simp: build_sealed_def Device_get_session_def Session_next_sequence_def bindE_eq_Inr Packet_post_init_def
      new_packet_def Let_def split: option.splits sum.splits if_splits)

lemma ack_built: "fst (Device_build_ack_packet C n nonce p a d) = Inr q \<Longrightarrow>
  \<exists>t. fst (build_sealed C (by_signature C) n nonce ACK FLAG_ENCRYPTED p t d) = Inr q"
  by (auto simp: Device_build_ack_packet_def split: sum.splits)

lemma hello_emitted:
  assumes "fst (Device_build_hello_packet C k n r d) = Inr q"
  shows "pkt_ptype q = HELLO" and "id_widths q" and "pkt_sender_id q = dev_device_id d"
proof -
  have "dev_device_id (snd (Device_generate_ephemeral_keypair C k p d)) = dev_device_id d" for p
    using keeps_ephemeral [of _ d C k p] by (auto simp: keeps_def)
  then have "dev_device_id d1 = dev_device_id d" if "Device_generate_ephemeral_keypair C k p d = (x, d1)" for p x d1
    using that by (metis snd_conv)
  then show "pkt_ptype q = HELLO" "id_widths q" "pkt_sender_id q = dev_device_id d"
    using assms
    by (auto simp: Device_build_hello_packet_def Let_def bindS_def bindE_eq_Inr Packet_post_init_def new_packet_def
        split: prod.splits sum.splits if_splits)
qed

lemma emitted:
  assumes "q \<in> set (device_emits C x d)"
  shows "id_widths q \<and> pkt_sender_id q = dev_device_id d"
  using assms
  by (cases x) (auto simp: Device_build_data_packet_def Device_build_data_packet_mac_def Device_build_bye_packet_def
      dest: sealed_built_fields(3,5) hello_emitted(2,3) dest!: ack_built)

lemma emitted_data:
  assumes laws: "crypto_laws C" and wf: "device_wf C d" and x: "data_only_for k x"
    and q: "q \<in> set (device_emits C x d)" "pkt_ptype q = DATA" and s: "dict_get (dev_sessions d) k = Some s"
  shows "\<exists>t. crypto_decrypt C (ses_session_key s) (pkt_nonce q) (pkt_payload q) [] = Inr t \<and>
     (pkt_sequence q, t) \<in> set (device_sends C x d)"
proof -
  have dec: "crypto_decrypt C (ses_session_key s) (pkt_nonce q) (pkt_payload q) [] = Inr t"
    if "fst (build_sealed C auth n nonce pt fl k t d) = Inr q" "int (length t) < 2 ^ 31" for auth n nonce pt fl t
  proof -
    note f = sealed_built_fields [OF that(1)]
    have c: "crypto_encrypt C (ses_session_key s) nonce t [] = Inr (pkt_payload q)" "length nonce = 12"
      using f(1,2,5) s by auto
    have "length (ses_session_key s) = 32" using device_session_wf [OF wf s] by (simp add: session_wf_def)
    then show ?thesis
      using decrypt_encrypt [OF _ _ c(2) that(2), of C "ses_session_key s" "[]"] laws c(1) f(2)
      by (metis crypto_laws_def sum.inject(2))
  qed
  show ?thesis
  proof (cases x)
    case (Dev_data n nonce p t)
    then show ?thesis using q x dec [of "by_signature C" n nonce DATA FLAG_ENCRYPTED t]
      by (auto simp: Device_build_data_packet_def)
  next
    case (Dev_data_mac n nonce p t)
    then show ?thesis using q x dec [of "by_mac C" n nonce DATA "FLAG_ENCRYPTED OR FLAG_MAC_AUTH" t]
      by (auto simp: Device_build_data_packet_mac_def)
  qed (use q in \<open>auto simp: Device_build_bye_packet_def dest: sealed_built_fields(4) hello_emitted(1) dest!: ack_built\<close>)
qed

section \<open>The invariant of a run\<close>

definition net_inv :: "'k crypto \<Rightarrow> bytes \<Rightarrow> bytes \<Rightarrow> bytes \<Rightarrow> 'k world \<Rightarrow> bool" where
  "net_inv C a b key w \<longleftrightarrow> a \<noteq> b \<and> dev_device_id (w_a w) = a \<and> dev_device_id (w_b w) = b \<and>
     device_wf C (w_a w) \<and> device_wf C (w_b w) \<and>
     (\<exists>s. dict_get (dev_sessions (w_a w)) b = Some s \<and> ses_session_key s = key) \<and>
     (\<exists>s. dict_get (dev_sessions (w_b w)) a = Some s \<and> ses_session_key s = key) \<and>
     (\<forall>q \<in> set (w_log w). id_widths q \<and>
        (pkt_sender_id q = a \<and> pkt_ptype q = DATA \<longrightarrow>
           (\<exists>t. crypto_decrypt C key (pkt_nonce q) (pkt_payload q) [] = Inr t \<and> (pkt_sequence q, t) \<in> set (w_sent w)))) \<and>
     distinct (map fst (w_got w)) \<and> set (w_got w) \<subseteq> set (w_sent w) \<and>
     (\<forall>n \<in> fst ` set (w_got w). has_seen a n (w_b w))"

lemma net_inv_sender:
  assumes laws: "crypto_laws C" and inv: "net_inv C a b key w" and x: "stays b x" "data_only_for b x"
  shows "net_inv C a b key (net_exec C (At_sender x) w)"
proof -
  let ?d = "w_a w"
  obtain s where s: "dict_get (dev_sessions ?d) b = Some s" "ses_session_key s = key" using inv by (auto simp: net_inv_def)
  have i: "device_wf C ?d" "dev_device_id ?d = a" using inv by (auto simp: net_inv_def)
  have k: "dev_device_id (device_exec C x ?d) = a"
    "\<exists>s'. dict_get (dev_sessions (device_exec C x ?d)) b = Some s' \<and> ses_session_key s' = key"
    using keeps_exec [OF x(1), of ?d C] s i(2) unfolding keeps_def by auto
  have new: "id_widths q \<and> (pkt_ptype q = DATA \<longrightarrow>
      (\<exists>t. crypto_decrypt C key (pkt_nonce q) (pkt_payload q) [] = Inr t \<and> (pkt_sequence q, t) \<in> set (device_sends C x ?d)))"
    if "q \<in> set (device_emits C x ?d)" for q
    using emitted [OF that] emitted_data [OF laws i(1) x(2) that _ s(1)] s(2) by auto
  show ?thesis
    using inv k device_exec_wf [OF i(1), of x] new unfolding net_inv_def by (fastforce simp del: device_exec.simps)
qed

text \<open>What the receiver delivers was sent, and is delivered for the first time.\<close>

lemma delivered_was_sent:
  assumes inv: "net_inv C a b key w" and gen: "genuine C (At_receiver x) w" and got: "(n, t) \<in> set (device_delivers C a x (w_b w))"
  shows "(n, t) \<in> set (w_sent w)" and "n \<notin> fst ` set (w_got w)" and "has_seen a n (device_exec C x (w_b w))"
    and "device_delivers C a x (w_b w) = [(n, t)]"
proof -
  have "\<exists>m1 m2 raw. x = Dev_receive m1 m2 raw" by (cases x) (fast | use got in simp)+
  then obtain m1 m2 raw where x: "x = Dev_receive m1 m2 raw" by blast
  obtain p d' where r: "Device_receive_packet C m1 m2 raw (w_b w) = (Inr p, d')" "pkt_ptype p = DATA" "pkt_sender_id p = a"
    "Device_decrypt_packet C d' p = Inr t" "n = pkt_sequence p"
    using got unfolding x by (auto simp: receive_from_def bindE_eq_Inr split: prod.splits if_splits)
  obtain s where s: "dict_get (dev_sessions (w_b w)) a = Some s" "ses_session_key s = key" and wf: "device_wf C (w_b w)"
    and ida: "dev_device_id (w_a w) = a"
    using inv by (auto simp: net_inv_def)
  have seen: "has_seen a n d'" "Packet_from_bytes m1 raw = Inr p"
    using receive_marks_seen [OF wf r(1)] r(2,3,5) s(1) by auto
  have au: "session_authentic C s p = Inr True"
    by (cases rule: receive_packet_cases [where C = C and n = m1 and m = m2 and raw = raw and d = "w_b w"])
       (use r s seen in auto)
  then obtain q where q: "q \<in> set (w_log w)" "Packet_signed_bytes q = Packet_signed_bytes p"
    using gen seen(2) r(3) s(1) ida unfolding x by auto
  obtain bs where bs: "Packet_signed_bytes p = Inr bs"
    using au by (auto simp: session_authentic_def verify_packet_def verify_packet_mac_def bindE_eq_Inr split: if_splits)
  have "id_widths q" using q(1) inv by (auto simp: net_inv_def)
  note e = signed_bytes_inj [OF bs q(2) [unfolded bs] parsed_widths [OF seen(2)] this]
  obtain t' where t': "crypto_decrypt C key (pkt_nonce p) (pkt_payload p) [] = Inr t'" "(n, t') \<in> set (w_sent w)"
    using inv q(1) e r(2,3,5) unfolding net_inv_def by metis
  have "\<exists>s'. dict_get (dev_sessions d') a = Some s' \<and> ses_session_key s' = key"
    using keeps_receive [of a "w_b w" C m1 m2 raw] r(1) s unfolding keeps_def by auto
  then have "t = t'" using r(3,4) t'(1) by (auto simp: Device_decrypt_packet_def Device_get_session_def)
  then show "(n, t) \<in> set (w_sent w)" using t'(2) by simp
  show "n \<notin> fst ` set (w_got w)"
    using has_seen_refused [OF _ seen(2), of "w_b w" C m2] inv r unfolding net_inv_def by fastforce
  show "has_seen a n (device_exec C x (w_b w))" using seen(1) r(1) by (simp add: x)
  show "device_delivers C a x (w_b w) = [(n, t)]" using r by (simp add: x receive_from_def)
qed

lemma net_inv_receiver:
  assumes inv: "net_inv C a b key w" and gen: "genuine C (At_receiver x) w" and x: "stays a x"
  shows "net_inv C a b key (net_exec C (At_receiver x) w)"
proof -
  let ?d = "w_b w" and ?new = "device_delivers C a x (w_b w)"
  have i: "device_wf C ?d" "dev_device_id ?d = b" "dev_device_id (w_a w) = a" "a \<noteq> b" using inv by (auto simp: net_inv_def)
  obtain s where s: "dict_get (dev_sessions ?d) a = Some s" "ses_session_key s = key" using inv by (auto simp: net_inv_def)
  have k: "dev_device_id (device_exec C x ?d) = b"
    "\<exists>s'. dict_get (dev_sessions (device_exec C x ?d)) a = Some s' \<and> ses_session_key s' = key"
    using keeps_exec [OF x, of ?d C] s i(2) unfolding keeps_def by auto
  have log: "\<forall>q \<in> set (device_emits C x ?d). id_widths q \<and>
        (pkt_sender_id q = a \<and> pkt_ptype q = DATA \<longrightarrow>
           (\<exists>t. crypto_decrypt C key (pkt_nonce q) (pkt_payload q) [] = Inr t \<and> (pkt_sequence q, t) \<in> set (w_sent w)))"
    using emitted i(2,4) by fastforce
  have old: "\<forall>n \<in> fst ` set (w_got w). has_seen a n (device_exec C x ?d)"
    using has_seen_exec [OF _ stays_keeps_session [OF x]] inv unfolding net_inv_def by blast
  have got: "distinct (map fst (w_got w))" using inv by (simp add: net_inv_def)
  have new: "set ?new \<subseteq> set (w_sent w) \<and> distinct (map fst (w_got w @ ?new)) \<and>
     (\<forall>n \<in> fst ` set ?new. has_seen a n (device_exec C x ?d))"
  proof (cases "?new = []")
    case True
    then show ?thesis using got by simp
  next
    case False
    then obtain n t where nt: "(n, t) \<in> set ?new" by (cases ?new) auto
    note f = delivered_was_sent [OF inv gen nt]
    show ?thesis unfolding f(4) using f(1-3) got by simp
  qed
  have f: "w_a (net_exec C (At_receiver x) w) = w_a w" "w_b (net_exec C (At_receiver x) w) = device_exec C x ?d"
    "w_log (net_exec C (At_receiver x) w) = w_log w @ device_emits C x ?d"
    "w_sent (net_exec C (At_receiver x) w) = w_sent w" "w_got (net_exec C (At_receiver x) w) = w_got w @ ?new"
    by (simp_all only: net_exec.simps i(3) world.simps world.update_convs) simp_all
  show ?thesis
    using inv k device_exec_wf [OF i(1), of x] log new old
    unfolding net_inv_def f set_append image_Un ball_Un Un_subset_iff by (elim conjE, intro conjI) assumption+
qed

lemma net_inv_run:
  assumes "crypto_laws C" and "net_inv C a b key w" and "\<forall>e \<in> set es. event_ok a b e" and "unforged C es w"
  shows "net_inv C a b key (net_run C es w)"
  using assms(2-)
proof (induction es arbitrary: w)
  case (Cons e es)
  have "net_inv C a b key (net_exec C e w)"
    by (cases e) (use Cons.prems net_inv_sender [OF assms(1)] net_inv_receiver in auto)
  then show ?case using Cons by simp
qed simp

lemma net_inv_new:
  assumes "device_wf C da" and "device_wf C db" and "share_session da sa db sb" and "dev_device_id da \<noteq> dev_device_id db"
    and "\<forall>q \<in> set hist. packet_wf q \<and> pkt_ptype q \<noteq> DATA"
  shows "net_inv C (dev_device_id da) (dev_device_id db) (ses_session_key sa) (new_world hist da db)"
  using assms by (auto simp: net_inv_def new_world_def share_session_def packet_wf_def)

lemma distinct_subset_mset: "distinct (map fst xs) \<Longrightarrow> set xs \<subseteq> set ys \<Longrightarrow> mset xs \<subseteq># mset ys"
proof (rule mset_subset_eqI)
  fix a
  assume d: "distinct (map fst xs)" and s: "set xs \<subseteq> set ys"
  have "count (mset xs) a = (if a \<in> set xs then 1 else 0)"
    using iffD1 [OF distinct_map d] by (metis distinct_count_atmost_1)
  moreover have "1 \<le> count (mset ys) a" if "a \<in> set xs" using s that by (auto simp: Suc_le_eq count_greater_zero_iff)
  ultimately show "count (mset xs) a \<le> count (mset ys) a" by simp
qed

lemma mset_sub_singleton:
  assumes "mset xs \<subseteq># mset [x]" and "x \<in> set xs"
  shows "xs = [x]"
proof -
  have "length xs \<le> 1" using size_mset_mono [OF assms(1)] by simp
  then show ?thesis using assms(2) by (cases xs) auto
qed

section \<open>Packets for somebody else\<close>

lemma refused_by_window:
  assumes "dict_get (dev_sessions d) a = Some s" and "Packet_from_bytes n raw = Inr q" and "pkt_sender_id q = a"
    and "pkt_ptype q \<noteq> HELLO" and "pkt_sequence q \<in> ses_peer_seq_window s \<or> pkt_sequence q \<le> ses_peer_max_seq s - 64"
  shows "\<exists>e. fst (Device_receive_packet C n m raw d) = Inl e"
proof (cases rule: receive_packet_cases [where C = C and n = n and m = m and raw = raw and d = d])
  case (session p s')
  then have "p = q" "s' = s" using assms by auto
  then show ?thesis using session(5) assms(5) by (auto simp: Session_check_replay_def REPLAY_WINDOW_def)
qed (use assms in auto)

lemma signed_for_other:
  assumes laws: "crypto_laws C" and wf: "device_wf C da" and c: "dict_get (dev_sessions da) c = Some sc"
    and args: "length nonce = 12" "int (length plain) < 2 ^ 31" "clock_ok now" "ses_local_sequence sc < 2 ^ 32"
    and key: "ses_peer_ed25519_public sb = dev_identity_public_bytes da"
  obtains p da' wire where "Device_build_data_packet C now nonce c plain da = (Inr p, da')"
    and "pkt_recipient_id p = c" "pkt_sender_id p = dev_device_id da" "pkt_ptype p = DATA"
      "pkt_sequence p = ses_local_sequence sc" "pkt_timestamp_ms p = now"
    and "packet_wf p" "Packet_to_bytes p = Inr wire" and "session_authentic C sb p = Inr True"
proof -
  let ?s1 = "drawn_next sc"
  let ?d1 = "put_session c ?s1 da"
  have k: "ses_peer_ed25519_public sb = ed_public_bytes C (ed_public_key C (dev_identity_private da))"
    using key wf by (simp add: device_wf_def)
  have sig: "packet_auth (ed_laws C) (by_signature C ?d1 ?s1) (verify_packet C (ses_peer_ed25519_public sb))"
    using signature_auth.packet_auth_axioms [of C "dev_identity_private da"]
    by (simp add: by_signature_def [abs_def] put_session_def k)
  have laws': "ed_laws C" "aead_laws C" and seq: "ses_local_sequence sc < 256 ^ 4"
    using laws args(4) by (simp_all add: crypto_laws_def)
  obtain ct t p where p: "p = sealed_packet DATA 1 (dev_device_id da) c (ses_local_sequence sc) nonce now ct t"
    "build_sealed C (by_signature C) now nonce DATA 1 c plain da = (Inr p, ?d1)" "packet_wf p"
    "verify_packet C (ses_peer_ed25519_public sb) p = Inr True"
    using build_sealed_ok [where auth = "by_signature C", OF sig laws' c device_session_wf [OF wf c] seq refl refl args(1,2)
        device_id_length [OF wf] args(3), of 1 DATA] by auto
  obtain wire where "Packet_to_bytes p = Inr wire" using packet_codec.enc_total [OF p(3)] by blast
  then show ?thesis
    using that p by (simp add: Device_build_data_packet_def FLAG_ENCRYPTED_def session_authentic_def FLAG_MAC_AUTH_def)
qed

section \<open>Properties\<close>

text \<open>C3: agreement over a hostile network. Two devices share a session; before, neither has authenticated
  data. Then they do whatever they like (but for new keys, and data that the sender sends to others),
  and whatever bytes arrive, in whatever order and number: as long as none is a forgery, everything
  the receiver delivers as data from the sender was sent by it with the same number in this session, and is
  delivered at most once.\<close>

theorem hostile_network_agreement:
  assumes "crypto_laws C" and "device_wf C da" and "device_wf C db" and "share_session da sa db sb"
    and "dev_device_id da \<noteq> dev_device_id db" and "\<forall>q \<in> set hist. packet_wf q \<and> pkt_ptype q \<noteq> DATA"
    and "\<forall>e \<in> set es. event_ok (dev_device_id da) (dev_device_id db) e"
    and "unforged C es (new_world hist da db)"
  shows "mset (w_got (net_run C es (new_world hist da db))) \<subseteq># mset (w_sent (net_run C es (new_world hist da db))) \<and>
     distinct (map fst (w_got (net_run C es (new_world hist da db))))"
  using net_inv_run [OF assms(1) net_inv_new [OF assms(2-6)] assms(7,8)]
  by (simp add: net_inv_def distinct_subset_mset)

lemma dev_ab_run:
  obtains p da' wire db' where "Device_build_data_packet toy 1000 (replicate 12 9) id_b [1, 2, 3] dev_a = (Inr p, da')"
    and "Packet_from_bytes 1500 wire = Inr p" and "pkt_sender_id p = id_a"
    and "receive_from toy id_a 1500 1500 wire dev_b = Inr (pkt_sequence p, [1, 2, 3])"
proof (rule dev_ab_data)
  fix p da' wire db'
  assume b: "Device_build_data_packet toy 1000 (replicate 12 9) id_b [1, 2, 3] dev_a = (Inr p, da')"
    and w: "Packet_to_bytes p = Inr wire" "packet_wf p" and r: "Device_receive_packet toy 1500 1500 wire dev_b = (Inr p, db')"
    and p: "pkt_ptype p = DATA" "pkt_sender_id p = id_a"
  have "Device_decrypt_packet toy db' p = Inr [1, 2, 3]"
    using data_delivered [OF toy_laws dev_a_wf dev_ab_share, of "replicate 12 9" "[1, 2, 3]" 1000 1500 False] b w(1) r
    by (auto simp: dev_ids end_ab_def)
  then show ?thesis
    using that [OF b packet_codec.dec_enc [OF w(2,1)] p(2)] r p by (simp add: receive_from_def)
qed

theorem hostile_network_agreement_witness:
  "\<exists>wire n. let w = net_run toy [At_sender (Dev_data 1000 (replicate 12 9) id_b [1, 2, 3]),
        At_receiver (Dev_receive 1500 1500 wire), At_receiver (Dev_receive 1500 1600 wire),
        At_receiver (Dev_receive 1500 1600 [7])] (new_world [] dev_a dev_b)
     in w_sent w = [(n, [1, 2, 3])] \<and> w_got w = [(n, [1, 2, 3])]"
proof (rule dev_ab_run)
  fix p da' wire db'
  assume b: "Device_build_data_packet toy 1000 (replicate 12 9) id_b [1, 2, 3] dev_a = (Inr p, da')"
    and w: "Packet_from_bytes 1500 wire = Inr p" "pkt_sender_id p = id_a"
    and r: "receive_from toy id_a 1500 1500 wire dev_b = Inr (pkt_sequence p, [1, 2, 3])"
  let ?es = "[At_sender (Dev_data 1000 (replicate 12 9) id_b [1, 2, 3]), At_receiver (Dev_receive 1500 1500 wire),
      At_receiver (Dev_receive 1500 1600 wire), At_receiver (Dev_receive 1500 1600 [7])]"
  let ?w = "net_run toy ?es (new_world [] dev_a dev_b)"
  have ids: "dev_device_id dev_a = id_a" "dev_device_id dev_b = id_b" "id_a \<noteq> id_b"
    by (simp_all add: dev_ids id_a_def id_b_def)
  have bad: "Packet_from_bytes 1500 [7] = Inl ValueError" by (simp add: Packet_from_bytes_def packet_consts)
  have un: "unforged toy ?es (new_world [] dev_a dev_b)"
    using b w(1) bad by (simp add: new_world_def split: option.splits)
  have sent: "w_sent ?w = [(pkt_sequence p, [1, 2, 3])]" using b by (simp add: new_world_def)
  have "dev_device_id da' = id_a"
    using keeps_exec [of id_b "Dev_data 1000 (replicate 12 9) id_b [1, 2, 3]" dev_a toy] b by (simp add: keeps_def ids)
  then have got: "(pkt_sequence p, [1, 2, 3]) \<in> set (w_got ?w)" using b r by (simp add: new_world_def)
  have "mset (w_got ?w) \<subseteq># mset (w_sent ?w) \<and> distinct (map fst (w_got ?w))"
    by (rule hostile_network_agreement [OF toy_laws dev_a_wf dev_b_wf dev_ab_share _ _ _ un]) (simp_all add: ids)
  then have "mset (w_got ?w) \<subseteq># mset [(pkt_sequence p, [1, 2, 3])]" unfolding sent by blast
  then have "w_got ?w = [(pkt_sequence p, [1, 2, 3])]" using got by (rule mset_sub_singleton)
  with sent show ?thesis by (intro exI [of _ wire] exI [of _ "pkt_sequence p"]) (simp add: Let_def)
qed

text \<open>C40: a packet for somebody else shuts the sender out. The recipient of a packet is signed but not checked.
  When a device has sessions with two peers, a signed packet for one of them that somebody passes on to the other
  is accepted there by reception (though its payload does not decrypt under the session's key in general), its
  number enters the replay window, and from then on that peer refuses the device's genuine packets with the
  same number and with all numbers that lie 64 or more below.\<close>

theorem redirected_packet_blocks:
  assumes "crypto_laws C" and "device_wf C da" and "share_session da sa db sb"
    and "dict_get (dev_sessions da) c = Some sc" and "c \<noteq> dev_device_id db"
    and "length nonce = 12" and "int (length plain) < 2 ^ 31" and "0 < now_a \<and> now_a < 256 ^ 8"
    and "ses_local_sequence sc < 2 ^ 32" and "\<bar>now_b - now_a\<bar> \<le> 30000"
    and "ses_local_sequence sc \<notin> ses_peer_seq_window sb" and "ses_peer_max_seq sb - 64 < ses_local_sequence sc"
  shows "\<exists>p da' wire db'. Device_build_data_packet C now_a nonce c plain da = (Inr p, da') \<and> pkt_recipient_id p = c \<and>
     Packet_to_bytes p = Inr wire \<and> Device_receive_packet C now_b now_b wire db = (Inr p, db') \<and>
     (\<forall>n m raw q. Packet_from_bytes n raw = Inr q \<and> pkt_sender_id q = dev_device_id da \<and> pkt_ptype q \<noteq> HELLO \<and>
        (pkt_sequence q = ses_local_sequence sc \<or> pkt_sequence q \<le> ses_local_sequence sc - 64) \<longrightarrow>
        (\<exists>e. fst (Device_receive_packet C n m raw db') = Inl e))"
proof -
  have key: "ses_peer_ed25519_public sb = dev_identity_public_bytes da"
    and sb: "dict_get (dev_sessions db) (dev_device_id da) = Some sb"
    using assms(3) by (simp_all add: share_session_def)
  obtain p da' wire where b: "Device_build_data_packet C now_a nonce c plain da = (Inr p, da')" "pkt_recipient_id p = c"
    and p: "pkt_sender_id p = dev_device_id da" "pkt_ptype p = DATA" "pkt_sequence p = ses_local_sequence sc"
      "pkt_timestamp_ms p = now_a"
    and w: "packet_wf p" "Packet_to_bytes p = Inr wire" and au: "session_authentic C sb p = Inr True"
    by (rule signed_for_other [OF assms(1,2,4,6-9) key])
  obtain s' where s': "replay_checked now_b p sb = (Inr (), s')" "ses_local_sequence sc \<in> ses_peer_seq_window s'"
    "ses_local_sequence sc \<le> ses_peer_max_seq s'"
    using check_replay_accept [of now_b now_a "ses_local_sequence sc" sb] assms(10-12) p(3,4)
    by (auto simp: MAX_CLOCK_SKEW_MS_def REPLAY_WINDOW_def)
  let ?db = "put_session (dev_device_id da) s' db"
  have "Device_receive_packet C now_b now_b wire db = (Inr p, ?db)"
    using receive_sealed [OF w _ _ au s'(1), where d = db] sb p by simp
  moreover have "\<exists>e. fst (Device_receive_packet C n m raw ?db) = Inl e"
    if "Packet_from_bytes n raw = Inr q" "pkt_sender_id q = dev_device_id da" "pkt_ptype q \<noteq> HELLO"
      "pkt_sequence q = ses_local_sequence sc \<or> pkt_sequence q \<le> ses_local_sequence sc - 64" for n m raw q
    using refused_by_window [OF _ that(1-3), of ?db s' C m] that(4) s'(2,3) by (auto simp: put_session_def dict_simps)
  ultimately show ?thesis using b w(2) by blast
qed

theorem redirected_packet_blocks_witness:
  "\<exists>da wire p db'. share_session da (end_ab id_b key_b) dev_b (end_ab id_a key_a) \<and>
     Device_receive_packet toy 1500 1500 wire dev_b = (Inr p, db') \<and> pkt_recipient_id p = replicate 32 5 \<and>
     (\<forall>n m raw q. Packet_from_bytes n raw = Inr q \<and> pkt_sender_id q = id_a \<and> pkt_ptype q \<noteq> HELLO \<and>
        (pkt_sequence q = 1000 \<or> pkt_sequence q \<le> 936) \<longrightarrow> (\<exists>e. fst (Device_receive_packet toy n m raw db') = Inl e))"
proof -
  let ?c = "replicate 32 5 :: bytes"
  let ?sc = "(end_ab ?c (replicate 32 6))\<lparr>ses_local_sequence := 1000\<rparr>"
  let ?da = "put_session ?c ?sc dev_a"
  have "hd ?c \<noteq> hd id_b" by (simp add: id_b_def)
  then have "?c \<noteq> id_b" by metis
  then have ids: "dev_device_id ?da = id_a" "?c \<noteq> id_b" "dev_device_id dev_b = id_b"
    using dev_ids by (simp_all add: put_session_def)
  have "session_wf ?c ?sc" using end_ab_wf [of ?c "replicate 32 6"] by (simp add: session_wf_def replay_inv_def)
  then have wf: "device_wf toy ?da" by (rule put_session_wf [OF dev_a_wf])
  have share: "share_session ?da (end_ab id_b key_b) dev_b (end_ab id_a key_a)"
    using dev_ab_share ids(2) dev_ids by (auto simp: share_session_def put_session_def dict_simps)
  have sc: "dict_get (dev_sessions ?da) ?c = Some ?sc" by (simp add: put_session_def dict_simps)
  show ?thesis
    using redirected_packet_blocks [OF toy_laws wf share sc, of "replicate 12 9" "[1]" 1000 1500] ids share
    by (auto simp: end_ab_def)
qed

end
