(* ===== verification/Bulk_Exchange.thy ===== *)
theory Bulk_Exchange
  imports Exchange
begin

text \<open>
  A burst over two sliding-window channels and its acknowledgement on the way back: the ACK packet is
  built from the receiver's last SACK frame, received and decrypted by the sender's device, decoded and
  processed by the sender's channel.
\<close>

section \<open>What sending and receiving change of a device\<close>

text \<open>The later state of a device whose sessions have changed in the given way only.\<close>

definition moved :: "(session \<Rightarrow> session \<Rightarrow> bool) \<Rightarrow> 'k device \<Rightarrow> 'k device \<Rightarrow> bool" where
  "moved R d d' \<longleftrightarrow> dev_device_id d' = dev_device_id d \<and> dev_identity_public_bytes d' = dev_identity_public_bytes d \<and>
     (\<forall>k s. dict_get (dev_sessions d) k = Some s \<longrightarrow> (\<exists>s'. dict_get (dev_sessions d') k = Some s' \<and> R s s'))"

definition counter_moved :: "session \<Rightarrow> session \<Rightarrow> bool" where
  "counter_moved s s' \<longleftrightarrow> (\<exists>n. s' = s\<lparr>ses_local_sequence := n\<rparr>)"

definition window_moved :: "session \<Rightarrow> session \<Rightarrow> bool" where
  "window_moved s s' \<longleftrightarrow> same_keys s s' \<and> ses_local_sequence s' = ses_local_sequence s"

lemma moves_refl [simp]: "counter_moved s s" "window_moved s s"
  by (auto simp: counter_moved_def window_moved_def intro: exI [of _ "ses_local_sequence s"])

lemma moves_trans:
  "counter_moved s s' \<Longrightarrow> counter_moved s' s'' \<Longrightarrow> counter_moved s s''"
  "window_moved s s' \<Longrightarrow> window_moved s' s'' \<Longrightarrow> window_moved s s''"
  by (auto simp: counter_moved_def window_moved_def same_keys_def)

lemma moved_refl: "(\<And>s. R s s) \<Longrightarrow> moved R d d"
  by (auto simp: moved_def)

lemma moved_trans:
  assumes "\<And>s s' s''. R s s' \<Longrightarrow> R s' s'' \<Longrightarrow> R s s''" and "moved R d d'" and "moved R d' d''"
  shows "moved R d d''"
proof -
  have "\<exists>s''. dict_get (dev_sessions d'') k = Some s'' \<and> R s s''" if g: "dict_get (dev_sessions d) k = Some s" for k s
  proof -
    obtain s' where "dict_get (dev_sessions d') k = Some s'" "R s s'" using assms(2) g by (auto simp: moved_def)
    moreover from this obtain s'' where "dict_get (dev_sessions d'') k = Some s''" "R s' s''"
      using assms(3) by (auto simp: moved_def)
    ultimately show ?thesis using assms(1) by blast
  qed
  then show ?thesis using assms(2,3) by (auto simp: moved_def)
qed

lemma moved_put:
  assumes "\<And>s. R s s" and "dict_get (dev_sessions d) k = Some s" and "R s s'"
  shows "moved R d (put_session k s' d)"
  using assms by (auto simp: moved_def put_session_def dict_simps)

lemma build_sealed_moved: "moved counter_moved d (snd (build_sealed C auth n nonce pt fl k t d))"
proof (cases "dict_get (dev_sessions d) k")
  case (Some s)
  have "moved counter_moved d (put_session k (s\<lparr>ses_local_sequence := ses_local_sequence s + 1\<rparr>) d)"
    by (rule moved_put [OF _ Some]) (auto simp: counter_moved_def)
  then show ?thesis
    using Some by (simp add: build_sealed_def Device_get_session_def Session_next_sequence_def Let_def moved_refl
        split: sum.splits)
qed (simp add: build_sealed_def Device_get_session_def moved_refl)

lemma receive_packet_moved: "moved window_moved d (snd (Device_receive_packet C n m raw d))"
proof (cases rule: receive_packet_cases [where C = C and n = n and m = m and raw = raw and d = d])
  case (session p s)
  have "moved window_moved d (put_session (pkt_sender_id p) (snd (replay_checked m p s)) d)"
    by (rule moved_put [OF _ session(3)]) (simp_all add: window_moved_def)
  then show ?thesis by (simp add: session(5))
qed (simp_all add: moved_refl)

lemma sealed_moved: "build_sealed C auth n nonce pt fl k t d = (r, d') \<Longrightarrow> moved counter_moved d d'"
  using build_sealed_moved [of d C auth n nonce pt fl k t] by simp

lemma channel_wire_moved:
  assumes "channel_wire C v use_mac plain (p, d) = (r, (p', d'))"
  shows "p' = p \<and> moved counter_moved d d'"
  using assms
  by (auto simp: channel_wire_def Protocol_send_data_def Protocol_require_established_def pure_def bindS_def on_device_def
      Device_build_data_packet_mac_def Device_build_data_packet_def moved_refl
      split: if_splits option.splits prod.splits sum.splits dest: sealed_moved)

lemma send_moved:
  assumes "SlidingWindow_send C v now plain (c, (p, d)) = (r, (c', (p', d')))"
  shows "p' = p \<and> moved counter_moved d d'"
  using assms channel_wire_moved [of C v "sw_use_mac c" plain p d]
  by (auto simp: SlidingWindow_send_def Let_def moved_refl split: if_splits prod.splits sum.splits)

lemma send_all_moved:
  "send_all C xs (c, p, d) = Some (wires, (c', p', d')) \<Longrightarrow> moved counter_moved d d'"
proof (induction xs arbitrary: c p d wires)
  case (Cons x xs)
  obtain v now plain where x: "x = (v, now, plain)" by (cases x)
  obtain seq wire c1 p1 d1 ws where s: "SlidingWindow_send C v now plain (c, p, d) = (Inr (Some (seq, wire)), (c1, p1, d1))"
    "send_all C xs (c1, p1, d1) = Some (ws, (c', p', d'))"
    using Cons.prems x by (auto split: prod.splits sum.splits option.splits)
  show ?case
    by (rule moved_trans [OF moves_trans(1) conjunct2 [OF send_moved [OF s(1)]] Cons.IH [OF s(2)]])
qed (simp add: moved_refl)

lemma receive_moved:
  assumes "SlidingWindow_receive C v raw (c, (p, d)) = (r, (c', (p', d')))"
  shows "p' = p \<and> moved window_moved d d'"
  using assms receive_packet_moved [of d C "env_parse v" "env_replay v" raw]
  by (auto simp: SlidingWindow_receive_def split: prod.splits sum.splits)

lemma receive_all_moved:
  "receive_all C xs (c, p, d) = Some (rs, (c', p', d')) \<Longrightarrow> moved window_moved d d'"
proof (induction xs arbitrary: c p d rs)
  case (Cons x xs)
  obtain v wire where x: "x = (v, wire)" by (cases x)
  obtain r c1 p1 d1 ws where s: "SlidingWindow_receive C v wire (c, p, d) = (Inr r, (c1, p1, d1))"
    "receive_all C xs (c1, p1, d1) = Some (ws, (c', p', d'))"
    using Cons.prems x by (auto split: prod.splits sum.splits)
  show ?case
    by (rule moved_trans [OF moves_trans(2) conjunct2 [OF receive_moved [OF s(1)]] Cons.IH [OF s(2)]])
qed (simp add: moved_refl)

lemma receive_all_wf:
  "receive_all C xs (c, p, d) = Some (rs, (c', p', d')) \<Longrightarrow> device_wf C d \<Longrightarrow> device_wf C d'"
proof (induction xs arbitrary: c p d rs)
  case (Cons x xs)
  obtain v wire where x: "x = (v, wire)" by (cases x)
  obtain r c1 p1 d1 ws where s: "SlidingWindow_receive C v wire (c, p, d) = (Inr r, (c1, p1, d1))"
    "receive_all C xs (c1, p1, d1) = Some (ws, (c', p', d'))"
    using Cons.prems x by (auto split: prod.splits sum.splits)
  have "device_wf C d1"
    using s(1) receive_packet_wf [OF Cons.prems(2), of "env_parse v" "env_replay v" wire]
    by (auto simp: SlidingWindow_receive_def split: prod.splits sum.splits)
  then show ?case by (rule Cons.IH [OF s(2)])
qed simp

section \<open>Acknowledging a burst\<close>

lemma share_moved:
  assumes "share_session da sa db sb" and "moved counter_moved da da'" and "moved window_moved db db'"
  obtains sa' sb' where "share_session da' sa' db' sb'" and "counter_moved sa sa'" and "window_moved sb sb'"
proof -
  obtain sa' where "dict_get (dev_sessions da') (dev_device_id db) = Some sa'" "counter_moved sa sa'"
    using assms(1,2) by (fastforce simp: share_session_def moved_def)
  moreover obtain sb' where "dict_get (dev_sessions db') (dev_device_id da) = Some sb'" "window_moved sb sb'"
    using assms(1,3) by (fastforce simp: share_session_def moved_def)
  ultimately show ?thesis
    using that [of sa' sb'] assms
    by (auto simp: share_session_def moved_def counter_moved_def window_moved_def same_keys_def)
qed

text \<open>The frame travels: built into an ACK packet, received, decrypted and decoded.\<close>

lemma sack_travels:
  assumes laws: "crypto_laws C" and wf: "device_wf C db" and share: "share_session da sa db sb"
    and peer: "pr_peer_id p = Some (dev_device_id da)" and v: "env_ok v" and f: "sack_wf f"
    and seq: "ses_local_sequence sb < 2 ^ 32" and fresh: "replay_fresh (ses_local_sequence sb) sa"
    and time: "\<bar>env_replay v' - env_stamp v\<bar> \<le> 30000"
  obtains ack db' packet da' bs where "SlidingWindow_build_sack_ack C v f (p, db) = (Inr ack, (p, db'))"
    and "Device_receive_packet C (env_parse v') (env_replay v') ack da = (Inr packet, da')"
    and "Device_decrypt_packet C da' packet = Inr bs" and "SackFrame_decode bs = Inr f"
proof -
  obtain ack bs where b: "SlidingWindow_build_sack_ack C v f (p, db) =
       (Inr ack, (p, put_session (dev_device_id da) (drawn_next sb) db))"
    and bs: "SackFrame_encode f = Inr bs"
    and car: "carries C (dev_device_id db) sa (ses_local_sequence sb) (env_stamp v) bs ack"
    by (rule build_sack_ack_ok [OF laws wf share_session_sym [OF share] peer v f seq])
  have ses: "dict_get (dev_sessions da) (dev_device_id db) = Some sa" using share by (simp add: share_session_def)
  show ?thesis
    by (rule device_receive_carried [OF car ses fresh time]) (use that b sack_codec.dec_enc [OF f bs] in metis)
qed

text \<open>A concrete pair that has exchanged the numbers 0.\<close>

definition end_ab1 :: "bytes \<Rightarrow> bytes \<Rightarrow> session" where
  "end_ab1 peer pub = snd (Session_check_replay 1000 0 1000 ((end_ab peer pub)\<lparr>ses_local_sequence := 1\<rparr>))"

definition dev_a1 :: "bytes device" where "dev_a1 = put_session id_b (end_ab1 id_b key_b) dev_a"

definition dev_b1 :: "bytes device" where "dev_b1 = put_session id_a (end_ab1 id_a key_a) dev_b"

lemma dev_ab1_ids: "dev_device_id dev_a1 = id_a" "dev_device_id dev_b1 = id_b"
  by (simp_all add: dev_a1_def dev_b1_def put_session_def dev_ids)

lemma end_ab1_fields:
  "same_keys (end_ab p k) (end_ab1 p k)" "ses_local_sequence (end_ab1 p k) = 1" "ses_peer_max_seq (end_ab1 p k) = 0"
  "ses_peer_seq_window (end_ab1 p k) = {0}"
  by (simp_all add: end_ab1_def same_keys_def Session_check_replay_def end_ab_def MAX_CLOCK_SKEW_MS_def REPLAY_WINDOW_def)

lemma end_ab1_wf: "length p = 32 \<Longrightarrow> length k = 32 \<Longrightarrow> session_wf p (end_ab1 p k)"
  using check_replay_wf [OF next_sequence_wf [OF end_ab_wf], of p k 1000 0 1000]
  by (simp add: end_ab1_def Session_next_sequence_def) (simp add: end_ab_def)

lemma dev_ab_in_step: "in_step toy dev_a1 dev_b1 1" "in_step toy dev_b1 dev_a1 1"
proof -
  have wf: "device_wf toy dev_a1" "device_wf toy dev_b1"
    unfolding dev_a1_def dev_b1_def by (simp_all add: put_session_wf dev_a_wf dev_b_wf end_ab1_wf)
  have share: "share_session dev_a1 (end_ab1 id_b key_b) dev_b1 (end_ab1 id_a key_a)"
    using share_session_step [OF dev_ab_share end_ab1_fields(1) end_ab1_fields(1)] by (simp add: dev_a1_def dev_b1_def dev_ids)
  show "in_step toy dev_a1 dev_b1 1" by (rule in_stepI [OF wf share]) (simp_all add: end_ab1_fields)
  show "in_step toy dev_b1 dev_a1 1"
    by (rule in_stepI [OF wf(2,1) share_session_sym [OF share]]) (simp_all add: end_ab1_fields)
qed

section \<open>Properties\<close>

text \<open>C5: a burst is delivered and acknowledged. Two devices are in step in both directions and the sender's
  channel has an empty window with room for the burst, of at most 64 packets. Then every \<open>send\<close> succeeds. Let the packets reach the
  other device each within 30 seconds of its time stamp: in any order on a channel that waits for the first
  number of the burst, and with the first packet of the burst first, the others in any order, on a channel that has received nothing
  before. Then every \<open>receive\<close> succeeds and the data handed to the application is the
  concatenation of the messages in the order of sending. The ACK packet that the receiver builds from its last
  SACK frame is accepted and decrypted by the sender's device, and the decoded frame empties the sender's
  window.\<close>

theorem burst_acknowledged:
  assumes "crypto_laws C" and "in_step C da db n" and "in_step C db da m"
    and "pr_peer_id pa = Some (dev_device_id db)" and "sw_use_mac ca \<or> pr_state pa = ESTABLISHED"
    and "pr_peer_id pb = Some (dev_device_id da)"
    and "sw_send_window ca = []" and "xs \<noteq> []" and "length xs \<le> 64" and "int (length xs) \<le> sw_window_size ca"
    and "\<forall>(v, now, plain) \<in> set xs. 0 < env_stamp v \<and> env_stamp v < 256 ^ 8 \<and> length (env_nonce v) = 12 \<and>
       int (length plain) < 2 ^ 31"
    and "n + int (length xs) \<le> 2 ^ 32" and "m < 2 ^ 32"
    and "distinct (map fst order)" and "set (map fst order) = {..<length xs}"
    and "\<forall>x \<in> set order. \<bar>env_replay (snd x) - env_stamp (fst (xs ! fst x))\<bar> \<le> 30000"
    and "sw_recv_buffer cb = []" and "sw_recv_next cb = -1 \<and> fst (hd order) = 0 \<or>
       0 \<le> sw_recv_next cb \<and> sw_recv_next cb + 1 = n"
    and "0 < env_stamp va \<and> env_stamp va < 256 ^ 8" and "length (env_nonce va) = 12"
    and "\<bar>env_replay vr - env_stamp va\<bar> \<le> 30000"
  shows "\<exists>wires ca' da' rs cb' db' ack db'' packet da'' bs f.
     send_all C xs (ca, pa, da) = Some (wires, (ca', pa, da')) \<and> SlidingWindow_in_flight ca' = length xs \<and>
     receive_all C (map (\<lambda>x. (snd x, wires ! fst x)) order) (cb, pb, db) = Some (rs, (cb', pb, db')) \<and>
     concat (map (\<lambda>r. delivered (fst r)) rs) = concat (map (\<lambda>x. snd (snd x)) xs) \<and>
     SlidingWindow_build_sack_ack C va (snd (last rs)) (pb, db') = (Inr ack, (pb, db'')) \<and>
     Device_receive_packet C (env_parse vr) (env_replay vr) ack da' = (Inr packet, da'') \<and>
     Device_decrypt_packet C da'' packet = Inr bs \<and> SackFrame_decode bs = Inr f \<and>
     SlidingWindow_in_flight (snd (SlidingWindow_process_sack f ca')) = 0"
proof -
  obtain sa sb where a: "device_wf C da" "device_wf C db" "share_session da sa db sb" "ses_local_sequence sa = n"
    "ses_peer_max_seq sb < n" "\<forall>q \<in> ses_peer_seq_window sb. q < n" by (rule in_stepE [OF assms(2)])
  obtain sb1 sa1 where b: "share_session db sb1 da sa1" "ses_local_sequence sb1 = m" "ses_peer_max_seq sa1 < m"
    "\<forall>q \<in> ses_peer_seq_window sa1. q < m" by (rule in_stepE [OF assms(3)])
  have same: "sb1 = sb" "sa1 = sa" using a(3) b(1) by (simp_all add: share_session_def)
  obtain wires ca' da' rs cb' db' where r: "send_all C xs (ca, pa, da) = Some (wires, (ca', pa, da'))"
    "SlidingWindow_in_flight ca' = length xs"
    "receive_all C (map (\<lambda>x. (snd x, wires ! fst x)) order) (cb, pb, db) = Some (rs, (cb', pb, db'))"
    "concat (map (\<lambda>r. delivered (fst r)) rs) = concat (map (\<lambda>x. snd (snd x)) xs)"
    and f: "sack_wf (snd (last rs))" "SlidingWindow_in_flight (snd (SlidingWindow_process_sack (snd (last rs)) ca')) = 0"
    by (rule burst_transferred [OF assms(1) a(1,3) assms(4,5,7-11), of order cb pb]) (use a(4-6) assms(12-18) in auto)
  obtain sa' sb' where s: "share_session da' sa' db' sb'" "counter_moved sa sa'" "window_moved sb sb'"
    by (rule share_moved [OF a(3) send_all_moved [OF r(1)] receive_all_moved [OF r(3)]])
  have wf: "device_wf C db'" by (rule receive_all_wf [OF r(3) a(2)])
  have seq: "ses_local_sequence sb' = m" using s(3) b(2) same by (simp add: window_moved_def)
  have fresh: "replay_fresh (ses_local_sequence sb') sa'" and q: "ses_local_sequence sb' < 2 ^ 32"
    using s(2) b(3,4) same assms(13) unfolding seq by (auto simp: counter_moved_def)
  have peer: "pr_peer_id pb = Some (dev_device_id da')"
    using assms(6) send_all_moved [OF r(1)] by (simp add: moved_def)
  have va: "env_ok va" using assms(19,20) by simp
  obtain ack db'' packet da'' bs where t:
    "SlidingWindow_build_sack_ack C va (snd (last rs)) (pb, db') = (Inr ack, (pb, db''))"
    "Device_receive_packet C (env_parse vr) (env_replay vr) ack da' = (Inr packet, da'')"
    "Device_decrypt_packet C da'' packet = Inr bs" "SackFrame_decode bs = Inr (snd (last rs))"
    by (rule sack_travels [OF assms(1) wf s(1) peer va f(1) q fresh assms(21)])
  show ?thesis
    by (rule exI [of _ wires], rule exI [of _ ca'], rule exI [of _ da'], rule exI [of _ rs], rule exI [of _ cb'],
        rule exI [of _ db'], rule exI [of _ ack], rule exI [of _ db''], rule exI [of _ packet], rule exI [of _ da''],
        rule exI [of _ bs], rule exI [of _ "snd (last rs)"]) (simp only: r f t simp_thms)
qed

theorem burst_acknowledged_witness:
  "\<exists>wires ca' da' rs cb' db' ack db''. send_all toy [(quiet, 0, [1]), (quiet, 0, [2, 3]), (quiet, 0, [4])]
       (SlidingWindow_new 64 200 8000 5 True, up id_b, dev_a1) = Some (wires, (ca', up id_b, da')) \<and>
     receive_all toy [(quiet, wires ! 0), (quiet, wires ! 2), (quiet, wires ! 1)]
       (SlidingWindow_new 64 200 8000 5 True, up id_a, dev_b1) = Some (rs, (cb', up id_a, db')) \<and>
     concat (map (\<lambda>r. delivered (fst r)) rs) = [1, 2, 3, 4] \<and>
     SlidingWindow_build_sack_ack toy quiet (snd (last rs)) (up id_a, db') = (Inr ack, (up id_a, db''))"
proof -
  let ?c = "SlidingWindow_new 64 200 8000 5 True"
  let ?xs = "[(quiet, 0, [1]), (quiet, 0, [2, 3]), (quiet, 0, [4])] :: (bytes env \<times> real \<times> bytes) list"
  let ?order = "[(0, quiet), (2, quiet), (1, quiet)] :: (nat \<times> bytes env) list"
  have "\<exists>wires ca' da' rs cb' db' ack db'' packet da'' bs f.
     send_all toy ?xs (?c, up id_b, dev_a1) = Some (wires, (ca', up id_b, da')) \<and>
     SlidingWindow_in_flight ca' = length ?xs \<and>
     receive_all toy (map (\<lambda>x. (snd x, wires ! fst x)) ?order) (?c, up id_a, dev_b1) = Some (rs, (cb', up id_a, db')) \<and>
     concat (map (\<lambda>r. delivered (fst r)) rs) = concat (map (\<lambda>x. snd (snd x)) ?xs) \<and>
     SlidingWindow_build_sack_ack toy quiet (snd (last rs)) (up id_a, db') = (Inr ack, (up id_a, db'')) \<and>
     Device_receive_packet toy (env_parse quiet) (env_replay quiet) ack da' = (Inr packet, da'') \<and>
     Device_decrypt_packet toy da'' packet = Inr bs \<and> SackFrame_decode bs = Inr f \<and>
     SlidingWindow_in_flight (snd (SlidingWindow_process_sack f ca')) = 0"
    by (rule burst_acknowledged [OF toy_laws dev_ab_in_step])
       (auto simp: dev_ab1_ids quiet_def SlidingWindow_new_def)
  then show ?thesis by simp blast
qed

end
