(* ===== verification/Reliable_Exchange.thy ===== *)
theory Reliable_Exchange
  imports Bulk_Exchange
begin

text \<open>
  The stop-and-wait channel over two devices and a network that loses packets: the packet is retransmitted
  until it arrives, delivered by the receiver's protocol and acknowledged on the way back.
\<close>

section \<open>Polls while everything is lost\<close>

lemma poll_one_waiting:
  assumes "rc_pending c = [(n, p)]" and "(t1 - pp_sent_at p) * 1000 < pp_next_timeout_ms p"
  shows "ReliableChannel_get_retransmissions (\<lambda>_. (t1, t2)) c = (Inr [], c)"
  using assms by (simp add: ReliableChannel_get_retransmissions_def poll_def PendingPacket_is_due_def Let_def
      drop_failed_def)

lemma poll_at_one:
  assumes "rc_pending c = [(n, p)]" and "pp_next_timeout_ms p \<le> gap" and "rc_max_timeout_ms c \<le> gap"
    and "pp_retries p + int (length ts) \<le> rc_max_retries c"
  shows "\<exists>p'. rc_pending (poll_at ts c) = [(n, p')] \<and> pp_packet_bytes p' = pp_packet_bytes p \<and>
     pp_next_timeout_ms p' \<le> gap \<and> pp_retries p' \<le> pp_retries p + int (length ts) \<and>
     pp_sent_at p' \<in> insert (pp_sent_at p) (set ts)"
  using assms
proof (induction ts arbitrary: c p)
  case (Cons t ts)
  show ?case
  proof (cases "pp_next_timeout_ms p \<le> (t - pp_sent_at p) * 1000")
    case True
    let ?p = "PendingPacket_record_retransmit (rc_base_timeout_ms c) (rc_max_timeout_ms c) t p"
    have "ReliableChannel_get_retransmissions (\<lambda>_. (t, t)) c = (Inr [pp_packet_bytes p], c\<lparr>rc_pending := [(n, ?p)]\<rparr>)"
      using poll_one_due [OF Cons.prems(1) True, of t] Cons.prems(4) by simp
    then show ?thesis
      using Cons.IH [of "c\<lparr>rc_pending := [(n, ?p)]\<rparr>" ?p] Cons.prems
      by (fastforce simp: PendingPacket_record_retransmit_def min.coboundedI2)
  next
    case False
    then show ?thesis using poll_one_waiting [OF Cons.prems(1), of t t] Cons.IH [OF Cons.prems(1-3)] Cons.prems(4)
      by fastforce
  qed
qed simp

text \<open>The poll that offers the packet once more.\<close>

lemma offered_again:
  assumes "rc_pending c = [(n, p)]" and "pp_retries p = 0" and "pp_next_timeout_ms p = rc_base_timeout_ms c"
    and "int (length ts) < rc_max_retries c"
    and "\<forall>x \<in> insert (pp_sent_at p) (set ts). max (rc_base_timeout_ms c) (rc_max_timeout_ms c) \<le> (t - x) * 1000"
  obtains c' y where "ReliableChannel_get_retransmissions (\<lambda>_. (t, t)) (poll_at ts c) = (Inr [pp_packet_bytes p], c')"
    and "rc_pending c' = [(n, y)]"
proof -
  let ?gap = "max (rc_base_timeout_ms c) (rc_max_timeout_ms c)"
  obtain q where q: "rc_pending (poll_at ts c) = [(n, q)]" "pp_packet_bytes q = pp_packet_bytes p"
    "pp_next_timeout_ms q \<le> ?gap" "pp_retries q \<le> int (length ts)" "pp_sent_at q \<in> insert (pp_sent_at p) (set ts)"
    using poll_at_one [OF assms(1), of ?gap ts] assms(2-4) by auto
  then have "pp_next_timeout_ms q \<le> (t - pp_sent_at q) * 1000" using assms(5) by fastforce
  then show ?thesis using that poll_one_due [OF q(1), of t t] q(2,4) assms(4) by simp
qed

section \<open>There and back\<close>

lemma channel_delivered:
  assumes "crypto_laws C" "in_step C da db n" "env_ok va" "int (length plain) < 2 ^ 31" "n < 2 ^ 32"
    "\<bar>env_replay vb - env_stamp va\<bar> \<le> 30000"
    and "pr_peer_id pa = Some (dev_device_id db)" "use_mac \<or> pr_state pa = ESTABLISHED" "pr_state pb = ESTABLISHED"
  obtains wire da' db' where "channel_wire C va use_mac plain (pa, da) = (Inr wire, (pa, da'))" "wire_seq wire = n"
    and "Protocol_receive_data C vb wire (pb, db) = (Inr plain, (pb, db'))"
    and "moved counter_moved da da'" "moved window_moved db db'" "device_wf C db'"
proof -
  obtain p wire da' db' where b: "(if use_mac then Device_build_data_packet_mac else Device_build_data_packet) C
       (env_stamp va) (env_nonce va) (dev_device_id db) plain da = (Inr p, da')" "Packet_to_bytes p = Inr wire"
    and r: "Device_receive_packet C (env_parse vb) (env_replay vb) wire db = (Inr p, db')"
      "Device_decrypt_packet C db' p = Inr plain" "pkt_ptype p = DATA"
    and s: "wire_seq wire = n" "in_step C da' db' (n + 1)"
    by (rule packet_delivered [OF assms(1-6)])
  have w: "channel_wire C va use_mac plain (pa, da) = (Inr wire, (pa, da'))"
    using b assms(7,8) send_data_ok [of pa "dev_device_id db" C va plain da p da' wire]
    by (cases use_mac) (simp_all add: channel_wire_def)
  have "moved window_moved db db'" using receive_packet_moved [of db C] r(1) by (metis snd_conv)
  moreover have "device_wf C db'" using s(2) by (simp add: in_step_def)
  ultimately show ?thesis
    using that [OF w s(1) receive_data_ok [OF assms(9) r(1,3,2)]] channel_wire_moved [OF w] by blast
qed

text \<open>An acknowledgement travels: built, received and decrypted to the number that it acknowledges.\<close>

lemma ack_travels:
  assumes laws: "crypto_laws C" and wf: "device_wf C db" and share: "share_session da sa db sb" and v: "env_ok v"
    and q: "0 \<le> q" "q < 2 ^ 32" and seq: "ses_local_sequence sb < 2 ^ 32" and fresh: "replay_fresh (ses_local_sequence sb) sa"
    and time: "\<bar>env_replay v' - env_stamp v\<bar> \<le> 30000"
  obtains ack db' wire packet da' where
    "Device_build_ack_packet C (env_stamp v) (env_nonce v) (dev_device_id da) q db = (Inr ack, db')"
    and "Packet_to_bytes ack = Inr wire"
    and "Device_receive_packet C (env_parse v') (env_replay v') wire da = (Inr packet, da')"
    and "Device_decrypt_packet C da' packet = Inr (be_bytes 4 q)"
proof -
  note share' = share_session_sym [OF share]
  have v': "length (env_nonce v) = 12" "clock_ok (env_stamp v)" and s: "ses_local_sequence sb < 256 ^ 4"
    using v seq by simp_all
  obtain p c t where b: "build_sealed C (if False then by_mac C else by_signature C) (env_stamp v) (env_nonce v) ACK
      (if False then 5 else 1) (dev_device_id da) (be_bytes 4 q) db = (Inr p, put_session (dev_device_id da) (drawn_next sb) db)"
    and p: "p = sealed_packet ACK (if False then 5 else 1) (dev_device_id db) (dev_device_id da)
      (ses_local_sequence sb) (env_nonce v) (env_stamp v) c t"
    and w: "packet_wf p" and dec: "crypto_decrypt C (ses_session_key sb) (env_nonce v) c [] = Inr (be_bytes 4 q)"
    and au: "session_authentic C sa p = Inr True"
    by (rule sealed_built [OF laws wf share' v'(1) _ v'(2) s, of "be_bytes 4 q" False ACK]) simp_all
  obtain wire where wire: "Packet_to_bytes p = Inr wire" using packet_codec.enc_total [OF w] by blast
  have sa: "dict_get (dev_sessions da) (dev_device_id db) = Some sa" "dict_get (dev_sessions db) (dev_device_id da) = Some sb"
    "ses_session_key sb = ses_session_key sa"
    using share by (simp_all add: share_session_def)
  have car: "carries C (dev_device_id db) sa (ses_local_sequence sb) (env_stamp v) (be_bytes 4 q) wire"
    unfolding carries_def using w wire au dec sa(3) by (intro exI [of _ p]) (simp add: p)
  have ack: "Device_build_ack_packet C (env_stamp v) (env_nonce v) (dev_device_id da) q db =
      (Inr p, put_session (dev_device_id da) (drawn_next sb) db)"
    using b q sa(2) by (simp add: Device_build_ack_packet_def Device_get_session_def pack_uint_ok FLAG_ENCRYPTED_def
        del: be_bytes.simps)
  show ?thesis
    by (rule device_receive_carried [OF car sa(1) fresh time]) (use that ack wire in metis)
qed

section \<open>Properties\<close>

text \<open>C6: a lost packet is recovered. Two devices are in step in both directions, and the sender's channel has nothing
  under way. It sends a message, and this packet and whatever the polls at the times \<open>ts\<close> offer is lost; these are
  fewer polls than the retries that the channel allows. Then a poll at a time \<open>t\<close>, when the longest timeout has
  passed, offers exactly the same packet again. If it reaches the receiver within 30 seconds of its time
  stamp, the receiver's protocol returns the message; the acknowledgement that the receiver's device
  builds for its number is accepted by the sender's device and decrypts to that number; and
  processing it leaves nothing under way.\<close>

theorem lost_packet_recovered:
  assumes "crypto_laws C" and "in_step C da db n" and "in_step C db da m"
    and "pr_peer_id pa = Some (dev_device_id db)" and "rc_use_mac c \<or> pr_state pa = ESTABLISHED"
    and "pr_state pb = ESTABLISHED" and "rc_pending c = []"
    and "int (length ts) < rc_max_retries c"
    and "\<forall>x \<in> insert now (set ts). max (rc_base_timeout_ms c) (rc_max_timeout_ms c) \<le> (t - x) * 1000"
    and "int (length plain) < 2 ^ 31" and "0 \<le> n" and "n < 2 ^ 32" and "m < 2 ^ 32"
    and "\<forall>v \<in> {va, vk}. 0 < env_stamp v \<and> env_stamp v < 256 ^ 8 \<and> length (env_nonce v) = 12"
    and "\<bar>env_replay vb - env_stamp va\<bar> \<le> 30000" and "\<bar>env_replay vr - env_stamp vk\<bar> \<le> 30000"
  shows "\<exists>wire c1 da1 c2 db1 ack db2 ackw packet da2.
     ReliableChannel_send C va now plain (c, pa, da) = (Inr (n, wire), (c1, pa, da1)) \<and>
     ReliableChannel_get_retransmissions (\<lambda>_. (t, t)) (poll_at ts c1) = (Inr [wire], c2) \<and>
     Protocol_receive_data C vb wire (pb, db) = (Inr plain, (pb, db1)) \<and>
     Device_build_ack_packet C (env_stamp vk) (env_nonce vk) (dev_device_id da1) n db1 = (Inr ack, db2) \<and>
     Packet_to_bytes ack = Inr ackw \<and>
     Device_receive_packet C (env_parse vr) (env_replay vr) ackw da1 = (Inr packet, da2) \<and>
     Device_decrypt_packet C da2 packet = Inr (be_bytes 4 n) \<and>
     fst (ReliableChannel_process_ack n c2) \<and> ReliableChannel_pending_count (snd (ReliableChannel_process_ack n c2)) = 0"
proof -
  obtain sa sb where a: "share_session da sa db sb" by (rule in_stepE [OF assms(2)])
  obtain sb1 sa1 where b: "share_session db sb1 da sa1" "ses_local_sequence sb1 = m" "ses_peer_max_seq sa1 < m"
    "\<forall>q \<in> ses_peer_seq_window sa1. q < m" by (rule in_stepE [OF assms(3)])
  have same: "sb1 = sb" "sa1 = sa" using a b(1) by (simp_all add: share_session_def)
  have v: "env_ok va" "env_ok vk" using assms(14) by simp_all
  obtain wire da1 db1 where w: "channel_wire C va (rc_use_mac c) plain (pa, da) = (Inr wire, (pa, da1))" "wire_seq wire = n"
    and r: "Protocol_receive_data C vb wire (pb, db) = (Inr plain, (pb, db1))"
    and mv: "moved counter_moved da da1" "moved window_moved db db1" "device_wf C db1"
    by (rule channel_delivered [OF assms(1,2) v(1) assms(10,12,15,4,5,6)])
  let ?p = "\<lparr>pp_sequence = n, pp_packet_bytes = wire, pp_sent_at = now, pp_retries = 0,
      pp_next_timeout_ms = rc_base_timeout_ms c\<rparr>"
  let ?c1 = "c\<lparr>rc_pending := [(n, ?p)]\<rparr>"
  have send: "ReliableChannel_send C va now plain (c, pa, da) = (Inr (n, wire), (?c1, pa, da1))"
    using w assms(7) by (simp add: ReliableChannel_send_def)
  obtain c2 y where c2: "ReliableChannel_get_retransmissions (\<lambda>_. (t, t)) (poll_at ts ?c1) = (Inr [wire], c2)"
    "rc_pending c2 = [(n, y)]"
    using offered_again [of ?c1 n ?p ts t] assms(8,9) by auto
  obtain sa' sb' where s: "share_session da1 sa' db1 sb'" "counter_moved sa sa'" "window_moved sb sb'"
    by (rule share_moved [OF a mv(1,2)])
  have seq: "ses_local_sequence sb' = m" using s(3) b(2) same by (simp add: window_moved_def)
  have fresh: "replay_fresh (ses_local_sequence sb') sa'" and q: "ses_local_sequence sb' < 2 ^ 32"
    using s(2) b(3,4) same assms(13) unfolding seq by (auto simp: counter_moved_def)
  obtain ack db2 ackw packet da2 where k:
    "Device_build_ack_packet C (env_stamp vk) (env_nonce vk) (dev_device_id da1) n db1 = (Inr ack, db2)"
    "Packet_to_bytes ack = Inr ackw" "Device_receive_packet C (env_parse vr) (env_replay vr) ackw da1 = (Inr packet, da2)"
    "Device_decrypt_packet C da2 packet = Inr (be_bytes 4 n)"
    by (rule ack_travels [OF assms(1) mv(3) s(1) v(2) assms(11,12) q fresh assms(16)])
  have "fst (ReliableChannel_process_ack n c2)"
    "ReliableChannel_pending_count (snd (ReliableChannel_process_ack n c2)) = 0"
    using c2(2) by (simp_all add: ReliableChannel_process_ack_def ReliableChannel_pending_count_def)
  with send c2(1) r k show ?thesis by blast
qed

theorem lost_packet_recovered_witness:
  "\<exists>wire c1 da1 c2 db1. ReliableChannel_send toy quiet 0 [1, 2, 3] (ReliableChannel_new 500 16000 5 False, up id_b, dev_a1)
       = (Inr (1, wire), (c1, up id_b, da1)) \<and>
     ReliableChannel_get_retransmissions (\<lambda>_. (20, 20)) (poll_at [1, 2, 3 / 2] c1) = (Inr [wire], c2) \<and>
     Protocol_receive_data toy quiet wire (up id_a, dev_b1) = (Inr [1, 2, 3], (up id_a, db1)) \<and>
     ReliableChannel_pending_count (snd (ReliableChannel_process_ack 1 c2)) = 0"
  using lost_packet_recovered [OF toy_laws dev_ab_in_step, of "up id_b" "ReliableChannel_new 500 16000 5 False" "up id_a"
      "[1, 2, 3 / 2]" 0 20 "[1, 2, 3]" quiet quiet quiet quiet]
  by (simp add: dev_ab1_ids quiet_def ReliableChannel_new_def) blast

end
