(* ===== verification/Mesh.thy ===== *)
theory Mesh
  imports Bulk_Exchange Router
begin

text \<open>
  Routers over in-process transports: a packet on its way over several routers, and what two
  routers that exchange announcements learn from each other.
\<close>

section \<open>A packet on its way\<close>

text \<open>
  The packet is forwarded by the first router at its time \<open>now\<close> and taken from the endpoint \<open>u\<close> of the next one,
  which forwards it in turn, until the path ends.
\<close>

fun relay :: "bytes \<Rightarrow> (router \<times> real \<times> tref) list \<Rightarrow> bytes \<Rightarrow> heap \<Rightarrow> bytes outcome \<times> heap" where
  "relay d [] raw h = (Returns raw, h)"
| "relay d ((r, now, u) # hops) raw h =
     (case Router_forward InProcessTransport_send now raw d r h of
        (Inl e, h1) \<Rightarrow> (Raises e, h1)
      | (Inr _, h1) \<Rightarrow>
          (case InProcessTransport_recv u None h1 of
             (Returns (addr, raw1), h2) \<Rightarrow> relay d hops raw1 h2
           | (Raises e, h2) \<Rightarrow> (Raises e, h2)
           | (Blocks, h2) \<Rightarrow> (Blocks, h2)))"

text \<open>The router has a route to \<open>d\<close> over an open transport whose other end is \<open>u\<close>, where nothing waits.\<close>

definition leads_to :: "bytes \<Rightarrow> heap \<Rightarrow> router \<times> real \<times> tref \<Rightarrow> bool" where
  "leads_to d h x \<longleftrightarrow> (case x of (r, now, u) \<Rightarrow>
     (case Router_get_route now r d of
        Inl _ \<Rightarrow> False
      | Inr e \<Rightarrow> \<not> ip_closed (h (re_transport e)) \<and> ip_peer (h (re_transport e)) = Some u \<and>
          \<not> ip_closed (h u) \<and> ip_inbox (h u) = []))"

lemma relay_step:
  assumes "leads_to d h (r, now, u)"
  shows "relay d ((r, now, u) # hops) raw h = relay d hops raw h"
proof -
  obtain e where e: "Router_get_route now r d = Inr e" "\<not> ip_closed (h (re_transport e))"
    "ip_peer (h (re_transport e)) = Some u" "\<not> ip_closed (h u)" "ip_inbox (h u) = []"
    using assms by (auto simp: leads_to_def split: sum.splits)
  have "h(u := (h u)\<lparr>ip_inbox := []\<rparr>) = h" using e(5) by (intro ext) simp
  with e show ?thesis
    by (simp add: Router_forward_def InProcessTransport_send_def inbox_put_def InProcessTransport_recv_def)
qed

lemma relay_path: "\<forall>x \<in> set hops. leads_to d h x \<Longrightarrow> relay d hops raw h = (Returns raw, h)"
  by (induction hops) (auto simp: relay_step simp del: relay.simps(2))

section \<open>Routes that an announcement leaves in the table\<close>

lemma fold_add_present:
  assumes "table_wf t" and "\<forall>e \<in> set es. 1 \<le> re_hop_count e" and "e \<in> set es" and "re_device_id e = d"
  shows "\<exists>f \<in> set (RouteTable_all_routes (fold RouteTable_add es t) d). f \<in> set es"
  using assms(2,3)
proof (induction es rule: rev_induct)
  case (snoc x es)
  let ?rs = "RouteTable_all_routes (fold RouteTable_add es t) d"
  have dist: "distinct (map link_of ?rs)" using fold_add_wf [OF assms(1), of es] snoc.prems(1) by (simp add: table_wf_def)
  show ?case
  proof (cases "re_device_id x = d")
    case True
    then show ?thesis using replace_set [OF dist, of x] by (simp add: all_routes_add)
  next
    case False
    then have "e \<in> set es" using snoc.prems(2) assms(4) by auto
    then show ?thesis using snoc False by (auto simp: all_routes_add)
  qed
qed simp

text \<open>A router whose announcements can be built: all its identities have 32 bytes.\<close>

definition announcer_ok :: "router \<Rightarrow> bool" where
  "announcer_ok r \<longleftrightarrow> table_wf (ro_table r) \<and> length (ro_local_id r) = 32 \<and>
     (\<forall>x \<in> set (RouteTable_known_destinations (ro_table r)). length x = 32)"

lemma advertised_routes_total: "table_wf t \<Longrightarrow> \<exists>known. advertised_routes now_of t ds = Inr known"
proof (induction ds)
  case (Cons d ds)
  show ?case
    by (cases rule: RouteTable_best_cases [OF Cons.prems, where now = "now_of d" and d = d])
       (use Cons.IH [OF Cons.prems] in auto)
qed simp

lemma build_announce_ok:
  assumes "announcer_ok r"
  obtains payload where "Router_build_announce_payload now_of [] r = Inr payload"
    and "length payload mod 34 = 0" and "\<forall>x \<in> set (unpack_routes payload). length (fst x) = 32"
proof -
  have wf: "table_wf (ro_table r)" and ids: "\<forall>x \<in> set (RouteTable_known_destinations (ro_table r)). length x = 32"
    and self: "length (ro_local_id r) = 32" using assms by (simp_all add: announcer_ok_def)
  obtain known where known: "advertised_routes now_of (ro_table r) (RouteTable_known_destinations (ro_table r)) = Inr known"
    using advertised_routes_total [OF wf] by blast
  let ?es = "(ro_local_id r, 0) # known"
  have hop: "1 \<le> re_hop_count e" if "RouteTable_best now (ro_table r) x = Inr (Some e)" for now x e
    using wf
  proof (cases rule: RouteTable_best_cases [where now = now and d = x])
    case (some e0)
    then show ?thesis using that wf by (auto simp: table_wf_def fresh_routes_def RouteTable_all_routes_def)
  qed (use that in simp)
  have "\<forall>e \<in> set ?es. length (fst e) = 32 \<and> 0 \<le> snd e"
    using advertised_routes_In [OF known] ids self hop by fastforce
  moreover have "dict_ok (fold keep_lowest ?es [])" by (rule fold_keep_lowest_ok) simp
  ultimately have "\<forall>e \<in> set (fold keep_lowest ?es []). length (fst e) = 32 \<and> 0 \<le> snd e"
    using keep_lowest_get [of ?es "[]"] by (fastforce simp: map_of_eq_Some_iff)
  note all = this
  obtain bs where bs: "pack_routes (fold keep_lowest ?es []) = Inr bs" "length bs mod 34 = 0"
    "unpack_routes bs = map (\<lambda>e. (fst e, min (snd e) 65535)) (fold keep_lowest ?es [])"
    using unpack_pack_routes [OF all] by auto
  then show ?thesis
    using that [of bs] all known by (simp add: Router_build_announce_payload_def Router_announced_def)
qed

lemma fold_add_after [simp]: "rt_stale_after (fold RouteTable_add es t) = rt_stale_after t"
  by (induction es arbitrary: t) (simp_all add: RouteTable_add_def Let_def)

lemma known_destinations_add:
  "set (RouteTable_known_destinations (RouteTable_add e t)) =
     insert (re_device_id e) (set (RouteTable_known_destinations t))"
proof -
  have "set (dict_keys (dict_set k v x)) = insert k (set (dict_keys x))" for k and v :: "route_entry list" and x
    by (subst dict_keys_set) auto
  then show ?thesis
    unfolding RouteTable_known_destinations_def RouteTable_add_def Let_def by (simp del: list.set_map)
qed

lemma known_destinations_fold:
  "set (RouteTable_known_destinations (fold RouteTable_add es t)) =
     set (RouteTable_known_destinations t) \<union> re_device_id ` set es"
  by (induction es arbitrary: t) (simp_all add: known_destinations_add)

text \<open>
  A router has heard of \<open>d\<close> at the readings of \<open>clk\<close> over a link: it has such a route to \<open>d\<close>, and every
  other one is among \<open>old\<close>.
\<close>

definition heard :: "(nat \<Rightarrow> real) \<Rightarrow> tref \<times> bytes \<Rightarrow> route_entry set \<Rightarrow> bytes \<Rightarrow> router \<Rightarrow> bool" where
  "heard clk link old d r \<longleftrightarrow>
     (\<forall>f \<in> set (RouteTable_all_routes (ro_table r) d). f \<in> old \<or> (link_of f = link \<and> re_last_seen f \<in> range clk)) \<and>
     (\<exists>f \<in> set (RouteTable_all_routes (ro_table r) d). link_of f = link \<and> re_last_seen f \<in> range clk)"

lemma fresh_routes_in: "f \<in> set (fresh_routes now t d) \<longleftrightarrow>
    f \<in> set (RouteTable_all_routes t d) \<and> now - re_last_seen f \<le> rt_stale_after t"
  by (auto simp: fresh_routes_def RouteTable_all_routes_def)

lemma best_fresh:
  assumes "table_wf t"
  shows "fresh_routes now t d \<noteq> [] \<Longrightarrow> \<exists>e. RouteTable_best now t d = Inr (Some e)"
    and "RouteTable_best now t d = Inr (Some e) \<Longrightarrow> e \<in> set (fresh_routes now t d)"
  using RouteTable_best_cases [OF assms, of now d] by (metis, fastforce)

lemma heard_best:
  assumes "heard clk link old d r" and "table_wf (ro_table r)" and "\<forall>i. now - clk i \<le> rt_stale_after (ro_table r)"
  shows "\<exists>e. RouteTable_best now (ro_table r) d = Inr (Some e)"
proof -
  obtain f where "f \<in> set (RouteTable_all_routes (ro_table r) d)" "re_last_seen f \<in> range clk"
    using assms(1) unfolding heard_def by blast
  then have "f \<in> set (fresh_routes now (ro_table r) d)" using assms(3) by (auto simp: fresh_routes_in)
  then have "fresh_routes now (ro_table r) d \<noteq> []" by auto
  then show ?thesis by (rule best_fresh(1) [OF assms(2)])
qed

lemma heard_route:
  assumes "heard clk link old d r" and "table_wf (ro_table r)" and "\<forall>i. now - clk i \<le> rt_stale_after (ro_table r)"
    and "\<forall>f \<in> old. rt_stale_after (ro_table r) < now - re_last_seen f"
  shows "\<exists>e. Router_get_route now r d = Inr e \<and> link_of e = link"
proof -
  obtain e where e: "RouteTable_best now (ro_table r) d = Inr (Some e)" using heard_best [OF assms(1-3)] by blast
  then have f: "e \<in> set (RouteTable_all_routes (ro_table r) d)" "now - re_last_seen e \<le> rt_stale_after (ro_table r)"
    using best_fresh(2) [OF assms(2)] by (simp_all add: fresh_routes_in)
  have "e \<notin> old" using assms(4) f(2) by force
  then have "link_of e = link" using assms(1) f(1) unfolding heard_def by blast
  then show ?thesis using e by (simp add: Router_get_route_def)
qed

lemma heard_expired:
  assumes "heard clk link old d r" and "\<forall>i. rt_stale_after (ro_table r) < now - clk i"
    and "\<forall>f \<in> old. rt_stale_after (ro_table r) < now - re_last_seen f"
  shows "Router_get_route now r d = Inl RoutingError"
proof -
  have late: "rt_stale_after (ro_table r) < now - re_last_seen f" if f: "f \<in> set (RouteTable_all_routes (ro_table r) d)" for f
  proof (cases "f \<in> old")
    case False
    then obtain i where "re_last_seen f = clk i" using assms(1) f unfolding heard_def by blast
    then show ?thesis using assms(2) by simp
  qed (use assms(3) in simp)
  have "set (fresh_routes now (ro_table r) d) = {}"
  proof (rule equals0I)
    fix f assume "f \<in> set (fresh_routes now (ro_table r) d)"
    then show False using late [of f] by (simp add: fresh_routes_in)
  qed
  then have "fresh_routes now (ro_table r) d = []" by simp
  then show ?thesis by (simp add: Router_get_route_def RouteTable_best_def)
qed

text \<open>One announcement: a router that has a route to \<open>d\<close> announces it, and the receiver hears of it.\<close>

lemma announcement_heard:
  assumes ra: "announcer_ok ra" and rb: "announcer_ok rb"
    and best: "RouteTable_best (now d) (ro_table ra) d = Inr (Some e)"
    and d: "d \<noteq> ro_local_id ra" "d \<noteq> ro_local_id rb"
    and old: "\<forall>f \<in> set (RouteTable_all_routes (ro_table rb) d). f \<in> old \<or> link_of f = (via, addr)"
  obtains payload u rb' where "Router_build_announce_payload now [] ra = Inr payload"
    and "Router_process_announce_payload clk payload via addr trust rb = (Inr u, rb')"
    and "announcer_ok rb'" and "heard clk (via, addr) old d rb'"
    and "ro_local_id rb' = ro_local_id rb" and "rt_stale_after (ro_table rb') = rt_stale_after (ro_table rb)"
proof -
  obtain payload where p: "Router_build_announce_payload now [] ra = Inr payload" "length payload mod 34 = 0"
    "\<forall>x \<in> set (unpack_routes payload). length (fst x) = 32"
    using build_announce_ok [OF ra] by blast
  obtain u rb' where q: "Router_process_announce_payload clk payload via addr trust rb = (Inr u, rb')"
    using p(2) by (simp add: Router_process_announce_payload_def ENTRY_SIZE_def Let_def)
  note s = process_announce_success [OF q]
  have wf: "table_wf (ro_table rb)" using rb by (simp add: announcer_ok_def)
  have upd: "link_of f = (via, addr) \<and> 1 \<le> re_hop_count f \<and> re_last_seen f \<in> range clk \<and> length (re_device_id f) = 32"
    if f: "f \<in> set u" for f
  proof -
    obtain i x where x: "x \<in> set (unpack_routes payload)" "f = learned_entry rb (clk i) via addr trust x"
      using s(2) [OF f] by blast
    show ?thesis using unpack_routes_hops [of "fst x" "snd x" payload] x p(3) by (simp add: learned_entry_def Let_def)
  qed
  have wf': "table_wf (ro_table rb')" using fold_add_wf [OF wf, of u] upd s(1) by simp
  have ok: "announcer_ok rb'"
    using rb wf' upd s(1) by (auto simp: announcer_ok_def known_destinations_fold)
  have "(d, min (re_hop_count e + 1) 65535) \<in> set (unpack_routes payload)"
    using announced_payload(1) [OF p(1) _ _ _ best d(1)] ra by (simp add: announcer_ok_def)
  then obtain i where "learned_entry rb (clk i) via addr trust (d, min (re_hop_count e + 1) 65535) \<in> set u"
    using s(3) d(2) by fastforce
  then obtain g where g: "g \<in> set (RouteTable_all_routes (ro_table rb') d)" "g \<in> set u"
    using fold_add_present [OF wf, of u _ d] upd s(1) by fastforce
  have "f \<in> old \<or> f \<in> set u" if f: "f \<in> set (RouteTable_all_routes (ro_table rb') d)" for f
  proof (rule ccontr)
    assume n: "\<not> (f \<in> old \<or> f \<in> set u)"
    then have "link_of f = (via, addr)"
      using fold_add_routes [OF wf, of u f d] upd f s(1) old by auto
    then have eq: "link_of f = link_of g" using upd [OF g(2)] by simp
    have "inj_on link_of (set (RouteTable_all_routes (ro_table rb') d))" using wf' by (simp add: table_wf_def distinct_map)
    then have "f = g" using eq f g(1) by (rule inj_onD)
    then show False using g(2) n by simp
  qed
  then have "heard clk (via, addr) old d rb'" using g upd unfolding heard_def by blast
  then show ?thesis using that [OF p(1) q ok] s(1) by simp
qed

text \<open>
  Rounds of announcements between two routers, each with the readings of the clocks at which the first one
  builds its payload, the second one processes it, builds its own, and the first one processes that.
\<close>

type_synonym announce_round = "(bytes \<Rightarrow> real) \<times> (nat \<Rightarrow> real) \<times> (bytes \<Rightarrow> real) \<times> (nat \<Rightarrow> real)"

fun gossip :: "tref \<times> bytes \<times> real \<Rightarrow> tref \<times> bytes \<times> real \<Rightarrow> announce_round list \<Rightarrow> router \<times> router
    \<Rightarrow> (router \<times> router) result" where
  "gossip la lb [] s = Inr s"
| "gossip (ta, addr_b, trust_a) (tb, addr_a, trust_b) ((build_a, learn_b, build_b, learn_a) # rounds) (ra, rb) =
     bindE (Router_build_announce_payload build_a [] ra) (\<lambda>p1.
       case Router_process_announce_payload learn_b p1 tb addr_a trust_b rb of
         (Inl e, _) \<Rightarrow> Inl e
       | (Inr _, rb') \<Rightarrow>
           bindE (Router_build_announce_payload build_b [] rb') (\<lambda>p2.
             case Router_process_announce_payload learn_a p2 ta addr_b trust_a ra of
               (Inl e, _) \<Rightarrow> Inl e
             | (Inr _, ra') \<Rightarrow> gossip (ta, addr_b, trust_a) (tb, addr_a, trust_b) rounds (ra', rb')))"

text \<open>The rounds follow each other before what was heard in the one before has become stale.\<close>

fun timely :: "bytes \<Rightarrow> real \<Rightarrow> real \<Rightarrow> (nat \<Rightarrow> real) \<Rightarrow> announce_round list \<Rightarrow> bool" where
  "timely d sa sb prev [] \<longleftrightarrow> True"
| "timely d sa sb prev ((build_a, learn_b, build_b, learn_a) # rounds) \<longleftrightarrow>
     (\<forall>i. build_a d - prev i \<le> sa) \<and> (\<forall>i. build_b d - learn_b i \<le> sb) \<and> timely d sa sb learn_a rounds"

text \<open>The two routers point at each other since the last round.\<close>

definition pointing ::
  "bytes \<Rightarrow> tref \<times> bytes \<Rightarrow> tref \<times> bytes \<Rightarrow> route_entry set \<Rightarrow> real \<Rightarrow> real \<Rightarrow> announce_round \<Rightarrow> router \<times> router \<Rightarrow> bool" where
  "pointing d la lb old sa sb x s \<longleftrightarrow> (case (x, s) of ((build_a, learn_b, build_b, learn_a), (ra, rb)) \<Rightarrow>
     announcer_ok ra \<and> announcer_ok rb \<and> d \<noteq> ro_local_id ra \<and> d \<noteq> ro_local_id rb \<and>
     rt_stale_after (ro_table ra) = sa \<and> rt_stale_after (ro_table rb) = sb \<and>
     heard learn_a la old d ra \<and> heard learn_b lb {} d rb)"

lemma gossip_round:
  assumes ok: "announcer_ok ra" "announcer_ok rb" "d \<noteq> ro_local_id ra" "d \<noteq> ro_local_id rb"
    and best: "RouteTable_best (build_a d) (ro_table ra) d = Inr (Some e)"
    and old: "\<forall>f \<in> set (RouteTable_all_routes (ro_table ra) d). f \<in> old \<or> link_of f = (ta, addr_b)"
    and b: "\<forall>f \<in> set (RouteTable_all_routes (ro_table rb) d). link_of f = (tb, addr_a)"
    and t: "\<forall>i. build_b d - learn_b i \<le> rt_stale_after (ro_table rb)"
  obtains s where "pointing d (ta, addr_b) (tb, addr_a) old (rt_stale_after (ro_table ra)) (rt_stale_after (ro_table rb))
      (build_a, learn_b, build_b, learn_a) s"
    and "gossip (ta, addr_b, trust_a) (tb, addr_a, trust_b) ((build_a, learn_b, build_b, learn_a) # rounds) (ra, rb) =
      gossip (ta, addr_b, trust_a) (tb, addr_a, trust_b) rounds s"
proof -
  obtain p1 u1 rb' where 1: "Router_build_announce_payload build_a [] ra = Inr p1"
    "Router_process_announce_payload learn_b p1 tb addr_a trust_b rb = (Inr u1, rb')"
    and rb': "announcer_ok rb'" "heard learn_b (tb, addr_a) {} d rb'" "ro_local_id rb' = ro_local_id rb"
      "rt_stale_after (ro_table rb') = rt_stale_after (ro_table rb)"
    by (rule announcement_heard [where now = build_a and d = d and old = "{}" and via = tb and addr = addr_a
          and clk = learn_b and trust = trust_b, OF ok(1,2) best ok(3,4)]) (use b in auto)
  obtain e2 where e2: "RouteTable_best (build_b d) (ro_table rb') d = Inr (Some e2)"
    using heard_best [OF rb'(2), of "build_b d"] rb'(1,4) t by (auto simp: announcer_ok_def)
  obtain p2 u2 ra' where 2: "Router_build_announce_payload build_b [] rb' = Inr p2"
    "Router_process_announce_payload learn_a p2 ta addr_b trust_a ra = (Inr u2, ra')"
    and ra': "announcer_ok ra'" "heard learn_a (ta, addr_b) old d ra'" "ro_local_id ra' = ro_local_id ra"
      "rt_stale_after (ro_table ra') = rt_stale_after (ro_table ra)"
    by (rule announcement_heard [where now = build_b and d = d and clk = learn_a and trust = trust_a,
          OF rb'(1) ok(1) e2 _ ok(3) old]) (use ok(4) rb'(3) in auto)
  show ?thesis
    by (rule that [of "(ra', rb')"]) (use 1 2 ra' rb' ok in \<open>simp_all add: pointing_def\<close>)
qed

lemma gossip_pointing:
  assumes "pointing d (ta, addr_b) (tb, addr_a) old sa sb x s" and "timely d sa sb (snd (snd (snd x))) rounds"
  shows "\<exists>s'. gossip (ta, addr_b, trust_a) (tb, addr_a, trust_b) rounds s = Inr s' \<and>
    pointing d (ta, addr_b) (tb, addr_a) old sa sb (last (x # rounds)) s'"
  using assms
proof (induction rounds arbitrary: x s)
  case (Cons y rounds)
  obtain n1 c1 n2 c2 where x: "x = (n1, c1, n2, c2)" by (cases x)
  obtain build_a learn_b build_b learn_a where y: "y = (build_a, learn_b, build_b, learn_a)" by (cases y)
  obtain ra rb where s: "s = (ra, rb)" by fastforce
  have p: "announcer_ok ra" "announcer_ok rb" "d \<noteq> ro_local_id ra" "d \<noteq> ro_local_id rb"
    and st: "rt_stale_after (ro_table ra) = sa" "rt_stale_after (ro_table rb) = sb"
    and h: "heard c2 (ta, addr_b) old d ra" "heard c1 (tb, addr_a) {} d rb"
    using Cons.prems(1) by (simp_all add: pointing_def x s)
  obtain e where e: "RouteTable_best (build_a d) (ro_table ra) d = Inr (Some e)"
    using heard_best [OF h(1), of "build_a d"] p(1) st Cons.prems(2) unfolding announcer_ok_def x y by auto
  obtain s' where s': "pointing d (ta, addr_b) (tb, addr_a) old sa sb y s'"
    "gossip (ta, addr_b, trust_a) (tb, addr_a, trust_b) (y # rounds) s =
      gossip (ta, addr_b, trust_a) (tb, addr_a, trust_b) rounds s'"
    using gossip_round [where build_a = build_a and d = d, OF p e, of old ta addr_b tb addr_a build_b learn_b learn_a
        trust_a trust_b rounds] h Cons.prems(2)
    unfolding st s y heard_def by auto
  then show ?case using Cons.IH [OF s'(1)] Cons.prems(2) by (simp add: x y)
qed simp

section \<open>A small mesh\<close>

text \<open>A second router, without neighbours and with one, and two links.\<close>

definition spoke :: router where
  "spoke = \<lparr>ro_local_id = replicate 32 0, ro_table = RouteTable_new 300, ro_max_advertised_trust = 95 / 100\<rparr>"

definition spoke_b :: router where
  "spoke_b = snd (Router_add_direct_route 0 id_b 3 [9] 1 5 spoke)"

definition two_links :: heap where
  "two_links = InProcessTransport_create_pair 3 4 [8] [9]
     (InProcessTransport_create_pair 1 2 [6] [7] (\<lambda>_. InProcessTransport_new []))"

lemma two_links_fields:
  "ip_peer (two_links 1) = Some 2" "ip_peer (two_links 3) = Some 4" "ip_peer (two_links 4) = Some 3"
  "x \<in> {1, 2, 3, 4} \<Longrightarrow> \<not> ip_closed (two_links x) \<and> ip_inbox (two_links x) = []"
  by (auto simp: two_links_def InProcessTransport_create_pair_def InProcessTransport_new_def)

lemma hub_leads: "leads_to id_b two_links (hub, 10, 2)"
  using two_links_fields by (simp add: leads_to_def Router_get_route_def hub_best)

lemma spoke_leads: "leads_to id_b two_links (spoke_b, 10, 4)"
  using two_links_fields
  by (simp add: leads_to_def Router_get_route_def spoke_b_def spoke_def Router_add_direct_route_def RouteTable_new_def
      RouteTable_add_def RouteTable_best_def fresh_routes_def RouteEntry_score_def dict_get_or_def Let_def)

section \<open>Properties\<close>

text \<open>C7: a packet crosses the mesh. Two devices are in step and their protocols established. When each router on a path of any
  length has a route to the receiver over an open transport to the next, with nothing waiting there, the message
  that the sender's protocol puts into a packet passes all of them unchanged, every transport is left as it was,
  and the receiver's protocol returns the message.\<close>

theorem mesh_path_delivers:
  assumes "crypto_laws C" and "in_step C da db n" and "int (length plain) < 2 ^ 31" and "n < 2 ^ 32"
    and "0 < env_stamp va \<and> env_stamp va < 256 ^ 8 \<and> length (env_nonce va) = 12"
    and "\<bar>env_replay vb - env_stamp va\<bar> \<le> 30000"
    and "pr_state pa = ESTABLISHED" and "pr_peer_id pa = Some (dev_device_id db)" and "pr_state pb = ESTABLISHED"
    and "\<forall>x \<in> set hops. leads_to (dev_device_id db) h x"
  shows "\<exists>wire da' db'. Protocol_send_data C va plain (pa, da) = (Inr wire, (pa, da')) \<and>
     relay (dev_device_id db) hops wire h = (Returns wire, h) \<and>
     Protocol_receive_data C vb wire (pb, db) = (Inr plain, (pb, db'))"
proof -
  have "env_ok va" using assms(5) by simp
  then show ?thesis
    by (rule data_exchanged [OF assms(1,2) _ assms(3,4,6-9)]) (use relay_path [OF assms(10)] in blast)
qed

theorem mesh_path_delivers_witness:
  "\<exists>wire da' db'. Protocol_send_data toy quiet [1, 2, 3] (up id_b, dev_a1) = (Inr wire, (up id_b, da')) \<and>
     relay id_b [(hub, 10, 2), (spoke_b, 10, 4)] wire two_links = (Returns wire, two_links) \<and>
     Protocol_receive_data toy quiet wire (up id_a, dev_b1) = (Inr [1, 2, 3], (up id_a, db'))"
  using mesh_path_delivers [OF toy_laws dev_ab_in_step(1), of "[1, 2, 3]" quiet quiet "up id_b" "up id_a"
      "[(hub, 10, 2), (spoke_b, 10, 4)]" two_links] hub_leads spoke_leads
  by (simp add: dev_ab1_ids quiet_def del: relay.simps)

text \<open>C30: announcements can make routers point at each other, as long as they are repeated. A router
  that has a route to a destination announces it to a neighbour that knows none, the neighbour announces all it knows back, as
  \<open>build_announce_payload\<close> does, and both repeat this any number of times before what they heard has become
  stale; the destination itself need not take part any more. When the first router's own
  routes to the destination have become stale, a packet for it goes back and forth between the two routers
  for as long as what they heard in the last round is fresh at the times of the hops, since
  nothing in a forwarded packet is counted down. Only when that has become stale too, because the announcements have stopped,
  the first router finds no route any more.\<close>

theorem announced_routes_loop:
  assumes "announcer_ok ra" and "announcer_ok rb" and "d \<noteq> ro_local_id ra" and "d \<noteq> ro_local_id rb"
    and "RouteTable_best (build_a d) (ro_table ra) d = Inr (Some e)" and "RouteTable_all_routes (ro_table rb) d = []"
    and "\<forall>i. build_b d - learn_b i \<le> rt_stale_after (ro_table rb)"
    and "timely d (rt_stale_after (ro_table ra)) (rt_stale_after (ro_table rb)) learn_a rounds"
    and "last ((build_a, learn_b, build_b, learn_a) # rounds) = (na, heard_b, nb, heard_a)"
    and "ip_peer (h ta) = Some tb" and "ip_peer (h tb) = Some ta" and "\<forall>x \<in> {ta, tb}. \<not> ip_closed (h x) \<and> ip_inbox (h x) = []"
  shows "\<exists>ra' rb'. gossip (ta, addr_b, trust_a) (tb, addr_a, trust_b) ((build_a, learn_b, build_b, learn_a) # rounds) (ra, rb) =
       Inr (ra', rb') \<and>
     (\<forall>times. (\<forall>(t, t') \<in> set times.
          (\<forall>f \<in> set (RouteTable_all_routes (ro_table ra) d). rt_stale_after (ro_table ra) < t - re_last_seen f) \<and>
          (\<forall>i. t - heard_a i \<le> rt_stale_after (ro_table ra)) \<and> (\<forall>i. t' - heard_b i \<le> rt_stale_after (ro_table rb))) \<longrightarrow>
        relay d (concat (map (\<lambda>(t, t'). [(ra', t, tb), (rb', t', ta)]) times)) raw h = (Returns raw, h)) \<and>
     (\<forall>t. (\<forall>f \<in> set (RouteTable_all_routes (ro_table ra) d). rt_stale_after (ro_table ra) < t - re_last_seen f) \<and>
          (\<forall>i. rt_stale_after (ro_table ra) < t - heard_a i) \<longrightarrow>
        Router_get_route t ra' d = Inl RoutingError)"
proof -
  let ?old = "set (RouteTable_all_routes (ro_table ra) d)"
  let ?sa = "rt_stale_after (ro_table ra)" and ?sb = "rt_stale_after (ro_table rb)"
  obtain s where s: "pointing d (ta, addr_b) (tb, addr_a) ?old ?sa ?sb (build_a, learn_b, build_b, learn_a) s"
    "gossip (ta, addr_b, trust_a) (tb, addr_a, trust_b) ((build_a, learn_b, build_b, learn_a) # rounds) (ra, rb) =
      gossip (ta, addr_b, trust_a) (tb, addr_a, trust_b) rounds s"
    by (rule gossip_round [where build_a = build_a and d = d and old = ?old, OF assms(1-5)]) (use assms(6,7) in auto)
  obtain ra' rb' where g: "gossip (ta, addr_b, trust_a) (tb, addr_a, trust_b) rounds s = Inr (ra', rb')"
    and p: "pointing d (ta, addr_b) (tb, addr_a) ?old ?sa ?sb (na, heard_b, nb, heard_a) (ra', rb')"
    using gossip_pointing [OF s(1), of rounds trust_a trust_b] assms(8,9) by auto
  have wf: "table_wf (ro_table ra')" "table_wf (ro_table rb')"
    and st: "rt_stale_after (ro_table ra') = ?sa" "rt_stale_after (ro_table rb') = ?sb"
    and hd: "heard heard_a (ta, addr_b) ?old d ra'" "heard heard_b (tb, addr_a) {} d rb'"
    using p by (simp_all add: pointing_def announcer_ok_def)
  have hop_a: "leads_to d h (ra', t, tb)"
    if "\<forall>f \<in> ?old. ?sa < t - re_last_seen f" and "\<forall>i. t - heard_a i \<le> ?sa" for t
    using heard_route [OF hd(1) wf(1)] that st assms(10,12) by (fastforce simp: leads_to_def)
  have hop_b: "leads_to d h (rb', t, ta)" if "\<forall>i. t - heard_b i \<le> ?sb" for t
    using heard_route [OF hd(2) wf(2)] that st assms(11,12) by (fastforce simp: leads_to_def)
  have "relay d (concat (map (\<lambda>(t, t'). [(ra', t, tb), (rb', t', ta)]) times)) raw h = (Returns raw, h)"
    if "\<forall>(t, t') \<in> set times. (\<forall>f \<in> ?old. ?sa < t - re_last_seen f) \<and>
          (\<forall>i. t - heard_a i \<le> ?sa) \<and> (\<forall>i. t' - heard_b i \<le> ?sb)" for times
    by (rule relay_path) (use that hop_a hop_b in auto)
  moreover have "Router_get_route t ra' d = Inl RoutingError"
    if "\<forall>f \<in> ?old. ?sa < t - re_last_seen f" and "\<forall>i. ?sa < t - heard_a i" for t
    using heard_expired [OF hd(1)] that st by simp
  ultimately show ?thesis using s(2) g by (intro exI [of _ ra'] exI [of _ rb']) auto
qed

text \<open>The hub and the spoke announce to each other four times, every 200 seconds; the hub's route dates from 0.\<close>

theorem announced_routes_loop_witness:
  "\<exists>ra rb. gossip (3, [9], 1) (4, [8], 1)
       (map (\<lambda>t. (\<lambda>_. t, \<lambda>_. t, \<lambda>_. t, \<lambda>_. t)) [200, 400, 600, 800]) (hub, spoke) = Inr (ra, rb) \<and>
     relay id_b [(ra, 1000, 4), (rb, 1010, 3), (ra, 1020, 4), (rb, 1030, 3)] [1, 2, 3] two_links = (Returns [1, 2, 3], two_links) \<and>
     Router_get_route 1200 ra id_b = Inl RoutingError"
proof -
  have "id_b ! 0 \<noteq> replicate 32 0 ! 0" by (simp add: id_b_def)
  then have ne: "id_b \<noteq> replicate 32 0" by metis
  have ok: "announcer_ok hub" "announcer_ok spoke"
    using hub_wf RouteTable_new_wf [of 300]
    by (simp_all add: announcer_ok_def hub_routes RouteTable_known_destinations_def spoke_def RouteTable_new_def)
  have best: "\<exists>e. RouteTable_best 200 (ro_table hub) id_b = Inr (Some e)"
    by (simp add: RouteTable_best_def fresh_routes_def hub_routes RouteEntry_score_def dict_get_or_def Let_def)
  note l = announced_routes_loop [OF ok, where build_a = "\<lambda>_. 200" and learn_b = "\<lambda>_. 200" and build_b = "\<lambda>_. 200"
    and learn_a = "\<lambda>_. 200" and d = id_b and rounds = "map (\<lambda>t. (\<lambda>_. t, \<lambda>_. t, \<lambda>_. t, \<lambda>_. t)) [400, 600, 800]"
    and h = two_links and ta = 3 and tb = 4 and na = "\<lambda>_. 800" and heard_b = "\<lambda>_. 800" and nb = "\<lambda>_. 800"
    and heard_a = "\<lambda>_. 800" and raw = "[1, 2, 3]" and addr_a = "[8]" and addr_b = "[9]" and trust_a = 1 and trust_b = 1]
  obtain ra rb where g: "gossip (3, [9], 1) (4, [8], 1)
       (map (\<lambda>t. (\<lambda>_. t, \<lambda>_. t, \<lambda>_. t, \<lambda>_. t)) [200, 400, 600, 800]) (hub, spoke) = Inr (ra, rb)"
    and r: "\<And>times. (\<forall>(t, t') \<in> set times. 300 < t \<and> t \<le> 1100 \<and> t' \<le> 1100) \<Longrightarrow>
      relay id_b (concat (map (\<lambda>(t, t'). [(ra, t, 4), (rb, t', 3)]) times)) [1, 2, 3] two_links = (Returns [1, 2, 3], two_links)"
    and x: "\<And>t. 1100 < t \<Longrightarrow> Router_get_route t ra id_b = Inl RoutingError"
    using l best ne ids_differ two_links_fields
    by (fastforce simp: hub_routes spoke_def RouteTable_all_routes_def RouteTable_new_def dict_get_or_def simp del: relay.simps gossip.simps)
  show ?thesis using g r [of "[(1000, 1010), (1020, 1030)]"] x [of 1200] by (auto simp del: relay.simps gossip.simps)
qed

end
