(* ===== verification/Spec2Isabelle.thy ===== *)
theory Spec2Isabelle
  imports Example_Runs Hostile_Network Reliable_Exchange Mesh
begin

text \<open>
  A verification of ZTLNP, the zero-trust local network protocol of \<^verbatim>\<open>src/ztlnp\<close>.

  \<^bold>\<open>The program.\<close> A device (\<^verbatim>\<open>device.py\<close>) owns an Ed25519 identity key; its identifier is the
  SHA-256 hash of the public key. Packets (\<^verbatim>\<open>packet.py\<close>) have a 100-byte header, a payload and a
  64-byte signature or MAC. Two devices run a four-message handshake (\<^verbatim>\<open>protocol.py\<close>), which leaves
  each with one end of a session (\<^verbatim>\<open>session.py\<close>): two keys derived from an X25519 exchange, a
  counter for outgoing packets and a replay window for incoming ones. Cryptography is in
  \<^verbatim>\<open>crypto.py\<close>, a wrapper of the \<^verbatim>\<open>cryptography\<close> package. On top of an established protocol
  there are a channel with acknowledgements and retransmission (\<^verbatim>\<open>reliability.py\<close>), a
  sliding-window channel with selective acknowledgements (\<^verbatim>\<open>sliding_window.py\<close>) and measures against
  traffic analysis (\<^verbatim>\<open>privacy.py\<close>). Beside them stand the trust store with endorsements and
  fingerprints (\<^verbatim>\<open>trust.py\<close>), key rotation, which migrates trust (\<^verbatim>\<open>identity.py\<close>), transports
  (\<^verbatim>\<open>transport.py\<close>) and a router over transports (\<^verbatim>\<open>router.py\<close>).

  \<^bold>\<open>Conventions.\<close> A method of class \<open>K\<close> named \<open>m\<close> is the definition \<open>K_m\<close>; an object is a record, a dictionary an
  insertion-ordered association list, an exception a value \<open>Inl e\<close> of the result type. A method that
  changes objects takes and returns their states, also when it raises, so that assignments made before
  an exception are kept; objects that share a device are changed through the pair of the object and the
  device. Python integers are \<open>int\<close>, bytes are lists of 8-bit words, and the range checks of
  \<^verbatim>\<open>struct.pack\<close> are written out (\<open>pack_uint\<close>). Floating-point numbers are reals. Readings of the
  clock, generated keys, nonces and other random bytes are arguments; where a method reads several, they
  are the fields of the record \<open>env\<close>.

  \<^bold>\<open>Theories.\<close>
  \<^item> \<open>Prelude\<close>: results, dictionaries, packing; the locales \<open>wire_codec\<close> and \<open>framed_codec\<close> of wire formats.
  \<^item> \<open>Sha256\<close>, \<open>Sha256_Vectors\<close>, \<open>Sha256_Vector_C\<close>: the hash function, executable, with the digests of three
    sample keys.
  \<^item> \<open>Py_Text\<close>: Python strings, UTF-8, \<^verbatim>\<open>int(text)\<close> and \<^verbatim>\<open>str(int)\<close>, with their round trips.
  \<^item> \<open>Packet\<close>: the record, validation, serialiser and parser; parsing inverts serialising
    (\<open>packet_codec\<close>), and serialising inverts parsing up to the clock that the parser puts into a zero
    timestamp field (\<open>seen_bytes\<close>).
  \<^item> \<open>Crypto\<close>: every method of \<^verbatim>\<open>CryptoEngine\<close> over a record \<open>'k crypto\<close> of the primitives of the third-party
    package; \<open>crypto_laws\<close> are their documented laws (sizes, verification of signatures, agreement of key
    exchange, decryption of ciphertexts). They do not say that forging is hard; theorems on
    authenticity state what was checked, with which key, and \<open>hostile_network_agreement\<close> assumes
    a run without forgeries. \<open>Toy_Crypto\<close> is an instance that satisfies the laws.
  \<^item> \<open>Session\<close>: the replay window refines a filter with unbounded memory (locale \<open>replay_filter\<close>).
  \<^item> \<open>Trust\<close>, \<open>Trust_Invariants\<close>, \<open>Trust_Encoding\<close>: the store with its operations and the locale
    \<open>trust_keyring\<close>; its invariant, monotonicity and blacklist over all sequences of operations; endorsements;
    fingerprints and QR payloads.
  \<^item> \<open>Identity\<close>: key transitions, their format, the rotation manager on the shared store; resolution of
    retired identities terminates and follows the chain.
  \<^item> \<open>Transport\<close>: in-process transports in a heap; the locale \<open>fifo_channel\<close>; a waiting reader as a step relation.
  \<^item> \<open>Udp_Transport\<close>: the UDP transport over a record \<open>'s sockets\<close> of the socket calls of the operating system,
    the address parser, and the contract of the abstract base class (locale \<open>transport_contract\<close>), which both
    transports fulfil; an instance of the sockets that delivers datagrams on one machine.
  \<^item> \<open>Router\<close>: route entries, table, announcements, forwarding over the transports.
  \<^item> \<open>Device\<close>, \<open>Device_Lemmas\<close>, \<open>Device_Properties\<close>: the methods of a device; its invariant over all sequences of
    operations; packets as authenticated messages (locale \<open>packet_auth\<close>, for signatures and MACs);
    authenticity, delivery, protection against replays.
  \<^item> \<open>Protocol\<close>, \<open>Protocol_Invariants\<close>, \<open>Handshake\<close>, \<open>Protocol_Properties\<close>: the state machine with all handlers;
    a step relation over all calls, analysed with the condition \<open>after\<close> that a method establishes, and the
    transitions of the code with the packets that cause them (\<open>packet_edges\<close>); the
    handshake step by step; what an outsider can do to it.
  \<^item> \<open>Arq\<close>: the retransmission queue that both channels share, as the locale \<open>retransmittable\<close>.
  \<^item> \<open>Reliability\<close>: the stop-and-wait channel, what a series of polls returns (\<open>poll_results\<close>) and leaves in the
    queue (\<open>poll_at\<close>).
  \<^item> \<open>Sliding_Window\<close>, \<open>Sliding_Window_Properties\<close>: SACK frames, the send window and the receive buffer; the
    buffer as an in-order stream.
  \<^item> \<open>Bulk_Transfer\<close>: two sliding-window channels over two devices.
  \<^item> \<open>Exchange\<close>: two devices in step (\<open>in_step\<close>), the invariant of sequences of messages.
  \<^item> \<open>Bulk_Exchange\<close>: a burst through the windows and the acknowledgement on its way back.
  \<^item> \<open>Reliable_Exchange\<close>: the stop-and-wait channel over a network that loses packets, with the acknowledgement on
    its way back.
  \<^item> \<open>Hostile_Network\<close>: runs of two devices whose network does what it likes; agreement of the data delivered with the
    data sent, under the hypothesis \<open>unforged\<close> on the run; packets passed on to the wrong peer.
  \<^item> \<open>Mesh\<close>: packets over several routers (\<open>relay\<close>), and two routers that learn from each other in rounds of
    announcements (\<open>gossip\<close>).
  \<^item> \<open>Privacy\<close>: padding, jitter and cover traffic.
  \<^item> \<open>Example\<close>, \<open>Example_Runs\<close>: the five features of \<^verbatim>\<open>example.py\<close>, which put all components but the
    sliding window, key rotation and privacy together; each of them runs through.
  \<^item> this theory: the composition of device, protocol and transport.

  \<^bold>\<open>Loops and bounds.\<close> All functions are total, none uses fuel: the loop that drains the receive buffer and the
  loop that resolves retired identities terminate because the buffer shrinks and the set of visited
  identities grows. A reader that waits for ever is the value \<open>Blocks\<close>. Sequence numbers are unbounded in
  the session and 32 bits wide on the wire; sending the number \<open>2 ^ 32\<close> raises \<^verbatim>\<open>struct.error\<close>, and the
  theorems on delivery carry the bound as a hypothesis.

  \<^bold>\<open>Where the code differs from its documentation.\<close> Several theorems state behaviour that the documentation
  excludes or that looks unintended; they describe the code as it is. Examples are \<open>handshake_impersonation\<close>,
  \<open>hello_redirects_established\<close>, \<open>bye_from_other_peer\<close>, \<open>rotation_breaks_sessions\<close>,
  \<open>hello_claimed_identity_not_checked\<close>, \<open>endorsement_ignores_blacklist\<close>, \<open>announce_hop_counts\<close>,
  \<open>announced_routes_loop\<close>, \<open>redirected_packet_blocks\<close>, \<open>packet_zero_timestamp_rewritten\<close>,
  \<open>zeroed_timestamp_restored\<close>, \<open>zeroed_timestamp_received\<close>,
  \<open>recv_not_woken_by_close\<close>, \<open>port_alone_is_an_address\<close>, \<open>retransmit_error_skips_others\<close>, \<open>late_first_packet_lost\<close>,
  \<open>duplicate_not_acknowledged\<close>, \<open>ack_leaves_gap\<close>, \<open>recv_buffer_unbounded\<close>, \<open>send_base_stale\<close>, \<open>padding_lengths\<close> and
  \<open>cover_reaches_application\<close>. The state diagram in section 6 of \<^verbatim>\<open>SPEC.md\<close> is not that of the code either: it has an edge
  from CLOSED to IDLE, takes the responder through HELLO\_SENT and has neither HELLO\_RECEIVED nor ERROR, while
  \<open>protocol_transitions\<close> and \<open>protocol_terminal_states\<close> give the transitions of \<^verbatim>\<open>protocol.py\<close>.

  \<^bold>\<open>Not modelled.\<close> The network behind the sockets, which is a parameter; the texts of exceptions and what
  \<^verbatim>\<open>example.py\<close> prints; \<^verbatim>\<open>__repr__\<close>; the package's \<^verbatim>\<open>__init__.py\<close>, which only re-exports names.
  Rounding of floating-point numbers is ignored. The tables of decimal digits and white space that
  \<^verbatim>\<open>int(text)\<close> uses are those of Unicode 14.
\<close>

section \<open>From new devices to delivered data\<close>

lemma pair_delivers:
  assumes "a \<noteq> b"
  shows "\<exists>h1 h2. InProcessTransport_send a dest wire (InProcessTransport_create_pair a b addr_a addr_b h0) = (Inr (), h1) \<and>
     InProcessTransport_recv b None h1 = (Returns (addr_a, wire), h2)"
  using assms by (simp add: InProcessTransport_create_pair_def InProcessTransport_new_def InProcessTransport_send_def
      InProcessTransport_recv_def inbox_put_def Let_def)

text \<open>C1: from nothing to delivered data. Two new devices, linked by an in-process transport, complete the
  handshake. Then a message that the initiator sends through its protocol, the transport carries and the
  responder hands to its protocol arrives unchanged.\<close>

theorem new_devices_exchange_data:
  assumes "crypto_laws C" and "a \<noteq> b" and "int (length plain) < 2 ^ 31"
    and "\<forall>v \<in> {v1, v2, v3, v4, v6}. 0 < env_stamp v \<and> env_stamp v < 256 ^ 8 \<and> length (env_nonce v) = 12"
    and "\<bar>env_confirm v4 - env_stamp v3\<bar> \<le> 30000" and "\<bar>env_replay v5 - env_stamp v4\<bar> \<le> 30000"
    and "\<bar>env_replay v7 - env_stamp v6\<bar> \<le> 30000"
  shows "\<exists>h1 h2 k1 k2 s1 t1 s2 sa sb wire t2 t3 w2.
     Protocol_initiate C v1 (dev_device_id (Device_new C kb nb)) (Protocol_new, Device_new C ka na) = (Inr h1, s1) \<and>
     Protocol_process_incoming C v2 h1 (Protocol_new, Device_new C kb nb) = (Inr (Some h2), t1) \<and>
     Protocol_process_incoming C v3 h2 s1 = (Inr (Some k1), s2) \<and>
     Protocol_process_incoming C v4 k1 t1 = (Inr (Some k2), sb) \<and>
     Protocol_process_incoming C v5 k2 s2 = (Inr None, sa) \<and>
     fst (Protocol_send_data C v6 plain sa) = Inr wire \<and>
     InProcessTransport_send a dest wire (InProcessTransport_create_pair a b addr_a addr_b h0) = (Inr (), t2) \<and>
     InProcessTransport_recv b None t2 = (Returns (addr_a, w2), t3) \<and>
     fst (Protocol_receive_data C v7 w2 sb) = Inr plain"
proof -
  have v: "env_ok v1" "env_ok v2" "env_ok v3" "env_ok v4" "env_ok v6" using assms(4) by simp_all
  obtain h1 h2 k1 k2 s1 t1 s2 pa da pb db where hs:
    "Protocol_initiate C v1 (dev_device_id (Device_new C kb nb)) (Protocol_new, Device_new C ka na) = (Inr h1, s1)"
    "Protocol_process_incoming C v2 h1 (Protocol_new, Device_new C kb nb) = (Inr (Some h2), t1)"
    "Protocol_process_incoming C v3 h2 s1 = (Inr (Some k1), s2)"
    "Protocol_process_incoming C v4 k1 t1 = (Inr (Some k2), (pb, db))"
    "Protocol_process_incoming C v5 k2 s2 = (Inr None, (pa, da))"
    and p: "pr_state pa = ESTABLISHED" "pr_peer_id pa = Some (dev_device_id db)" "pr_state pb = ESTABLISHED"
    and s: "in_step C da db 1"
    by (rule handshake_in_step [OF assms(1) v(1-4) assms(5,6)])
  obtain wire da' db' where d: "Protocol_send_data C v6 plain (pa, da) = (Inr wire, (pa, da'))"
    "Protocol_receive_data C v7 wire (pb, db) = (Inr plain, (pb, db'))"
    by (rule data_exchanged [OF assms(1) s v(5) assms(3) _ assms(7) p]) simp_all
  obtain t2 t3 where tr: "InProcessTransport_send a dest wire (InProcessTransport_create_pair a b addr_a addr_b h0) = (Inr (), t2)"
    "InProcessTransport_recv b None t2 = (Returns (addr_a, wire), t3)"
    using pair_delivers [OF assms(2)] by blast
  show ?thesis
    by (rule exI [of _ h1], rule exI [of _ h2], rule exI [of _ k1], rule exI [of _ k2], rule exI [of _ s1], rule exI [of _ t1],
        rule exI [of _ s2], rule exI [of _ "(pa, da)"], rule exI [of _ "(pb, db)"], rule exI [of _ wire], rule exI [of _ t2], rule exI [of _ t3], rule exI [of _ wire])
      (simp only: hs d tr fst_conv simp_thms)
qed

theorem new_devices_exchange_data_witness:
  "\<exists>h1 h2 k1 k2 s1 t1 s2 sa sb wire.
     Protocol_initiate toy quiet (dev_device_id (Device_new toy key_b ''b'')) (Protocol_new, Device_new toy key_a ''a'') = (Inr h1, s1) \<and>
     Protocol_process_incoming toy quiet h1 (Protocol_new, Device_new toy key_b ''b'') = (Inr (Some h2), t1) \<and>
     Protocol_process_incoming toy quiet h2 s1 = (Inr (Some k1), s2) \<and>
     Protocol_process_incoming toy quiet k1 t1 = (Inr (Some k2), sb) \<and>
     Protocol_process_incoming toy quiet k2 s2 = (Inr None, sa) \<and>
     fst (Protocol_send_data toy quiet [72, 105] sa) = Inr wire \<and>
     fst (Protocol_receive_data toy quiet wire sb) = Inr [72, 105]"
proof -
  have q: "\<forall>v \<in> {quiet, quiet, quiet, quiet, quiet}. 0 < env_stamp v \<and> env_stamp v < 256 ^ 8 \<and> length (env_nonce v) = 12"
    by (simp add: quiet_def)
  obtain h1 h2 k1 k2 s1 t1 s2 sa sb wire t2 t3 w2 where r:
    "Protocol_initiate toy quiet (dev_device_id (Device_new toy key_b ''b'')) (Protocol_new, Device_new toy key_a ''a'') = (Inr h1, s1)"
    "Protocol_process_incoming toy quiet h1 (Protocol_new, Device_new toy key_b ''b'') = (Inr (Some h2), t1)"
    "Protocol_process_incoming toy quiet h2 s1 = (Inr (Some k1), s2)"
    "Protocol_process_incoming toy quiet k1 t1 = (Inr (Some k2), sb)"
    "Protocol_process_incoming toy quiet k2 s2 = (Inr None, sa)"
    "fst (Protocol_send_data toy quiet [72, 105] sa) = Inr wire"
    "InProcessTransport_send 0 [] wire (InProcessTransport_create_pair 0 1 [] [] undefined) = (Inr (), t2)"
    "InProcessTransport_recv 1 None t2 = (Returns ([], w2), t3)"
    "fst (Protocol_receive_data toy quiet w2 sb) = Inr [72, 105]"
    using new_devices_exchange_data [OF toy_laws, of 0 1 "[72, 105]" quiet quiet quiet quiet quiet quiet quiet
        key_b "''b''" key_a "''a''" "[]" "[]" "[]" undefined] q by (auto simp: quiet_def)
  have "w2 = wire"
    using r(7,8) by (auto simp: InProcessTransport_create_pair_def InProcessTransport_new_def InProcessTransport_send_def
      InProcessTransport_recv_def inbox_put_def Let_def)
  with r show ?thesis by blast
qed

end
